(* ===== verification/Bid_Prelude.thy ===== *)
theory Bid_Prelude
  imports Main "HOL-Library.Product_Lexorder"
begin

section \<open>Shared vocabulary\<close>

text \<open>
  What every component of the model shares: the names of the scalar types, Python's
  exceptions as values, the dynamically typed arguments the validators look at, the
  string functions the code calls, and the lemma collections of the development.

  \<^item> \<open>uuid\<close>: a UUID as the 128-bit number it is; only equality and order are used.
  \<^item> \<open>instant\<close>: an aware datetime, or a \<open>timestamptz\<close>, as microseconds on the UTC line.
  \<^item> strings: lists of characters, each one Unicode code point (the model covers the
    code points up to 255), so \<open>length\<close> is Python's \<open>len\<close>.
\<close>

type_synonym uuid = nat
type_synonym cents = int
type_synonym instant = int

subsection \<open>Exceptions as values\<close>

text \<open>
  SQL errors are the \<open>psycopg.errors\<close> classes the code can see. \<open>StrategyBusyError\<close> and
  \<open>OptimisticMiss\<close> are the two exceptions \<^verbatim>\<open>db/strategies.py\<close> declares. \<open>HttpError name\<close> is an
  exception of the HTTP client library, given by its class name.
\<close>

datatype sql_error =
    UniqueViolation
  | CheckViolation
  | ForeignKeyViolation
  | NumericValueOutOfRange
  | LockNotAvailable
  | QueryCanceled
  | DeadlockDetected
  | InFailedSqlTransaction
  | PoolTimeout
  | OperationalError

datatype py_exn =
    TypeError string
  | ValueError string
  | OverflowError string
  | RuntimeError string
  | AssertionError
  | ZeroDivisionError
  | IndexError string
  | KeyError string
  | StatisticsError string
  | AttributeError string
  | HttpError string
  | StrategyBusyError string
  | OptimisticMiss int
  | SqlError sql_error

type_synonym 'a py = "py_exn + 'a"

definition py_bind :: "'a py \<Rightarrow> ('a \<Rightarrow> 'b py) \<Rightarrow> 'b py" where
  "py_bind m f = (case m of Inl e \<Rightarrow> Inl e | Inr x \<Rightarrow> f x)"

text \<open>A guard \<open>if c: raise e\<close>.\<close>

definition raise_if :: "bool \<Rightarrow> py_exn \<Rightarrow> unit py" where
  "raise_if c e = (if c then Inl e else Inr ())"

lemma py_bind_simps [simp]:
  "py_bind (Inl e) f = Inl e"
  "py_bind (Inr x) f = f x"
  by (simp_all add: py_bind_def)

lemma py_bind_eq_Inr [simp]:
  "py_bind m f = Inr y \<longleftrightarrow> (\<exists>x. m = Inr x \<and> f x = Inr y)"
  by (cases m) auto

lemma raise_if_simps [simp]:
  "raise_if True e = Inl e"
  "raise_if False e = Inr ()"
  by (simp_all add: raise_if_def)

lemma raise_if_eq_Inr [simp]: "raise_if c e = Inr u \<longleftrightarrow> \<not> c"
  by (simp add: raise_if_def)

text \<open>A loop over \<open>xs\<close> that collects its results and stops at the first exception.\<close>

primrec py_map :: "('a \<Rightarrow> 'b py) \<Rightarrow> 'a list \<Rightarrow> 'b list py" where
  "py_map f [] = Inr []"
| "py_map f (x # xs) = py_bind (f x) (\<lambda>y. py_bind (py_map f xs) (\<lambda>ys. Inr (y # ys)))"

lemma py_map_eq_Inr: "py_map f xs = Inr ys \<longleftrightarrow> list_all2 (\<lambda>x y. f x = Inr y) xs ys"
  by (induction xs arbitrary: ys) (auto simp: list_all2_Cons1)

subsection \<open>Dynamically typed arguments\<close>

text \<open>
  The validators distinguish integers from booleans (\<open>bool\<close> is a subclass of \<open>int\<close> in
  Python) and from everything else, and aware datetimes from naive ones.
\<close>

datatype py_value = PyInt int | PyBool bool | PyOther

datatype py_datetime = Naive int | Aware instant

subsection \<open>Strings\<close>

text \<open>
  \<open>str.strip\<close> drops the characters for which \<open>str.isspace\<close> holds; up to code point 255
  these are 9--13, 28--32, 133 and 160. SQL's \<open>btrim\<close> drops spaces (32) only.
\<close>

definition py_space :: "char \<Rightarrow> bool" where
  "py_space c = (let n = (of_char c :: nat)
     in (9 \<le> n \<and> n \<le> 13) \<or> (28 \<le> n \<and> n \<le> 32) \<or> n = 133 \<or> n = 160)"

definition trim_by :: "(char \<Rightarrow> bool) \<Rightarrow> string \<Rightarrow> string" where
  "trim_by p s = rev (dropWhile p (rev (dropWhile p s)))"

definition py_strip :: "string \<Rightarrow> string" where
  "py_strip s = trim_by py_space s"

definition sql_btrim :: "string \<Rightarrow> string" where
  "sql_btrim s = trim_by (\<lambda>c. c = CHR 0x20) s"

lemma dropWhile_fixed: "(s = [] \<or> \<not> p (hd s)) \<longleftrightarrow> dropWhile p s = s"
proof (cases s)
  case (Cons c cs)
  have "length (dropWhile p cs) \<le> length cs" by (rule length_dropWhile_le)
  then have "dropWhile p cs \<noteq> c # cs" by auto
  with Cons show ?thesis by simp
qed simp

lemma dropWhile_ends: "dropWhile p s = [] \<or> \<not> p (hd (dropWhile p s))"
  by (induction s) auto

lemma last_dropWhile: "dropWhile p s \<noteq> [] \<Longrightarrow> last (dropWhile p s) = last s"
  by (induction s) (auto split: if_splits)

text \<open>A trimmed string starts and ends outside the trimmed class, and such a string is a
  fixed point of trimming.\<close>

lemma trim_by_fixed: "s = [] \<or> (\<not> p (hd s) \<and> \<not> p (last s)) \<Longrightarrow> trim_by p s = s"
proof -
  assume s: "s = [] \<or> (\<not> p (hd s) \<and> \<not> p (last s))"
  then have "dropWhile p s = s" by (auto simp: dropWhile_fixed [symmetric])
  moreover from s have "dropWhile p (rev s) = rev s"
    by (auto simp: dropWhile_fixed [symmetric] hd_rev)
  ultimately show ?thesis by (simp add: trim_by_def)
qed

lemma trim_by_ends: "trim_by p s = [] \<or> (\<not> p (hd (trim_by p s)) \<and> \<not> p (last (trim_by p s)))"
proof -
  define u where "u = dropWhile p s"
  define v where "v = dropWhile p (rev u)"
  have tv: "trim_by p s = rev v" by (simp add: trim_by_def u_def v_def)
  have hv: "v = [] \<or> \<not> p (hd v)" unfolding v_def by (rule dropWhile_ends)
  have lv: "v \<noteq> [] \<Longrightarrow> last v = hd u"
    unfolding v_def by (metis last_dropWhile last_rev dropWhile.simps(1) rev.simps(1))
  have hu: "u = [] \<or> \<not> p (hd u)" unfolding u_def by (rule dropWhile_ends)
  have "v \<noteq> [] \<Longrightarrow> u \<noteq> []" by (auto simp: v_def)
  with tv hv lv hu show ?thesis by (auto simp: hd_rev last_rev)
qed

lemma trim_by_idem [simp]: "trim_by p (trim_by p s) = trim_by p s"
  by (rule trim_by_fixed) (rule trim_by_ends)

lemma py_strip_idem [simp]: "py_strip (py_strip s) = py_strip s"
  by (simp add: py_strip_def)

text \<open>Spaces are white space for Python: a string Python has stripped is a fixed point of
  \<open>btrim\<close> too.\<close>

lemma py_space_blank [simp]: "py_space CHR 0x20"
  by (simp add: py_space_def)

lemma btrim_of_strip [simp]: "sql_btrim (py_strip s) = py_strip s"
  unfolding py_strip_def sql_btrim_def
  by (rule trim_by_fixed) (use trim_by_ends [of py_space s] in auto)

subsection \<open>Lists\<close>

lemma find_append:
  "find P (xs @ ys) = (case find P xs of None \<Rightarrow> find P ys | Some x \<Rightarrow> Some x)"
  by (induction xs) auto

lemma find_SomeD: "find P xs = Some x \<Longrightarrow> x \<in> set xs \<and> P x"
  by (auto simp: find_Some_iff)

lemma find_None_on: "find P xs = None \<Longrightarrow> x \<in> set xs \<Longrightarrow> \<not> P x"
  by (auto simp: find_None_iff)

lemma distinct_map_eq: "distinct (map f xs) \<Longrightarrow> x \<in> set xs \<Longrightarrow> y \<in> set xs \<Longrightarrow> f x = f y \<Longrightarrow> x = y"
  by (auto simp: distinct_map inj_on_def)

lemma find_unique:
  "distinct (map f xs) \<Longrightarrow> x \<in> set xs \<Longrightarrow> find (\<lambda>y. f y = f x) xs = Some x"
  by (induction xs) (auto simp: rev_image_eqI)

end
