(* ===== verification/Domain_Models.thy ===== *)
theory Domain_Models
  imports Bid_Prelude
begin

section \<open>Domain values\<close>

text \<open>
  The value objects of \<^verbatim>\<open>src/src/bidding/domain/models.py\<close>. A frozen dataclass is a
  record of validated fields; its \<open>__post_init__\<close> is a function \<open>make_\<dots>\<close> from the
  constructor's arguments to the record or to the exception raised, with the checks in the
  code's order. Arguments whose dynamic type the code tests are \<open>py_value\<close> or
  \<open>py_datetime\<close>; the record holds the integers and instants that passed.
\<close>

definition MAX_MONEY_CENTS :: int where
  "MAX_MONEY_CENTS = 9000000000000000"

definition MAX_TITLE_LENGTH :: nat where
  "MAX_TITLE_LENGTH = 200"

definition MAX_BIDDER_ID_LENGTH :: nat where
  "MAX_BIDDER_ID_LENGTH = 128"

lemmas limit_defs = MAX_MONEY_CENTS_def MAX_TITLE_LENGTH_def MAX_BIDDER_ID_LENGTH_def

subsection \<open>Enumerations\<close>

datatype auction_state = SCHEDULED | OPEN | CLOSED

datatype bid_rejection_reason =
    AUCTION_NOT_FOUND
  | AUCTION_NOT_STARTED
  | AUCTION_CLOSED
  | BID_TOO_LOW
  | REQUEST_ID_REUSED
  | CONFLICT_RETRY_EXHAUSTED

datatype bid_outcome_status = ACCEPTED | REPLAYED | REJECTED

text \<open>The string values of the \<open>StrEnum\<close> members.\<close>

primrec auction_state_value :: "auction_state \<Rightarrow> string" where
  "auction_state_value SCHEDULED = ''scheduled''"
| "auction_state_value OPEN = ''open''"
| "auction_state_value CLOSED = ''closed''"

primrec rejection_value :: "bid_rejection_reason \<Rightarrow> string" where
  "rejection_value AUCTION_NOT_FOUND = ''auction_not_found''"
| "rejection_value AUCTION_NOT_STARTED = ''auction_not_started''"
| "rejection_value AUCTION_CLOSED = ''auction_closed''"
| "rejection_value BID_TOO_LOW = ''bid_too_low''"
| "rejection_value REQUEST_ID_REUSED = ''request_id_reused''"
| "rejection_value CONFLICT_RETRY_EXHAUSTED = ''conflict_retry_exhausted''"

primrec status_value :: "bid_outcome_status \<Rightarrow> string" where
  "status_value ACCEPTED = ''accepted''"
| "status_value REPLAYED = ''replayed''"
| "status_value REJECTED = ''rejected''"

subsection \<open>Field validators\<close>

text \<open>
  \<open>_require_aware\<close> and \<open>_require_money\<close> return the value they have accepted, so that the
  record can hold it at its proper type.
\<close>

fun require_aware :: "py_datetime \<Rightarrow> string \<Rightarrow> instant py" where
  "require_aware (Naive t) field = Inl (ValueError (field @ '' must be timezone-aware''))"
| "require_aware (Aware t) field = Inr t"

fun require_money :: "py_value \<Rightarrow> string \<Rightarrow> cents py" where
  "require_money (PyInt v) field =
     (if \<not> (0 < v \<and> v \<le> MAX_MONEY_CENTS)
      then Inl (ValueError (field @ '' must be between 1 and 9000000000000000 cents''))
      else Inr v)"
| "require_money (PyBool b) field =
     Inl (TypeError (field @ '' must be an integer number of cents''))"
| "require_money PyOther field =
     Inl (TypeError (field @ '' must be an integer number of cents''))"

definition money_ok :: "int \<Rightarrow> bool" where
  "money_ok v \<longleftrightarrow> 0 < v \<and> v \<le> MAX_MONEY_CENTS"

lemma require_money_eq_Inr [simp]:
  "require_money v field = Inr m \<longleftrightarrow> v = PyInt m \<and> money_ok m"
  by (cases v) (auto simp: money_ok_def)

lemma require_money_ok [simp]: "money_ok v \<Longrightarrow> require_money (PyInt v) field = Inr v"
  by (simp add: money_ok_def)

declare require_money.simps(1) [simp del]

lemma require_aware_eq_Inr [simp]: "require_aware d field = Inr t \<longleftrightarrow> d = Aware t"
  by (cases d) auto

subsection \<open>Auction snapshots\<close>

record auction_snapshot =
  au_id :: uuid
  au_title :: string
  au_starting_price_cents :: cents
  au_current_price_cents :: "cents option"
  au_minimum_increment_cents :: cents
  au_winning_bid_id :: "uuid option"
  au_version :: int
  au_starts_at :: instant
  au_ends_at :: instant
  au_created_at :: instant

text \<open>The type and range checks on \<open>version\<close>.\<close>

fun require_version :: "py_value \<Rightarrow> int py" where
  "require_version (PyInt v) =
     (if v < 0 then Inl (ValueError ''version cannot be negative'') else Inr v)"
| "require_version (PyBool b) = Inl (TypeError ''version must be an integer'')"
| "require_version PyOther = Inl (TypeError ''version must be an integer'')"

text \<open>
  The last checks of \<open>__post_init__\<close>: the price, the winner and the version agree.
  \<open>current\<close> is \<open>None\<close> or the argument of \<open>_require_money\<close>.
\<close>

definition require_price_state ::
    "py_value option \<Rightarrow> uuid option \<Rightarrow> int \<Rightarrow> cents \<Rightarrow> cents option py" where
  "require_price_state current winner version starting =
     (if (current \<noteq> None) \<noteq> (winner \<noteq> None)
      then Inl (ValueError ''current price and winning bid must be set together'')
      else case current of
        None \<Rightarrow>
          if version \<noteq> 0
          then Inl (ValueError ''an auction without bids must have version zero'')
          else Inr None
      | Some v \<Rightarrow>
          py_bind (require_money v ''current_price_cents'') (\<lambda>price.
          if price < starting
          then Inl (ValueError ''current price cannot be below the starting price'')
          else if version = 0
          then Inl (ValueError ''an auction with a winning bid must have a version'')
          else Inr (Some price)))"

definition make_auction_snapshot ::
    "uuid \<Rightarrow> string \<Rightarrow> py_value \<Rightarrow> py_value option \<Rightarrow> py_value \<Rightarrow> uuid option \<Rightarrow> py_value
     \<Rightarrow> py_datetime \<Rightarrow> py_datetime \<Rightarrow> py_datetime \<Rightarrow> auction_snapshot py" where
  "make_auction_snapshot i title starting current increment winner version starts ends created =
     (let stripped = py_strip title in
      if stripped = [] \<or> length stripped > MAX_TITLE_LENGTH
      then Inl (ValueError ''title must contain 1 to 200 non-whitespace characters'')
      else
        py_bind (require_money starting ''starting_price_cents'') (\<lambda>starting'.
        py_bind (require_money increment ''minimum_increment_cents'') (\<lambda>increment'.
        py_bind (require_aware starts ''starts_at'') (\<lambda>starts'.
        py_bind (require_aware ends ''ends_at'') (\<lambda>ends'.
        py_bind (require_aware created ''created_at'') (\<lambda>created'.
        if ends' \<le> starts'
        then Inl (ValueError ''ends_at must be later than starts_at'')
        else
          py_bind (require_version version) (\<lambda>version'.
          py_bind (require_price_state current winner version' starting') (\<lambda>current'.
          Inr \<lparr>au_id = i, au_title = title, au_starting_price_cents = starting',
               au_current_price_cents = current', au_minimum_increment_cents = increment',
               au_winning_bid_id = winner, au_version = version', au_starts_at = starts',
               au_ends_at = ends', au_created_at = created'\<rparr>))))))))"

text \<open>What every constructed snapshot satisfies.\<close>

definition valid_snapshot :: "auction_snapshot \<Rightarrow> bool" where
  "valid_snapshot a \<longleftrightarrow>
     py_strip (au_title a) \<noteq> [] \<and> length (py_strip (au_title a)) \<le> MAX_TITLE_LENGTH \<and>
     money_ok (au_starting_price_cents a) \<and> money_ok (au_minimum_increment_cents a) \<and>
     au_starts_at a < au_ends_at a \<and> 0 \<le> au_version a \<and>
     (au_current_price_cents a = None \<longleftrightarrow> au_winning_bid_id a = None) \<and>
     (au_current_price_cents a = None \<longleftrightarrow> au_version a = 0) \<and>
     (case au_current_price_cents a of
        None \<Rightarrow> True
      | Some p \<Rightarrow> money_ok p \<and> au_starting_price_cents a \<le> p)"

lemma require_version_eq_Inr [simp]:
  "require_version v = Inr n \<longleftrightarrow> v = PyInt n \<and> 0 \<le> n"
  by (cases v) auto

lemma require_price_state_eq_Inr:
  "require_price_state current winner version starting = Inr price \<longleftrightarrow>
     current = map_option PyInt price \<and> (price = None \<longleftrightarrow> winner = None) \<and>
     (price = None \<longleftrightarrow> version = 0) \<and>
     (case price of None \<Rightarrow> True | Some p \<Rightarrow> money_ok p \<and> starting \<le> p)"
  by (cases current; cases winner; cases price)
    (auto simp: require_price_state_def py_bind_def simp del: py_bind_eq_Inr
      split: if_splits sum.splits)

text \<open>Rebuilding a snapshot from its own fields, as \<open>dataclasses.replace\<close> does.\<close>

definition replace_price_state ::
    "auction_snapshot \<Rightarrow> cents \<Rightarrow> uuid \<Rightarrow> int \<Rightarrow> auction_snapshot py" where
  "replace_price_state a price winner version =
     make_auction_snapshot (au_id a) (au_title a) (PyInt (au_starting_price_cents a))
       (Some (PyInt price)) (PyInt (au_minimum_increment_cents a)) (Some winner)
       (PyInt version) (Aware (au_starts_at a)) (Aware (au_ends_at a))
       (Aware (au_created_at a))"

text \<open>A constructor call succeeds exactly on the arguments of a valid snapshot.\<close>

lemma make_auction_snapshot_eq_Inr:
  "make_auction_snapshot i title starting current increment winner version starts ends created
     = Inr a \<longleftrightarrow>
   valid_snapshot a \<and> au_id a = i \<and> au_title a = title \<and>
   starting = PyInt (au_starting_price_cents a) \<and>
   current = map_option PyInt (au_current_price_cents a) \<and>
   increment = PyInt (au_minimum_increment_cents a) \<and> winner = au_winning_bid_id a \<and>
   version = PyInt (au_version a) \<and> starts = Aware (au_starts_at a) \<and>
   ends = Aware (au_ends_at a) \<and> created = Aware (au_created_at a)"
proof -
  let ?ok = "\<not> (py_strip title = [] \<or> length (py_strip title) > MAX_TITLE_LENGTH)"
  show ?thesis
  proof (cases ?ok)
    case True
    then show ?thesis
      by (cases a)
        (auto simp: make_auction_snapshot_def Let_def valid_snapshot_def
          require_price_state_eq_Inr split: if_splits)
  next
    case False
    then show ?thesis
      by (auto simp: make_auction_snapshot_def Let_def valid_snapshot_def)
  qed
qed

lemma replace_price_state_valid:
  "valid_snapshot a \<Longrightarrow> money_ok price \<Longrightarrow> au_starting_price_cents a \<le> price \<Longrightarrow> 0 < version \<Longrightarrow>
   replace_price_state a price winner version =
     Inr (a\<lparr>au_current_price_cents := Some price, au_winning_bid_id := Some winner,
            au_version := version\<rparr>)"
  unfolding replace_price_state_def make_auction_snapshot_eq_Inr
  by (simp add: valid_snapshot_def)

subsection \<open>Commands\<close>

record bid_command =
  cmd_request_id :: uuid
  cmd_auction_id :: uuid
  cmd_bidder_id :: string
  cmd_amount_cents :: cents

definition make_bid_command :: "uuid \<Rightarrow> uuid \<Rightarrow> string \<Rightarrow> py_value \<Rightarrow> bid_command py" where
  "make_bid_command request auction bidder amount =
     (let stripped = py_strip bidder in
      if stripped = [] \<or> length stripped > MAX_BIDDER_ID_LENGTH
      then Inl (ValueError ''bidder_id must contain 1 to 128 non-whitespace characters'')
      else
        py_bind (require_money amount ''amount_cents'') (\<lambda>amount'.
        Inr \<lparr>cmd_request_id = request, cmd_auction_id = auction, cmd_bidder_id = bidder,
             cmd_amount_cents = amount'\<rparr>))"

definition valid_command :: "bid_command \<Rightarrow> bool" where
  "valid_command c \<longleftrightarrow>
     py_strip (cmd_bidder_id c) \<noteq> [] \<and>
     length (py_strip (cmd_bidder_id c)) \<le> MAX_BIDDER_ID_LENGTH \<and>
     money_ok (cmd_amount_cents c)"

lemma make_bid_command_eq_Inr:
  "make_bid_command request auction bidder amount = Inr c \<longleftrightarrow>
   valid_command c \<and> cmd_request_id c = request \<and> cmd_auction_id c = auction \<and>
   cmd_bidder_id c = bidder \<and> amount = PyInt (cmd_amount_cents c)"
  by (cases c) (auto simp: make_bid_command_def Let_def valid_command_def split: if_splits)

subsection \<open>Evaluations\<close>

record bid_evaluation =
  ev_accepted :: bool
  ev_state :: auction_state
  ev_minimum_acceptable_cents :: cents
  ev_rejection_reason :: "bid_rejection_reason option"

definition make_bid_evaluation ::
    "bool \<Rightarrow> auction_state \<Rightarrow> cents \<Rightarrow> bid_rejection_reason option \<Rightarrow> bid_evaluation py" where
  "make_bid_evaluation accepted state minimum reason =
     (if accepted = (reason \<noteq> None)
      then Inl (ValueError
        ''accepted evaluations have no rejection reason; rejected ones require one'')
      else Inr \<lparr>ev_accepted = accepted, ev_state = state,
                ev_minimum_acceptable_cents = minimum, ev_rejection_reason = reason\<rparr>)"

subsection \<open>Accepted bids\<close>

record accepted_bid =
  ab_id :: uuid
  ab_request_id :: uuid
  ab_auction_id :: uuid
  ab_bidder_id :: string
  ab_amount_cents :: cents
  ab_auction_version :: int
  ab_accepted_at :: instant

definition make_accepted_bid ::
    "uuid \<Rightarrow> uuid \<Rightarrow> uuid \<Rightarrow> string \<Rightarrow> py_value \<Rightarrow> int \<Rightarrow> py_datetime \<Rightarrow> accepted_bid py" where
  "make_accepted_bid i request auction bidder amount version accepted =
     py_bind (require_money amount ''amount_cents'') (\<lambda>amount'.
     if version \<le> 0 then Inl (ValueError ''auction_version must be positive'')
     else
       py_bind (require_aware accepted ''accepted_at'') (\<lambda>accepted'.
       Inr \<lparr>ab_id = i, ab_request_id = request, ab_auction_id = auction,
            ab_bidder_id = bidder, ab_amount_cents = amount', ab_auction_version = version,
            ab_accepted_at = accepted'\<rparr>))"

lemma make_accepted_bid_eq_Inr:
  "make_accepted_bid i request auction bidder amount version accepted = Inr b \<longleftrightarrow>
   money_ok (ab_amount_cents b) \<and> 0 < ab_auction_version b \<and>
   b = \<lparr>ab_id = i, ab_request_id = request, ab_auction_id = auction, ab_bidder_id = bidder,
        ab_amount_cents = ab_amount_cents b, ab_auction_version = version,
        ab_accepted_at = ab_accepted_at b\<rparr> \<and>
   amount = PyInt (ab_amount_cents b) \<and> accepted = Aware (ab_accepted_at b)"
  by (cases b) (auto simp: make_accepted_bid_def split: if_splits)

subsection \<open>Outcomes\<close>

record bid_outcome =
  out_status :: bid_outcome_status
  out_bid :: "accepted_bid option"
  out_rejection_reason :: "bid_rejection_reason option"
  out_minimum_acceptable_cents :: "cents option"
  out_attempts :: int
  out_conflicts :: int

definition make_bid_outcome ::
    "bid_outcome_status \<Rightarrow> accepted_bid option \<Rightarrow> bid_rejection_reason option \<Rightarrow> cents option
     \<Rightarrow> int \<Rightarrow> int \<Rightarrow> bid_outcome py" where
  "make_bid_outcome status bid reason minimum attempts conflicts =
     (if attempts \<le> 0 then Inl (ValueError ''attempts must be positive'')
      else if conflicts < 0 then Inl (ValueError ''conflicts cannot be negative'')
      else if status = ACCEPTED \<or> status = REPLAYED then
        if bid = None \<or> reason \<noteq> None
        then Inl (ValueError ''accepted/replayed outcomes require a bid only'')
        else Inr \<lparr>out_status = status, out_bid = bid, out_rejection_reason = reason,
                  out_minimum_acceptable_cents = minimum, out_attempts = attempts,
                  out_conflicts = conflicts\<rparr>
      else if bid \<noteq> None \<or> reason = None
        then Inl (ValueError ''rejected outcomes require a reason and no bid'')
        else Inr \<lparr>out_status = status, out_bid = bid, out_rejection_reason = reason,
                  out_minimum_acceptable_cents = minimum, out_attempts = attempts,
                  out_conflicts = conflicts\<rparr>)"

text \<open>The three class methods; the keyword defaults are \<open>attempts = 1\<close>, \<open>conflicts = 0\<close>.\<close>

definition outcome_accepted :: "accepted_bid \<Rightarrow> int \<Rightarrow> int \<Rightarrow> bid_outcome py" where
  "outcome_accepted bid attempts conflicts =
     make_bid_outcome ACCEPTED (Some bid) None None attempts conflicts"

definition outcome_replayed :: "accepted_bid \<Rightarrow> int \<Rightarrow> int \<Rightarrow> bid_outcome py" where
  "outcome_replayed bid attempts conflicts =
     make_bid_outcome REPLAYED (Some bid) None None attempts conflicts"

definition outcome_rejected ::
    "bid_rejection_reason \<Rightarrow> cents option \<Rightarrow> int \<Rightarrow> int \<Rightarrow> bid_outcome py" where
  "outcome_rejected reason minimum attempts conflicts =
     make_bid_outcome REJECTED None (Some reason) minimum attempts conflicts"

definition valid_outcome :: "bid_outcome \<Rightarrow> bool" where
  "valid_outcome r \<longleftrightarrow>
     0 < out_attempts r \<and> 0 \<le> out_conflicts r \<and>
     (if out_status r = REJECTED
      then out_bid r = None \<and> out_rejection_reason r \<noteq> None
      else out_bid r \<noteq> None \<and> out_rejection_reason r = None)"

lemma make_bid_outcome_eq_Inr:
  "make_bid_outcome status bid reason minimum attempts conflicts = Inr r \<longleftrightarrow>
   valid_outcome r \<and>
   r = \<lparr>out_status = status, out_bid = bid, out_rejection_reason = reason,
        out_minimum_acceptable_cents = minimum, out_attempts = attempts,
        out_conflicts = conflicts\<rparr>"
  by (cases status) (auto simp: make_bid_outcome_def valid_outcome_def)

lemmas outcome_defs = outcome_accepted_def outcome_replayed_def outcome_rejected_def

lemma outcome_classmethods [simp]:
  assumes "0 < attempts" "0 \<le> conflicts"
  shows "outcome_accepted bid attempts conflicts =
      Inr \<lparr>out_status = ACCEPTED, out_bid = Some bid, out_rejection_reason = None,
           out_minimum_acceptable_cents = None, out_attempts = attempts, out_conflicts = conflicts\<rparr>"
    and "outcome_replayed bid attempts conflicts =
      Inr \<lparr>out_status = REPLAYED, out_bid = Some bid, out_rejection_reason = None,
           out_minimum_acceptable_cents = None, out_attempts = attempts, out_conflicts = conflicts\<rparr>"
    and "outcome_rejected reason minimum attempts conflicts =
      Inr \<lparr>out_status = REJECTED, out_bid = None, out_rejection_reason = Some reason,
           out_minimum_acceptable_cents = minimum, out_attempts = attempts, out_conflicts = conflicts\<rparr>"
  using assms by (auto simp: outcome_defs make_bid_outcome_def)

end
