(* ===== verification/Domain_Rules.thy ===== *)
theory Domain_Rules
  imports Domain_Models
begin

section \<open>Auction rules\<close>

text \<open>
  The pure functions of \<^verbatim>\<open>src/src/bidding/domain/rules.py\<close>: the state derived from the
  clock, the least acceptable bid, the evaluation of a bid, and the transition an accepted
  bid makes. The lemmas give each function's value on every branch for a valid snapshot.
\<close>

definition derive_auction_state :: "auction_snapshot \<Rightarrow> py_datetime \<Rightarrow> auction_state py" where
  "derive_auction_state a now =
     (case now of
        Naive t \<Rightarrow> Inl (ValueError ''now must be timezone-aware'')
      | Aware t \<Rightarrow>
          if t < au_starts_at a then Inr SCHEDULED
          else if t \<ge> au_ends_at a then Inr CLOSED
          else Inr OPEN)"

definition minimum_acceptable_bid :: "auction_snapshot \<Rightarrow> cents py" where
  "minimum_acceptable_bid a =
     (case au_current_price_cents a of
        None \<Rightarrow> Inr (au_starting_price_cents a)
      | Some price \<Rightarrow>
          (let minimum = price + au_minimum_increment_cents a in
           if minimum > MAX_MONEY_CENTS
           then Inl (OverflowError
             ''minimum acceptable bid exceeds the supported money range'')
           else Inr minimum))"

definition evaluate_bid ::
    "auction_snapshot \<Rightarrow> py_value \<Rightarrow> py_datetime \<Rightarrow> bid_evaluation py" where
  "evaluate_bid a amount now =
     py_bind (require_money amount ''amount_cents'') (\<lambda>amount_cents.
     py_bind (derive_auction_state a now) (\<lambda>state.
     py_bind (minimum_acceptable_bid a) (\<lambda>minimum.
     if state = SCHEDULED then
       make_bid_evaluation False state minimum (Some AUCTION_NOT_STARTED)
     else if state = CLOSED then
       make_bid_evaluation False state minimum (Some AUCTION_CLOSED)
     else if amount_cents < minimum then
       make_bid_evaluation False state minimum (Some BID_TOO_LOW)
     else make_bid_evaluation True state minimum None)))"

definition apply_accepted_bid ::
    "auction_snapshot \<Rightarrow> uuid \<Rightarrow> py_value \<Rightarrow> py_datetime \<Rightarrow> auction_snapshot py" where
  "apply_accepted_bid a bid_id amount now =
     py_bind (evaluate_bid a amount now) (\<lambda>evaluation.
     if \<not> ev_accepted evaluation
     then Inl (ValueError (''bid rejected: '' @
            (case ev_rejection_reason evaluation of
               None \<Rightarrow> ''None'' | Some r \<Rightarrow> rejection_value r)))
     else
       py_bind (require_money amount ''amount_cents'') (\<lambda>amount_cents.
       replace_price_state a amount_cents bid_id (au_version a + 1)))"

subsection \<open>What the rules compute\<close>

text \<open>The least acceptable amount as a number, before the range check.\<close>

definition required_amount :: "auction_snapshot \<Rightarrow> int" where
  "required_amount a =
     (case au_current_price_cents a of
        None \<Rightarrow> au_starting_price_cents a
      | Some price \<Rightarrow> price + au_minimum_increment_cents a)"

definition in_window :: "auction_snapshot \<Rightarrow> instant \<Rightarrow> bool" where
  "in_window a t \<longleftrightarrow> au_starts_at a \<le> t \<and> t < au_ends_at a"

lemma required_amount_positive: "valid_snapshot a \<Longrightarrow> 0 < required_amount a"
  by (auto simp: valid_snapshot_def required_amount_def money_ok_def split: option.splits)

lemma minimum_acceptable_bid_eq:
  "valid_snapshot a \<Longrightarrow>
   minimum_acceptable_bid a =
     (if required_amount a \<le> MAX_MONEY_CENTS then Inr (required_amount a)
      else Inl (OverflowError ''minimum acceptable bid exceeds the supported money range''))"
  by (auto simp: minimum_acceptable_bid_def required_amount_def valid_snapshot_def money_ok_def
      Let_def split: option.splits)

lemma derive_auction_state_aware [simp]:
  "derive_auction_state a (Aware t) =
     Inr (if t < au_starts_at a then SCHEDULED
          else if t \<ge> au_ends_at a then CLOSED else OPEN)"
  by (simp add: derive_auction_state_def)

text \<open>The reason a well-formed bid is rejected for, if any: the code's order of checks.\<close>

definition rejection_of :: "auction_snapshot \<Rightarrow> cents \<Rightarrow> instant \<Rightarrow> bid_rejection_reason option" where
  "rejection_of a amount t =
     (if t < au_starts_at a then Some AUCTION_NOT_STARTED
      else if au_ends_at a \<le> t then Some AUCTION_CLOSED
      else if amount < required_amount a then Some BID_TOO_LOW
      else None)"

lemma rejection_of_None:
  "rejection_of a amount t = None \<longleftrightarrow> in_window a t \<and> required_amount a \<le> amount"
  by (auto simp: rejection_of_def in_window_def)

lemma evaluate_bid_eq:
  assumes "valid_snapshot a" and "money_ok amount"
  shows "evaluate_bid a (PyInt amount) (Aware t) =
     (if required_amount a \<le> MAX_MONEY_CENTS
      then Inr \<lparr>ev_accepted = (rejection_of a amount t = None),
                ev_state = (if t < au_starts_at a then SCHEDULED
                            else if t \<ge> au_ends_at a then CLOSED else OPEN),
                ev_minimum_acceptable_cents = required_amount a,
                ev_rejection_reason = rejection_of a amount t\<rparr>
      else Inl (OverflowError ''minimum acceptable bid exceeds the supported money range''))"
  using assms
  by (simp add: evaluate_bid_def minimum_acceptable_bid_eq rejection_of_def
      make_bid_evaluation_def)

text \<open>An accepted evaluation, read backwards.\<close>

lemma evaluate_bid_accepted:
  assumes "valid_snapshot a" and "evaluate_bid a (PyInt amount) (Aware t) = Inr e"
    and "ev_accepted e"
  shows "in_window a t \<and> required_amount a \<le> amount \<and> money_ok amount"
proof -
  from assms(2) have m: "money_ok amount"
    by (auto simp: evaluate_bid_def)
  with assms show ?thesis
    by (auto simp: evaluate_bid_eq rejection_of_None split: if_splits)
qed

lemma evaluate_bid_minimum:
  assumes "valid_snapshot a" and "evaluate_bid a (PyInt amount) (Aware t) = Inr e"
  shows "ev_minimum_acceptable_cents e = required_amount a"
    and "ev_accepted e \<longleftrightarrow> ev_rejection_reason e = None"
proof -
  from assms(2) have m: "money_ok amount" by (auto simp: evaluate_bid_def)
  with assms show "ev_minimum_acceptable_cents e = required_amount a"
    and "ev_accepted e \<longleftrightarrow> ev_rejection_reason e = None"
    by (auto simp: evaluate_bid_eq split: if_splits)
qed

end
