(* ===== verification/Schema.thy ===== *)
theory Schema
  imports Domain_Rules
begin

section \<open>The relational schema and the row mappers\<close>

text \<open>
  The two tables of \<^verbatim>\<open>src/src/bidding/db/sql/001_initial_schema.sql\<close> with the constraints
  the file declares, and the row mappers of \<^verbatim>\<open>src/src/bidding/db/mappers.py\<close>. \<open>auctions\<close> is
  a map, because \<open>id\<close> is its primary key; \<open>bids\<close> is the list of its rows in the order
  they were committed, so that duplicates would be visible. A nullable column is an option.
\<close>

record auction_row =
  ra_id :: uuid
  ra_title :: string
  ra_starting_price_cents :: int
  ra_current_price_cents :: "int option"
  ra_minimum_increment_cents :: int
  ra_winning_bid_id :: "uuid option"
  ra_version :: int
  ra_starts_at :: instant
  ra_ends_at :: instant
  ra_created_at :: instant

record bid_row =
  rb_id :: uuid
  rb_request_id :: uuid
  rb_auction_id :: uuid
  rb_bidder_id :: string
  rb_amount_cents :: int
  rb_auction_version :: int
  rb_accepted_at :: instant

record db =
  auctions :: "uuid \<rightharpoonup> auction_row"
  bids :: "bid_row list"

definition empty_db :: db where
  "empty_db = \<lparr>auctions = Map.empty, bids = []\<rparr>"

subsection \<open>CHECK constraints\<close>

text \<open>The \<open>bigint\<close> range, which PostgreSQL enforces before any CHECK.\<close>

definition bigint_ok :: "int \<Rightarrow> bool" where
  "bigint_ok v \<longleftrightarrow> - (2 ^ 63) \<le> v \<and> v < 2 ^ 63"

definition auctions_title_length :: "auction_row \<Rightarrow> bool" where
  "auctions_title_length r \<longleftrightarrow>
     1 \<le> length (sql_btrim (ra_title r)) \<and> length (sql_btrim (ra_title r)) \<le> 200"

definition auctions_starting_price_positive :: "auction_row \<Rightarrow> bool" where
  "auctions_starting_price_positive r \<longleftrightarrow>
     1 \<le> ra_starting_price_cents r \<and> ra_starting_price_cents r \<le> 9000000000000000"

definition auctions_current_price_range :: "auction_row \<Rightarrow> bool" where
  "auctions_current_price_range r \<longleftrightarrow>
     (case ra_current_price_cents r of
        None \<Rightarrow> True
      | Some p \<Rightarrow> ra_starting_price_cents r \<le> p \<and> p \<le> 9000000000000000)"

definition auctions_increment_positive :: "auction_row \<Rightarrow> bool" where
  "auctions_increment_positive r \<longleftrightarrow>
     1 \<le> ra_minimum_increment_cents r \<and> ra_minimum_increment_cents r \<le> 9000000000000000"

definition auctions_time_order :: "auction_row \<Rightarrow> bool" where
  "auctions_time_order r \<longleftrightarrow> ra_ends_at r > ra_starts_at r"

definition auctions_version_nonnegative :: "auction_row \<Rightarrow> bool" where
  "auctions_version_nonnegative r \<longleftrightarrow> ra_version r \<ge> 0"

definition auctions_bid_state_consistent :: "auction_row \<Rightarrow> bool" where
  "auctions_bid_state_consistent r \<longleftrightarrow>
     (ra_current_price_cents r = None \<and> ra_winning_bid_id r = None \<and> ra_version r = 0) \<or>
     (ra_current_price_cents r \<noteq> None \<and> ra_winning_bid_id r \<noteq> None \<and> ra_version r > 0)"

definition auctions_check :: "auction_row \<Rightarrow> bool" where
  "auctions_check r \<longleftrightarrow>
     auctions_title_length r \<and> auctions_starting_price_positive r \<and>
     auctions_current_price_range r \<and> auctions_increment_positive r \<and>
     auctions_time_order r \<and> auctions_version_nonnegative r \<and>
     auctions_bid_state_consistent r"

lemmas auctions_check_defs = auctions_check_def auctions_title_length_def
  auctions_starting_price_positive_def auctions_current_price_range_def
  auctions_increment_positive_def auctions_time_order_def auctions_version_nonnegative_def
  auctions_bid_state_consistent_def

definition bids_bidder_id_length :: "bid_row \<Rightarrow> bool" where
  "bids_bidder_id_length b \<longleftrightarrow>
     1 \<le> length (sql_btrim (rb_bidder_id b)) \<and> length (sql_btrim (rb_bidder_id b)) \<le> 128"

definition bids_amount_range :: "bid_row \<Rightarrow> bool" where
  "bids_amount_range b \<longleftrightarrow> 1 \<le> rb_amount_cents b \<and> rb_amount_cents b \<le> 9000000000000000"

definition bids_version_positive :: "bid_row \<Rightarrow> bool" where
  "bids_version_positive b \<longleftrightarrow> rb_auction_version b > 0"

definition bids_check :: "bid_row \<Rightarrow> bool" where
  "bids_check b \<longleftrightarrow> bids_bidder_id_length b \<and> bids_amount_range b \<and> bids_version_positive b"

lemmas bids_check_defs = bids_check_def bids_bidder_id_length_def bids_amount_range_def
  bids_version_positive_def

subsection \<open>Keys\<close>

text \<open>
  The UNIQUE constraints of \<open>bids\<close> (its primary key, \<open>bids_request_id_unique\<close>, and
  \<open>bids_auction_and_id_unique\<close>, which the primary key implies) as a test of a new row
  against the rows that are there, and the two foreign keys.
\<close>

definition bids_unique :: "bid_row list \<Rightarrow> bid_row \<Rightarrow> bool" where
  "bids_unique bs b \<longleftrightarrow>
     list_all (\<lambda>x. rb_id x \<noteq> rb_id b \<and> rb_request_id x \<noteq> rb_request_id b) bs"

definition bids_auction_fk :: "db \<Rightarrow> bid_row \<Rightarrow> bool" where
  "bids_auction_fk d b \<longleftrightarrow> auctions d (rb_auction_id b) \<noteq> None"

definition auctions_winning_bid_fk :: "bid_row list \<Rightarrow> auction_row \<Rightarrow> bool" where
  "auctions_winning_bid_fk bs r \<longleftrightarrow>
     (case ra_winning_bid_id r of
        None \<Rightarrow> True
      | Some w \<Rightarrow> list_ex (\<lambda>b. rb_auction_id b = ra_id r \<and> rb_id b = w) bs)"

text \<open>
  The constraints over a whole database state. \<open>titles_clean\<close> is not one of them: it is the
  application's own, since \<open>AuctionRepository.create\<close> strips every title before storing it.
\<close>

definition db_wf :: "db \<Rightarrow> bool" where
  "db_wf d \<longleftrightarrow>
     (\<forall>a r. auctions d a = Some r \<longrightarrow>
        ra_id r = a \<and> auctions_check r \<and> auctions_winning_bid_fk (bids d) r) \<and>
     (\<forall>b \<in> set (bids d). bids_check b \<and> bids_auction_fk d b) \<and>
     distinct (map rb_id (bids d)) \<and> distinct (map rb_request_id (bids d))"

definition titles_clean :: "db \<Rightarrow> bool" where
  "titles_clean d \<longleftrightarrow> (\<forall>a r. auctions d a = Some r \<longrightarrow> py_strip (ra_title r) = ra_title r)"

lemma empty_db_wf: "db_wf empty_db" and empty_db_titles: "titles_clean empty_db"
  by (simp_all add: db_wf_def titles_clean_def empty_db_def)

lemma db_wfD:
  assumes "db_wf d" "auctions d a = Some r"
  shows "ra_id r = a" "auctions_check r"
    "auctions_winning_bid_fk (bids d) r"
  using assms by (auto simp: db_wf_def)

lemma db_wf_bidD:
  assumes "db_wf d" "b \<in> set (bids d)"
  shows "bids_check b" "auctions d (rb_auction_id b) \<noteq> None"
  using assms by (auto simp: db_wf_def bids_auction_fk_def)

subsection \<open>Row mappers\<close>

definition auction_from_row :: "auction_row \<Rightarrow> auction_snapshot py" where
  "auction_from_row r =
     make_auction_snapshot (ra_id r) (ra_title r) (PyInt (ra_starting_price_cents r))
       (map_option PyInt (ra_current_price_cents r)) (PyInt (ra_minimum_increment_cents r))
       (ra_winning_bid_id r) (PyInt (ra_version r)) (Aware (ra_starts_at r))
       (Aware (ra_ends_at r)) (Aware (ra_created_at r))"

definition bid_from_row :: "bid_row \<Rightarrow> accepted_bid py" where
  "bid_from_row b =
     make_accepted_bid (rb_id b) (rb_request_id b) (rb_auction_id b) (rb_bidder_id b)
       (PyInt (rb_amount_cents b)) (rb_auction_version b) (Aware (rb_accepted_at b))"

text \<open>The values a mapper returns when it does not raise.\<close>

definition snapshot_of :: "auction_row \<Rightarrow> auction_snapshot" where
  "snapshot_of r =
     \<lparr>au_id = ra_id r, au_title = ra_title r,
      au_starting_price_cents = ra_starting_price_cents r,
      au_current_price_cents = ra_current_price_cents r,
      au_minimum_increment_cents = ra_minimum_increment_cents r,
      au_winning_bid_id = ra_winning_bid_id r, au_version = ra_version r,
      au_starts_at = ra_starts_at r, au_ends_at = ra_ends_at r,
      au_created_at = ra_created_at r\<rparr>"

definition bid_of :: "bid_row \<Rightarrow> accepted_bid" where
  "bid_of b =
     \<lparr>ab_id = rb_id b, ab_request_id = rb_request_id b, ab_auction_id = rb_auction_id b,
      ab_bidder_id = rb_bidder_id b, ab_amount_cents = rb_amount_cents b,
      ab_auction_version = rb_auction_version b, ab_accepted_at = rb_accepted_at b\<rparr>"

lemma snapshot_of_simps [simp]:
  "au_id (snapshot_of r) = ra_id r"
  "au_title (snapshot_of r) = ra_title r"
  "au_starting_price_cents (snapshot_of r) = ra_starting_price_cents r"
  "au_current_price_cents (snapshot_of r) = ra_current_price_cents r"
  "au_minimum_increment_cents (snapshot_of r) = ra_minimum_increment_cents r"
  "au_winning_bid_id (snapshot_of r) = ra_winning_bid_id r"
  "au_version (snapshot_of r) = ra_version r"
  "au_starts_at (snapshot_of r) = ra_starts_at r"
  "au_ends_at (snapshot_of r) = ra_ends_at r"
  "au_created_at (snapshot_of r) = ra_created_at r"
  by (simp_all add: snapshot_of_def)

lemma bid_of_simps [simp]:
  "ab_id (bid_of b) = rb_id b"
  "ab_request_id (bid_of b) = rb_request_id b"
  "ab_auction_id (bid_of b) = rb_auction_id b"
  "ab_bidder_id (bid_of b) = rb_bidder_id b"
  "ab_amount_cents (bid_of b) = rb_amount_cents b"
  "ab_auction_version (bid_of b) = rb_auction_version b"
  "ab_accepted_at (bid_of b) = rb_accepted_at b"
  by (simp_all add: bid_of_def)

lemma bid_of_inject [simp]: "bid_of b = bid_of c \<longleftrightarrow> b = c"
  by (cases b; cases c) (simp add: bid_of_def)

text \<open>
  The CHECK constraints imply what the dataclasses validate, for a title that was stripped
  before it was stored: a row the schema accepts never makes a mapper raise.
\<close>

lemma snapshot_of_valid:
  "auctions_check r \<Longrightarrow> py_strip (ra_title r) = ra_title r \<Longrightarrow> valid_snapshot (snapshot_of r)"
  using btrim_of_strip [of "ra_title r"]
  by (auto simp: auctions_check_defs valid_snapshot_def money_ok_def limit_defs
      split: option.splits)

lemma auction_from_row_eq:
  "valid_snapshot (snapshot_of r) \<Longrightarrow> auction_from_row r = Inr (snapshot_of r)"
  unfolding auction_from_row_def make_auction_snapshot_eq_Inr by simp

lemma auction_from_row_Inr: "auction_from_row r = Inr a \<Longrightarrow> a = snapshot_of r \<and> valid_snapshot a"
  unfolding auction_from_row_def make_auction_snapshot_eq_Inr
  by (cases a; cases "ra_current_price_cents r"; cases "au_current_price_cents a")
    (auto simp: snapshot_of_def)

lemma bid_from_row_eq: "bids_check b \<Longrightarrow> bid_from_row b = Inr (bid_of b)"
  unfolding bid_from_row_def make_accepted_bid_eq_Inr
  by (simp add: bids_check_defs money_ok_def limit_defs bid_of_def)

subsection \<open>Sums of columns stay within \<open>bigint\<close>\<close>

lemma required_amount_bigint:
  "auctions_check r \<Longrightarrow> bigint_ok (required_amount (snapshot_of r))"
  by (auto simp: auctions_check_defs required_amount_def bigint_ok_def split: option.splits)

end
