(* ===== verification/Db_Programs.thy ===== *)
theory Db_Programs
  imports Schema
begin

section \<open>Python methods as trees of database statements\<close>

text \<open>
  A method that talks to PostgreSQL is a tree: it returns, it raises, or it executes a
  statement and goes on with what the database replies. The tree is what the Python code
  is, statement for statement; what a statement does is defined once, in \<open>Read_Committed\<close>,
  and a method can be run alone or interleaved with others without being written twice.

  \<open>stmt\<close> has one constructor per SQL statement of \<^verbatim>\<open>db/strategies.py\<close>,
  \<^verbatim>\<open>db/repositories.py\<close> and the health probe of \<^verbatim>\<open>api/routes.py\<close>, with the statement's parameters; \<open>Begin\<close>, \<open>Commit\<close> and \<open>Rollback\<close>
  are what entering and leaving the context managers \<open>pool.connection()\<close> and
  \<open>connection.transaction()\<close> send; \<open>Uuid4\<close> and \<open>Hook\<close> are the two effects of the methods
  that do not go to the database: \<open>uuid4()\<close> and the test hook \<open>after_read_hook\<close>.
\<close>

datatype stmt =
    Begin
  | Commit
  | Rollback
  | Uuid4
  | Hook
  | Select_One
  | Clock_Timestamp
  | Select_Bid_By_Request uuid
  | Select_Auction uuid bool
  | Select_Bids_Of_Auction uuid
  | Insert_Auction uuid string int int instant instant
  | Insert_Bid uuid uuid uuid string int int
  | Update_Overwrite uuid int uuid int
  | Update_Bump uuid int uuid
  | Update_Guarded uuid int uuid int

datatype reply =
    R_Unit
  | R_Uuid uuid
  | R_Time instant
  | R_Bid "bid_row option"
  | R_Bids "bid_row list"
  | R_Auction "auction_row option"
  | R_Version "int option"
  | R_Error sql_error

datatype 'a prog =
    Ret 'a
  | Raise py_exn
  | Exec stmt "reply \<Rightarrow> 'a prog"

subsection \<open>Sequencing, exceptions and transactions\<close>

primrec prog_bind :: "'a prog \<Rightarrow> ('a \<Rightarrow> 'b prog) \<Rightarrow> 'b prog" where
  "prog_bind (Ret x) f = f x"
| "prog_bind (Raise e) f = Raise e"
| "prog_bind (Exec s k) f = Exec s (\<lambda>r. prog_bind (k r) f)"

text \<open>\<open>try: p except e: h e\<close>; an exception of the handler is not caught again.\<close>

primrec prog_try :: "'a prog \<Rightarrow> (py_exn \<Rightarrow> 'a prog) \<Rightarrow> 'a prog" where
  "prog_try (Ret x) h = Ret x"
| "prog_try (Raise e) h = h e"
| "prog_try (Exec s k) h = Exec s (\<lambda>r. prog_try (k r) h)"

definition of_py :: "'a py \<Rightarrow> 'a prog" where
  "of_py m = (case m of Inl e \<Rightarrow> Raise e | Inr x \<Rightarrow> Ret x)"

text \<open>
  Leaving a transaction block: a return commits (and a failed commit raises), an exception
  rolls back and goes on. \<open>return\<close> inside the block is \<open>Ret\<close> of the block.
\<close>

definition after_commit :: "'a \<Rightarrow> reply \<Rightarrow> 'a prog" where
  "after_commit x r = (case r of R_Error e \<Rightarrow> Raise (SqlError e) | _ \<Rightarrow> Ret x)"

primrec close_transaction :: "'a prog \<Rightarrow> 'a prog" where
  "close_transaction (Ret x) = Exec Commit (after_commit x)"
| "close_transaction (Raise e) = Exec Rollback (\<lambda>_. Raise e)"
| "close_transaction (Exec s k) = Exec s (\<lambda>r. close_transaction (k r))"

definition after_begin :: "'a prog \<Rightarrow> reply \<Rightarrow> 'a prog" where
  "after_begin p r = (case r of R_Error e \<Rightarrow> Raise (SqlError e) | _ \<Rightarrow> close_transaction p)"

definition in_transaction :: "'a prog \<Rightarrow> 'a prog" where
  "in_transaction p = Exec Begin (after_begin p)"

text \<open>
  \<open>connection.execute(...).fetchone()\<close>: an SQL error becomes the exception, and a reply of
  the wrong shape (which the database never gives) an assertion failure.
\<close>

definition after_query :: "(reply \<Rightarrow> 'a option) \<Rightarrow> reply \<Rightarrow> 'a prog" where
  "after_query f r =
     (case r of
        R_Error e \<Rightarrow> Raise (SqlError e)
      | _ \<Rightarrow> (case f r of None \<Rightarrow> Raise AssertionError | Some x \<Rightarrow> Ret x))"

definition query :: "stmt \<Rightarrow> (reply \<Rightarrow> 'a option) \<Rightarrow> 'a prog" where
  "query s f = Exec s (after_query f)"

primrec reply_unit :: "reply \<Rightarrow> unit option" where
  "reply_unit R_Unit = Some ()"
| "reply_unit (R_Uuid u) = None"
| "reply_unit (R_Time t) = None"
| "reply_unit (R_Bid b) = None"
| "reply_unit (R_Bids bs) = None"
| "reply_unit (R_Auction r) = None"
| "reply_unit (R_Version v) = Some ()"
| "reply_unit (R_Error e) = None"

definition reply_uuid :: "reply \<Rightarrow> uuid option" where
  "reply_uuid r = (case r of R_Uuid u \<Rightarrow> Some u | _ \<Rightarrow> None)"

definition reply_time :: "reply \<Rightarrow> instant option" where
  "reply_time r = (case r of R_Time t \<Rightarrow> Some t | _ \<Rightarrow> None)"

definition reply_bid :: "reply \<Rightarrow> bid_row option option" where
  "reply_bid r = (case r of R_Bid b \<Rightarrow> Some b | _ \<Rightarrow> None)"

definition reply_bids :: "reply \<Rightarrow> bid_row list option" where
  "reply_bids r = (case r of R_Bids bs \<Rightarrow> Some bs | _ \<Rightarrow> None)"

definition reply_auction :: "reply \<Rightarrow> auction_row option option" where
  "reply_auction r = (case r of R_Auction a \<Rightarrow> Some a | _ \<Rightarrow> None)"

definition reply_version :: "reply \<Rightarrow> int option option" where
  "reply_version r = (case r of R_Version v \<Rightarrow> Some v | _ \<Rightarrow> None)"

lemmas reply_defs = reply_uuid_def reply_time_def reply_bid_def reply_bids_def
  reply_auction_def reply_version_def

lemma of_py_simps [simp]:
  "of_py (Inl e) = Raise e"
  "of_py (Inr x) = Ret x"
  by (simp_all add: of_py_def)

lemma prog_bind_assoc: "prog_bind (prog_bind p f) g = prog_bind p (\<lambda>x. prog_bind (f x) g)"
  by (induction p) auto

lemma prog_bind_Ret: "prog_bind p Ret = p"
  by (induction p) auto

lemma after_query_simps [simp]:
  "after_query f (R_Error e) = Raise (SqlError e)"
  "r = R_Unit \<or> r = R_Uuid u \<or> r = R_Time t \<or> r = R_Bid b \<or> r = R_Bids bs \<or> r = R_Auction a
     \<or> r = R_Version v \<Longrightarrow>
   after_query f r = (case f r of None \<Rightarrow> Raise AssertionError | Some x \<Rightarrow> Ret x)"
  by (auto simp: after_query_def)

lemma after_commit_simps [simp]:
  "after_commit x (R_Error e) = Raise (SqlError e)"
  "after_commit x R_Unit = Ret x"
  by (simp_all add: after_commit_def)

lemma after_begin_simps [simp]:
  "after_begin p (R_Error e) = Raise (SqlError e)"
  "after_begin p R_Unit = close_transaction p"
  by (simp_all add: after_begin_def)

text \<open>The answer of a call that is over.\<close>

primrec answer :: "'a prog \<Rightarrow> 'a py option" where
  "answer (Ret x) = Some (Inr x)"
| "answer (Raise e) = Some (Inl e)"
| "answer (Exec s k) = None"

lemma answer_Some: "answer p = Some (Inr x) \<longleftrightarrow> p = Ret x" "answer p = Some (Inl e) \<longleftrightarrow> p = Raise e"
  by (cases p; simp)+

end
