(* ===== verification/Read_Committed.thy ===== *)
theory Read_Committed
  imports Db_Programs
begin

section \<open>Statements under READ COMMITTED\<close>

text \<open>
  The meaning of the SQL statements the methods execute, as the SQL text says it, under the
  isolation level \<^verbatim>\<open>db/pool.py\<close> configures: a statement sees the rows committed when it
  runs and the transaction's own writes.

  A transaction keeps the rows it has inserted, the auction rows it has rewritten, and the
  row versions it has locked. After a failed statement it accepts nothing but its end.
\<close>

record txn =
  t_bids :: "bid_row list"
  t_new :: "auction_row list"
  t_aucs :: "auction_row list"
  t_locks :: "auction_row list"
  t_failed :: bool

definition empty_txn :: txn where
  "empty_txn = \<lparr>t_bids = [], t_new = [], t_aucs = [], t_locks = [], t_failed = False\<rparr>"

text \<open>
  The state of one call: its open transaction, the latest reading it has of the database's
  clock, and three history variables: the transactions it has committed, and the committed
  bids and auction rows it has been shown.
\<close>

record lstate =
  l_txn :: "txn option"
  l_clock :: instant
  l_log :: "txn list"
  l_seen :: "bid_row list"
  l_rows :: "auction_row list"

definition idle :: "instant \<Rightarrow> lstate" where
  "idle t = \<lparr>l_txn = None, l_clock = t, l_log = [], l_seen = [], l_rows = []\<rparr>"

subsection \<open>Reads and writes of one transaction\<close>

definition find_auction :: "db \<Rightarrow> txn \<Rightarrow> uuid \<Rightarrow> auction_row option" where
  "find_auction d t a =
     (case find (\<lambda>r. ra_id r = a) (t_aucs t @ t_new t) of
        Some r \<Rightarrow> Some r
      | None \<Rightarrow> auctions d a)"

definition visible_bids :: "db \<Rightarrow> txn \<Rightarrow> bid_row list" where
  "visible_bids d t = bids d @ t_bids t"

definition lock_row :: "auction_row \<Rightarrow> txn \<Rightarrow> txn" where
  "lock_row r t =
     (if list_ex (\<lambda>x. ra_id x = ra_id r) (t_locks t) then t
      else t\<lparr>t_locks := r # t_locks t\<rparr>)"

text \<open>A row lock is taken on the committed version of the row.\<close>

definition lock_auction :: "db \<Rightarrow> uuid \<Rightarrow> txn \<Rightarrow> txn" where
  "lock_auction d a t = (case auctions d a of None \<Rightarrow> t | Some r \<Rightarrow> lock_row r t)"

definition put_auction :: "auction_row \<Rightarrow> txn \<Rightarrow> txn" where
  "put_auction r t = t\<lparr>t_aucs := r # filter (\<lambda>x. ra_id x \<noteq> ra_id r) (t_aucs t)\<rparr>"

definition fail_txn :: "txn \<Rightarrow> txn" where
  "fail_txn t = t\<lparr>t_failed := True\<rparr>"

text \<open>
  \<open>SELECT \<dots> FROM bids WHERE auction_id = %s ORDER BY auction_version, accepted_at, id\<close>.
\<close>

definition history_order :: "bid_row \<Rightarrow> int \<times> instant \<times> uuid" where
  "history_order b = (rb_auction_version b, rb_accepted_at b, rb_id b)"

definition select_bids_of :: "uuid \<Rightarrow> bid_row list \<Rightarrow> bid_row list" where
  "select_bids_of a bs = sort_key history_order (filter (\<lambda>b. rb_auction_id b = a) bs)"

text \<open>
  The two INSERT statements. The column defaults come from the schema: no price, no winner,
  version 0, and the clock for \<open>created_at\<close> and \<open>accepted_at\<close>. The order of the errors is
  PostgreSQL's: range, CHECK, unique indexes, foreign key.
\<close>

definition insert_auction ::
    "db \<Rightarrow> instant \<Rightarrow> uuid \<Rightarrow> string \<Rightarrow> int \<Rightarrow> int \<Rightarrow> instant \<Rightarrow> instant \<Rightarrow> txn \<Rightarrow> reply \<times> txn" where
  "insert_auction d now i title starting increment starts ends t =
     (let r = \<lparr>ra_id = i, ra_title = title, ra_starting_price_cents = starting,
               ra_current_price_cents = None, ra_minimum_increment_cents = increment,
               ra_winning_bid_id = None, ra_version = 0, ra_starts_at = starts,
               ra_ends_at = ends, ra_created_at = now\<rparr> in
      if \<not> bigint_ok starting \<or> \<not> bigint_ok increment
      then (R_Error NumericValueOutOfRange, fail_txn t)
      else if \<not> auctions_check r then (R_Error CheckViolation, fail_txn t)
      else if find_auction d t i \<noteq> None then (R_Error UniqueViolation, fail_txn t)
      else (R_Auction (Some r), t\<lparr>t_new := t_new t @ [r]\<rparr>))"

definition insert_bid_row ::
    "db \<Rightarrow> instant \<Rightarrow> uuid \<Rightarrow> uuid \<Rightarrow> uuid \<Rightarrow> string \<Rightarrow> int \<Rightarrow> int \<Rightarrow> txn \<Rightarrow> reply \<times> txn" where
  "insert_bid_row d now i request auction bidder amount version t =
     (let b = \<lparr>rb_id = i, rb_request_id = request, rb_auction_id = auction,
               rb_bidder_id = bidder, rb_amount_cents = amount,
               rb_auction_version = version, rb_accepted_at = now\<rparr> in
      if \<not> bigint_ok amount \<or> \<not> bigint_ok version
      then (R_Error NumericValueOutOfRange, fail_txn t)
      else if \<not> bids_check b then (R_Error CheckViolation, fail_txn t)
      else if \<not> bids_unique (visible_bids d t) b then (R_Error UniqueViolation, fail_txn t)
      else if find_auction d t auction = None
      then (R_Error ForeignKeyViolation, fail_txn t)
      else (R_Bid (Some b), t\<lparr>t_bids := t_bids t @ [b]\<rparr>))"

text \<open>
  The three UPDATE statements set the price, the winner and the version of one auction row.
  An UPDATE locks the row version it changes; a WHERE clause that is not satisfied changes
  and locks nothing and returns no row.
\<close>

definition bid_set :: "int \<Rightarrow> uuid \<Rightarrow> int \<Rightarrow> auction_row \<Rightarrow> auction_row" where
  "bid_set amount bid version r =
     r\<lparr>ra_current_price_cents := Some amount, ra_winning_bid_id := Some bid,
       ra_version := version\<rparr>"

definition update_row :: "db \<Rightarrow> auction_row \<Rightarrow> txn \<Rightarrow> reply \<times> txn" where
  "update_row d r' t =
     (if \<not> bigint_ok (ra_version r') then (R_Error NumericValueOutOfRange, fail_txn t)
      else if \<not> auctions_check r' then (R_Error CheckViolation, fail_txn t)
      else (R_Version (Some (ra_version r')),
            put_auction r' (lock_auction d (ra_id r') t)))"

text \<open>The CASE expression of the guarded UPDATE, over the row's columns.\<close>

definition sql_required :: "auction_row \<Rightarrow> int" where
  "sql_required r =
     (case ra_current_price_cents r of
        None \<Rightarrow> ra_starting_price_cents r
      | Some p \<Rightarrow> p + ra_minimum_increment_cents r)"

definition update_guard :: "auction_row \<Rightarrow> int \<Rightarrow> int \<Rightarrow> instant \<Rightarrow> bool" where
  "update_guard r amount version now \<longleftrightarrow>
     ra_version r = version \<and> now \<ge> ra_starts_at r \<and> now < ra_ends_at r \<and>
     amount \<ge> sql_required r"

definition update_auction ::
    "db \<Rightarrow> uuid \<Rightarrow> (auction_row \<Rightarrow> bool) \<Rightarrow> (auction_row \<Rightarrow> auction_row) \<Rightarrow> txn \<Rightarrow> reply \<times> txn" where
  "update_auction d a guard change t =
     (case find_auction d t a of
        None \<Rightarrow> (R_Version None, t)
      | Some r \<Rightarrow> if guard r then update_row d (change r) t else (R_Version None, t))"

text \<open>One data statement of an open transaction, at the clock reading \<open>now\<close>.\<close>

fun run_stmt :: "db \<Rightarrow> instant \<Rightarrow> stmt \<Rightarrow> txn \<Rightarrow> reply \<times> txn" where
  "run_stmt d now Select_One t = (R_Unit, t)"
| "run_stmt d now Clock_Timestamp t = (R_Time now, t)"
| "run_stmt d now (Select_Bid_By_Request q) t =
     (R_Bid (find (\<lambda>b. rb_request_id b = q) (visible_bids d t)), t)"
| "run_stmt d now (Select_Auction a lock) t =
     (case find_auction d t a of
        None \<Rightarrow> (R_Auction None, t)
      | Some r \<Rightarrow> (R_Auction (Some r), if lock then lock_auction d a t else t))"
| "run_stmt d now (Select_Bids_Of_Auction a) t = (R_Bids (select_bids_of a (visible_bids d t)), t)"
| "run_stmt d now (Insert_Auction i title starting increment starts ends) t =
     insert_auction d now i title starting increment starts ends t"
| "run_stmt d now (Insert_Bid i request auction bidder amount version) t =
     insert_bid_row d now i request auction bidder amount version t"
| "run_stmt d now (Update_Overwrite a amount bid version) t =
     update_auction d a (\<lambda>r. True) (bid_set amount bid version) t"
| "run_stmt d now (Update_Bump a amount bid) t =
     update_auction d a (\<lambda>r. True) (\<lambda>r. bid_set amount bid (ra_version r + 1) r) t"
| "run_stmt d now (Update_Guarded a amount bid version) t =
     update_auction d a (\<lambda>r. update_guard r amount version now)
       (\<lambda>r. bid_set amount bid (ra_version r + 1) r) t"
| "run_stmt d now Begin t = (R_Unit, t)"
| "run_stmt d now Commit t = (R_Unit, t)"
| "run_stmt d now Rollback t = (R_Unit, t)"
| "run_stmt d now Uuid4 t = (R_Unit, t)"
| "run_stmt d now Hook t = (R_Unit, t)"

subsection \<open>Committing\<close>

definition put_all :: "(uuid \<rightharpoonup> auction_row) \<Rightarrow> auction_row list \<Rightarrow> (uuid \<rightharpoonup> auction_row)" where
  "put_all m rs = foldr (\<lambda>r m. m(ra_id r \<mapsto> r)) rs m"

definition apply_txn :: "txn \<Rightarrow> db \<Rightarrow> db" where
  "apply_txn t d =
     \<lparr>auctions = put_all (auctions d) (t_aucs t @ t_new t), bids = bids d @ t_bids t\<rparr>"

text \<open>\<open>auctions_winning_bid_fk\<close> is deferred: it is checked at COMMIT, on the rows written.\<close>

definition deferred_fk_ok :: "db \<Rightarrow> txn \<Rightarrow> bool" where
  "deferred_fk_ok d t \<longleftrightarrow>
     list_all (auctions_winning_bid_fk (visible_bids d t)) (t_aucs t @ t_new t)"

subsection \<open>One statement of a call\<close>

text \<open>
  What the environment chooses at a step: \<open>Go now u\<close> lets the statement run, with the clock
  at \<open>now\<close> and \<open>u\<close> the value of a \<open>uuid4()\<close>; \<open>Fault e\<close> makes it fail with \<open>e\<close> (a timeout, a
  deadlock victim, a broken connection); \<open>Lost\<close> is a COMMIT that takes effect while its
  confirmation is lost.
\<close>

datatype choice = Go instant uuid | Fault sql_error | Lost

fun fault_ok :: "stmt \<Rightarrow> sql_error \<Rightarrow> bool" where
  "fault_ok Begin e = (e = PoolTimeout \<or> e = OperationalError)"
| "fault_ok Commit e = (e = QueryCanceled \<or> e = OperationalError)"
| "fault_ok Rollback e = False"
| "fault_ok Uuid4 e = False"
| "fault_ok Hook e = False"
| "fault_ok Select_One e = (e = QueryCanceled \<or> e = OperationalError)"
| "fault_ok Clock_Timestamp e = (e = QueryCanceled \<or> e = OperationalError)"
| "fault_ok (Select_Bid_By_Request q) e = (e = QueryCanceled \<or> e = OperationalError)"
| "fault_ok (Select_Bids_Of_Auction a) e = (e = QueryCanceled \<or> e = OperationalError)"
| "fault_ok (Select_Auction a lock) e =
     (e = QueryCanceled \<or> e = OperationalError \<or>
      (lock \<and> (e = LockNotAvailable \<or> e = DeadlockDetected)))"
| "fault_ok s e = (e \<in> {QueryCanceled, OperationalError, LockNotAvailable, DeadlockDetected})"

text \<open>The committed bids and auction rows a reply shows.\<close>

fun rows_of :: "reply \<Rightarrow> bid_row list" where
  "rows_of (R_Bid (Some b)) = [b]"
| "rows_of (R_Bids bs) = bs"
| "rows_of r = []"

definition seen_by :: "db \<Rightarrow> reply \<Rightarrow> bid_row list" where
  "seen_by d r = filter (\<lambda>b. b \<in> set (bids d)) (rows_of r)"

definition row_shown :: "db \<Rightarrow> reply \<Rightarrow> auction_row list" where
  "row_shown d r =
     (case r of
        R_Auction (Some x) \<Rightarrow> if auctions d (ra_id x) = Some x then [x] else []
      | _ \<Rightarrow> [])"

definition data_step :: "db \<Rightarrow> instant \<Rightarrow> stmt \<Rightarrow> txn \<Rightarrow> lstate \<Rightarrow> (reply \<times> lstate) option" where
  "data_step d now s t l =
     (if now < l_clock l then None
      else if t_failed t then Some (R_Error InFailedSqlTransaction, l)
      else
        (let (r, t') = run_stmt d now s t in
         Some (r, l\<lparr>l_txn := Some t', l_clock := now, l_seen := l_seen l @ seen_by d r,
                     l_rows := l_rows l @ row_shown d r\<rparr>)))"

definition commit_step :: "db \<Rightarrow> txn \<Rightarrow> lstate \<Rightarrow> reply \<times> lstate" where
  "commit_step d t l =
     (if t_failed t then (R_Unit, l\<lparr>l_txn := None\<rparr>)
      else if deferred_fk_ok d t
      then (R_Unit, l\<lparr>l_txn := None, l_log := l_log l @ [t]\<rparr>)
      else (R_Error ForeignKeyViolation, l\<lparr>l_txn := None\<rparr>))"

definition go_step :: "db \<Rightarrow> instant \<Rightarrow> uuid \<Rightarrow> stmt \<Rightarrow> lstate \<Rightarrow> (reply \<times> lstate) option" where
  "go_step d now u s l =
     (case s of
        Begin \<Rightarrow>
          (case l_txn l of
             None \<Rightarrow> Some (R_Unit, l\<lparr>l_txn := Some empty_txn\<rparr>)
           | Some t \<Rightarrow> None)
      | Commit \<Rightarrow> map_option (\<lambda>t. commit_step d t l) (l_txn l)
      | Rollback \<Rightarrow> Some (R_Unit, l\<lparr>l_txn := None\<rparr>)
      | Uuid4 \<Rightarrow> Some (R_Uuid u, l)
      | Hook \<Rightarrow> Some (R_Unit, l)
      | _ \<Rightarrow> (case l_txn l of None \<Rightarrow> None | Some t \<Rightarrow> data_step d now s t l))"

definition fault_step :: "sql_error \<Rightarrow> stmt \<Rightarrow> lstate \<Rightarrow> (reply \<times> lstate) option" where
  "fault_step e s l =
     (if \<not> fault_ok s e then None
      else if s = Begin
      then (case l_txn l of None \<Rightarrow> Some (R_Error e, l) | Some t \<Rightarrow> None)
      else
        (case l_txn l of
           None \<Rightarrow> None
         | Some t \<Rightarrow>
             if s = Commit then Some (R_Error e, l\<lparr>l_txn := None\<rparr>)
             else Some (R_Error e, l\<lparr>l_txn := Some (fail_txn t)\<rparr>)))"

definition lost_step :: "db \<Rightarrow> stmt \<Rightarrow> lstate \<Rightarrow> (reply \<times> lstate) option" where
  "lost_step d s l =
     (case l_txn l of
        None \<Rightarrow> None
      | Some t \<Rightarrow>
          if s = Commit then Some (R_Error OperationalError, snd (commit_step d t l))
          else None)"

primrec exec1 :: "db \<Rightarrow> stmt \<Rightarrow> lstate \<Rightarrow> choice \<Rightarrow> (reply \<times> lstate) option" where
  "exec1 d s l (Go now u) = go_step d now u s l"
| "exec1 d s l (Fault e) = fault_step e s l"
| "exec1 d s l Lost = lost_step d s l"

text \<open>The committed state after a call has gone from \<open>l\<close> to \<open>l'\<close>.\<close>

definition db_after :: "db \<Rightarrow> lstate \<Rightarrow> lstate \<Rightarrow> db" where
  "db_after d l l' =
     (if length (l_log l') = length (l_log l) then d else apply_txn (last (l_log l')) d)"

subsection \<open>A call that runs alone\<close>

text \<open>
  \<open>run p ch n d l\<close> runs a tree with nobody else at the database; \<open>ch\<close> gives the
  environment's choice at the \<open>n\<close>-th statement. The result is the value or exception, or
  \<open>None\<close> if a step is not possible, with the committed state and the call's state.
\<close>

primrec run :: "'a prog \<Rightarrow> (nat \<Rightarrow> choice) \<Rightarrow> nat \<Rightarrow> db \<Rightarrow> lstate \<Rightarrow> 'a py option \<times> db \<times> lstate" where
  "run (Ret x) ch n d l = (Some (Inr x), d, l)"
| "run (Raise e) ch n d l = (Some (Inl e), d, l)"
| "run (Exec s k) ch n d l =
     (case exec1 d s l (ch n) of
        None \<Rightarrow> (None, d, l)
      | Some rl \<Rightarrow> run (k (fst rl)) ch (Suc n) (db_after d l (snd rl)) (snd rl))"

end
