(* ===== verification/Repository.thy ===== *)
theory Repository
  imports Read_Committed
begin

section \<open>The auction repository\<close>

text \<open>
  \<open>AuctionRepository\<close> of \<^verbatim>\<open>src/src/bidding/db/repositories.py\<close>: the ordinary reads and
  writes. Each method borrows a connection, and \<open>create\<close> opens a transaction block.
\<close>

primrec bids_from_rows :: "bid_row list \<Rightarrow> accepted_bid list py" where
  "bids_from_rows [] = Inr []"
| "bids_from_rows (b # bs) =
     py_bind (bid_from_row b) (\<lambda>x. py_bind (bids_from_rows bs) (\<lambda>xs. Inr (x # xs)))"

definition repo_create ::
    "string \<Rightarrow> int \<Rightarrow> int \<Rightarrow> instant \<Rightarrow> instant \<Rightarrow> uuid option \<Rightarrow> auction_snapshot prog" where
  "repo_create title starting increment starts ends auction_id =
     prog_bind
       (case auction_id of
          Some i \<Rightarrow> Ret i
        | None \<Rightarrow> query Uuid4 reply_uuid) (\<lambda>identifier.
     prog_bind
       (in_transaction
         (query (Insert_Auction identifier (py_strip title) starting increment starts ends)
           reply_auction)) (\<lambda>row.
     case row of
       None \<Rightarrow> Raise AssertionError
     | Some r \<Rightarrow> of_py (auction_from_row r)))"

definition repo_get :: "uuid \<Rightarrow> auction_snapshot option prog" where
  "repo_get auction_id =
     prog_bind (in_transaction (query (Select_Auction auction_id False) reply_auction)) (\<lambda>row.
     case row of
       None \<Rightarrow> Ret None
     | Some r \<Rightarrow> prog_bind (of_py (auction_from_row r)) (\<lambda>auction. Ret (Some auction)))"

definition repo_list_bids :: "uuid \<Rightarrow> accepted_bid list prog" where
  "repo_list_bids auction_id =
     prog_bind (in_transaction (query (Select_Bids_Of_Auction auction_id) reply_bids)) (\<lambda>rows.
     of_py (bids_from_rows rows))"

lemma bids_from_rows_eq: "\<forall>b \<in> set bs. bids_check b \<Longrightarrow> bids_from_rows bs = Inr (map bid_of bs)"
  by (induction bs) (auto simp: bid_from_row_eq)

end
