(* ===== verification/Strategies.thy ===== *)
theory Strategies
  imports Repository
begin

section \<open>The three bid transactions\<close>

text \<open>
  \<^verbatim>\<open>src/src/bidding/db/strategies.py\<close>: the unsafe, pessimistic and optimistic
  implementations of \<open>place_bid\<close>, each a tree of the statements it executes, with the
  helpers they share.
\<close>

subsection \<open>Shared helpers\<close>

definition existing_bid :: "uuid \<Rightarrow> accepted_bid option prog" where
  "existing_bid request_id =
     prog_bind (query (Select_Bid_By_Request request_id) reply_bid) (\<lambda>row.
     case row of
       None \<Rightarrow> Ret None
     | Some b \<Rightarrow> prog_bind (of_py (bid_from_row b)) (\<lambda>bid. Ret (Some bid)))"

definition same_payload :: "accepted_bid \<Rightarrow> bid_command \<Rightarrow> bool" where
  "same_payload existing command \<longleftrightarrow>
     ab_auction_id existing = cmd_auction_id command \<and>
     ab_bidder_id existing = py_strip (cmd_bidder_id command) \<and>
     ab_amount_cents existing = cmd_amount_cents command"

definition replay_or_reject :: "accepted_bid \<Rightarrow> bid_command \<Rightarrow> bid_outcome py" where
  "replay_or_reject existing command =
     (if same_payload existing command then outcome_replayed existing 1 0
      else outcome_rejected REQUEST_ID_REUSED None 1 0)"

definition resolve_duplicate_request :: "bid_command \<Rightarrow> bid_outcome prog" where
  "resolve_duplicate_request command =
     prog_bind (in_transaction (existing_bid (cmd_request_id command))) (\<lambda>existing.
     case existing of
       None \<Rightarrow> Raise (RuntimeError ''unique violation was not caused by request_id'')
     | Some bid \<Rightarrow> of_py (replay_or_reject bid command))"

definition read_auction :: "uuid \<Rightarrow> bool \<Rightarrow> auction_snapshot option prog" where
  "read_auction auction_id lock =
     prog_bind (query (Select_Auction auction_id lock) reply_auction) (\<lambda>row.
     case row of
       None \<Rightarrow> Ret None
     | Some r \<Rightarrow> prog_bind (of_py (auction_from_row r)) (\<lambda>auction. Ret (Some auction)))"

definition database_time :: "instant prog" where
  "database_time = query Clock_Timestamp reply_time"

definition insert_bid :: "bid_command \<Rightarrow> uuid \<Rightarrow> int \<Rightarrow> accepted_bid prog" where
  "insert_bid command bid_id auction_version =
     prog_bind
       (query
         (Insert_Bid bid_id (cmd_request_id command) (cmd_auction_id command)
           (py_strip (cmd_bidder_id command)) (cmd_amount_cents command) auction_version)
         reply_bid) (\<lambda>row.
     case row of
       None \<Rightarrow> Raise AssertionError
     | Some b \<Rightarrow> of_py (bid_from_row b))"

text \<open>The rejection an evaluation that is not accepted becomes, with its assertion.\<close>

definition reject_evaluation :: "bid_evaluation \<Rightarrow> int \<Rightarrow> int \<Rightarrow> bid_outcome prog" where
  "reject_evaluation evaluation attempts conflicts =
     (case ev_rejection_reason evaluation of
        None \<Rightarrow> Raise AssertionError
      | Some reason \<Rightarrow>
          of_py (outcome_rejected reason (Some (ev_minimum_acceptable_cents evaluation))
            attempts conflicts))"

subsection \<open>Unsafe\<close>

text \<open>
  \<open>hook\<close> says whether an \<open>after_read_hook\<close> was given to the constructor. The UPDATE has
  neither a version predicate nor a lock taken before it.
\<close>

definition unsafe_accept ::
    "bool \<Rightarrow> bid_command \<Rightarrow> auction_snapshot \<Rightarrow> bid_outcome prog" where
  "unsafe_accept hook command auction =
     prog_bind (if hook then query Hook reply_unit else Ret ()) (\<lambda>_.
     prog_bind (query Uuid4 reply_uuid) (\<lambda>bid_id.
     prog_bind (insert_bid command bid_id (au_version auction + 1)) (\<lambda>bid.
     prog_bind
       (query (Update_Overwrite (cmd_auction_id command) (cmd_amount_cents command) bid_id
          (au_version auction + 1)) reply_unit) (\<lambda>_.
     of_py (outcome_accepted bid 1 0)))))"

definition unsafe_transaction :: "bool \<Rightarrow> bid_command \<Rightarrow> bid_outcome prog" where
  "unsafe_transaction hook command =
     prog_bind (existing_bid (cmd_request_id command)) (\<lambda>existing.
     case existing of
       Some bid \<Rightarrow> of_py (replay_or_reject bid command)
     | None \<Rightarrow>
         prog_bind (read_auction (cmd_auction_id command) False) (\<lambda>found.
         case found of
           None \<Rightarrow> of_py (outcome_rejected AUCTION_NOT_FOUND None 1 0)
         | Some auction \<Rightarrow>
             prog_bind database_time (\<lambda>now.
             prog_bind
               (of_py (evaluate_bid auction (PyInt (cmd_amount_cents command)) (Aware now)))
               (\<lambda>evaluation.
             if \<not> ev_accepted evaluation then reject_evaluation evaluation 1 0
             else unsafe_accept hook command auction))))"

definition unsafe_place_bid :: "bool \<Rightarrow> bid_command \<Rightarrow> bid_outcome prog" where
  "unsafe_place_bid hook command =
     prog_try (in_transaction (unsafe_transaction hook command)) (\<lambda>e.
     if e = SqlError UniqueViolation then resolve_duplicate_request command else Raise e)"

subsection \<open>Pessimistic\<close>

definition pessimistic_accept :: "bid_command \<Rightarrow> auction_snapshot \<Rightarrow> bid_outcome prog" where
  "pessimistic_accept command auction =
     prog_bind (query Uuid4 reply_uuid) (\<lambda>bid_id.
     prog_bind (insert_bid command bid_id (au_version auction + 1)) (\<lambda>bid.
     prog_bind
       (query (Update_Bump (cmd_auction_id command) (cmd_amount_cents command) bid_id)
          reply_unit) (\<lambda>_.
     of_py (outcome_accepted bid 1 0))))"

definition pessimistic_locked :: "bid_command \<Rightarrow> auction_snapshot \<Rightarrow> bid_outcome prog" where
  "pessimistic_locked command auction =
     prog_bind database_time (\<lambda>now.
     prog_bind (existing_bid (cmd_request_id command)) (\<lambda>existing.
     case existing of
       Some bid \<Rightarrow> of_py (replay_or_reject bid command)
     | None \<Rightarrow>
         prog_bind
           (of_py (evaluate_bid auction (PyInt (cmd_amount_cents command)) (Aware now)))
           (\<lambda>evaluation.
         if \<not> ev_accepted evaluation then reject_evaluation evaluation 1 0
         else pessimistic_accept command auction)))"

definition pessimistic_transaction :: "bid_command \<Rightarrow> bid_outcome prog" where
  "pessimistic_transaction command =
     prog_bind (existing_bid (cmd_request_id command)) (\<lambda>existing.
     case existing of
       Some bid \<Rightarrow> of_py (replay_or_reject bid command)
     | None \<Rightarrow>
         prog_bind (read_auction (cmd_auction_id command) True) (\<lambda>found.
         case found of
           None \<Rightarrow> of_py (outcome_rejected AUCTION_NOT_FOUND None 1 0)
         | Some auction \<Rightarrow> pessimistic_locked command auction))"

definition pessimistic_place_bid :: "bid_command \<Rightarrow> bid_outcome prog" where
  "pessimistic_place_bid command =
     prog_try (in_transaction (pessimistic_transaction command)) (\<lambda>e.
     if e = SqlError UniqueViolation then resolve_duplicate_request command
     else if e = SqlError LockNotAvailable \<or> e = SqlError QueryCanceled
     then Raise (StrategyBusyError ''database wait timeout expired'')
     else Raise e)"

subsection \<open>Optimistic\<close>

definition optimistic_accept ::
    "bid_command \<Rightarrow> int \<Rightarrow> auction_snapshot \<Rightarrow> bid_outcome prog" where
  "optimistic_accept command attempt auction =
     prog_bind (query Uuid4 reply_uuid) (\<lambda>bid_id.
     prog_bind (insert_bid command bid_id (au_version auction + 1)) (\<lambda>bid.
     prog_bind
       (query (Update_Guarded (cmd_auction_id command) (cmd_amount_cents command) bid_id
          (au_version auction)) reply_version) (\<lambda>row.
     case row of
       None \<Rightarrow> Raise (OptimisticMiss (au_version auction))
     | Some version \<Rightarrow> of_py (outcome_accepted bid attempt (attempt - 1)))))"

definition optimistic_transaction :: "bid_command \<Rightarrow> int \<Rightarrow> bid_outcome prog" where
  "optimistic_transaction command attempt =
     prog_bind (existing_bid (cmd_request_id command)) (\<lambda>existing.
     case existing of
       Some bid \<Rightarrow>
         prog_bind (of_py (replay_or_reject bid command)) (\<lambda>outcome.
         of_py (make_bid_outcome (out_status outcome) (out_bid outcome)
           (out_rejection_reason outcome) (out_minimum_acceptable_cents outcome)
           attempt (attempt - 1)))
     | None \<Rightarrow>
         prog_bind (read_auction (cmd_auction_id command) False) (\<lambda>found.
         case found of
           None \<Rightarrow> of_py (outcome_rejected AUCTION_NOT_FOUND None attempt 0)
         | Some auction \<Rightarrow>
             prog_bind database_time (\<lambda>now.
             prog_bind
               (of_py (evaluate_bid auction (PyInt (cmd_amount_cents command)) (Aware now)))
               (\<lambda>evaluation.
             if \<not> ev_accepted evaluation then reject_evaluation evaluation attempt 0
             else optimistic_accept command attempt auction))))"

definition optimistic_attempt :: "bid_command \<Rightarrow> int \<Rightarrow> bid_outcome prog" where
  "optimistic_attempt command attempt = in_transaction (optimistic_transaction command attempt)"

text \<open>
  \<open>_classify_after_miss\<close>: the reads happen inside the borrowed connection, with the early
  returns as \<open>Inl\<close>; the classification of the evaluation comes after it is given back.
\<close>

definition classify_reads :: "bid_command \<Rightarrow> int \<Rightarrow> (bid_outcome + bid_evaluation) prog" where
  "classify_reads command attempt =
     prog_bind (existing_bid (cmd_request_id command)) (\<lambda>existing.
     case existing of
       Some bid \<Rightarrow>
         prog_bind (of_py (replay_or_reject bid command)) (\<lambda>outcome. Ret (Inl outcome))
     | None \<Rightarrow>
         prog_bind (read_auction (cmd_auction_id command) False) (\<lambda>found.
         case found of
           None \<Rightarrow>
             prog_bind (of_py (outcome_rejected AUCTION_NOT_FOUND None attempt attempt))
               (\<lambda>outcome. Ret (Inl outcome))
         | Some auction \<Rightarrow>
             prog_bind database_time (\<lambda>now.
             prog_bind
               (of_py (evaluate_bid auction (PyInt (cmd_amount_cents command)) (Aware now)))
               (\<lambda>evaluation. Ret (Inr evaluation)))))"

definition classify_after_miss :: "int \<Rightarrow> bid_command \<Rightarrow> int \<Rightarrow> bid_outcome option prog" where
  "classify_after_miss max_attempts command attempt =
     prog_bind (in_transaction (classify_reads command attempt)) (\<lambda>read.
     case read of
       Inl outcome \<Rightarrow> Ret (Some outcome)
     | Inr evaluation \<Rightarrow>
         if \<not> ev_accepted evaluation
         then prog_bind (reject_evaluation evaluation attempt attempt) (\<lambda>r. Ret (Some r))
         else if attempt \<ge> max_attempts
         then prog_bind (of_py (outcome_rejected CONFLICT_RETRY_EXHAUSTED None attempt attempt))
                (\<lambda>r. Ret (Some r))
         else Ret None)"

text \<open>
  One turn of the loop in \<open>place_bid\<close>: \<open>Some\<close> outcome is a \<open>return\<close>, \<open>None\<close> goes on to the
  next attempt.
\<close>

definition optimistic_turn :: "int \<Rightarrow> bid_command \<Rightarrow> int \<Rightarrow> bid_outcome option prog" where
  "optimistic_turn max_attempts command attempt =
     prog_try
       (prog_bind (optimistic_attempt command attempt) (\<lambda>outcome. Ret (Some outcome))) (\<lambda>e.
     case e of
       OptimisticMiss version \<Rightarrow> classify_after_miss max_attempts command attempt
     | SqlError UniqueViolation \<Rightarrow>
         prog_bind (resolve_duplicate_request command) (\<lambda>outcome. Ret (Some outcome))
     | SqlError QueryCanceled \<Rightarrow>
         Raise (StrategyBusyError ''database statement timeout expired'')
     | _ \<Rightarrow> Raise e)"

text \<open>\<open>left\<close> counts the attempts that remain of \<open>range(1, max_attempts + 1)\<close>.\<close>

primrec optimistic_loop :: "int \<Rightarrow> bid_command \<Rightarrow> nat \<Rightarrow> bid_outcome prog" where
  "optimistic_loop max_attempts command 0 =
     of_py (outcome_rejected CONFLICT_RETRY_EXHAUSTED None max_attempts max_attempts)"
| "optimistic_loop max_attempts command (Suc left) =
     prog_bind (optimistic_turn max_attempts command (max_attempts - int left)) (\<lambda>result.
     case result of
       Some outcome \<Rightarrow> Ret outcome
     | None \<Rightarrow> optimistic_loop max_attempts command left)"

definition optimistic_place_bid :: "int \<Rightarrow> bid_command \<Rightarrow> bid_outcome prog" where
  "optimistic_place_bid max_attempts command =
     optimistic_loop max_attempts command (nat max_attempts)"

text \<open>The check of the constructor.\<close>

definition make_optimistic :: "int \<Rightarrow> (bid_command \<Rightarrow> bid_outcome prog) py" where
  "make_optimistic max_attempts =
     (if max_attempts \<le> 0 then Inl (ValueError ''max_attempts must be positive'')
      else Inr (optimistic_place_bid max_attempts))"

definition strategy_from_name :: "string \<Rightarrow> int \<Rightarrow> (bid_command \<Rightarrow> bid_outcome prog) py" where
  "strategy_from_name name optimistic_max_attempts =
     (if name = ''unsafe'' then Inr (unsafe_place_bid False)
      else if name = ''pessimistic'' then Inr pessimistic_place_bid
      else if name = ''optimistic'' then make_optimistic optimistic_max_attempts
      else Inl (ValueError (''unknown bid strategy: '' @ name)))"

end
