(* ===== verification/Program_Logic.thy ===== *)
theory Program_Logic
  imports Strategies
begin

section \<open>What a call relies on\<close>

text \<open>
  What one call can rely on while others run: \<open>good d l\<close> relates the call's state to any
  committed state its next statement may meet. The schema's constraints hold, the rows the
  call has locked are still the committed ones, and what it has inserted is still new. The
  lemmas show that every statement of the call itself keeps this; that the statements of
  other calls keep it is shown in the theory \<open>Interleaving\<close>.
\<close>

subsection \<open>The rely condition\<close>

text \<open>The columns of an auction no statement changes after its INSERT.\<close>

definition same_terms :: "auction_row \<Rightarrow> auction_row \<Rightarrow> bool" where
  "same_terms r r' \<longleftrightarrow> bid_set 0 0 0 r = bid_set 0 0 0 r'"

lemma bid_set_simps [simp]:
  "ra_id (bid_set amount bid v r) = ra_id r"
  "ra_title (bid_set amount bid v r) = ra_title r"
  "ra_version (bid_set amount bid v r) = v"
  "ra_current_price_cents (bid_set amount bid v r) = Some amount"
  "ra_winning_bid_id (bid_set amount bid v r) = Some bid"
  "ra_starting_price_cents (bid_set amount bid v r) = ra_starting_price_cents r"
  "ra_minimum_increment_cents (bid_set amount bid v r) = ra_minimum_increment_cents r"
  "ra_starts_at (bid_set amount bid v r) = ra_starts_at r"
  "ra_ends_at (bid_set amount bid v r) = ra_ends_at r"
  "bid_set amount bid v (bid_set amount' bid' v' r) = bid_set amount bid v r"
  by (simp_all add: bid_set_def)

lemma same_terms_refl [simp]: "same_terms r r"
  and same_terms_sym: "same_terms r r' \<Longrightarrow> same_terms r' r"
  and same_terms_trans: "same_terms r r' \<Longrightarrow> same_terms r' r'' \<Longrightarrow> same_terms r r''"
  and same_terms_bid_set [simp]: "same_terms r (bid_set amount bid v r') \<longleftrightarrow> same_terms r r'"
  by (simp_all add: same_terms_def)

lemma same_termsD:
  assumes "same_terms r r'"
  shows "ra_id r = ra_id r'" "ra_starts_at r = ra_starts_at r'" "ra_ends_at r = ra_ends_at r'"
    "ra_title r = ra_title r'" "ra_starting_price_cents r = ra_starting_price_cents r'"
    "ra_minimum_increment_cents r = ra_minimum_increment_cents r'"
  using assms unfolding same_terms_def by (metis bid_set_simps)+

definition txn_ok :: "db \<Rightarrow> txn \<Rightarrow> bool" where
  "txn_ok d t \<longleftrightarrow>
     (\<forall>r \<in> set (t_locks t). auctions d (ra_id r) = Some r) \<and>
     (\<forall>r \<in> set (t_new t). auctions d (ra_id r) = None \<and> auctions_check r \<and>
        ra_current_price_cents r = None) \<and>
     distinct (map ra_id (t_new t)) \<and>
     (\<forall>r \<in> set (t_aucs t). auctions_check r \<and>
        (\<exists>x \<in> set (t_locks t) \<union> set (t_new t). same_terms x r)) \<and>
     (\<forall>b \<in> set (t_bids t). bids_check b \<and> bids_unique (bids d) b \<and>
        (auctions d (rb_auction_id b) \<noteq> None \<or> rb_auction_id b \<in> ra_id ` set (t_new t))) \<and>
     distinct (map rb_id (t_bids t)) \<and> distinct (map rb_request_id (t_bids t))"

definition good :: "db \<Rightarrow> lstate \<Rightarrow> bool" where
  "good d l \<longleftrightarrow>
     db_wf d \<and> (\<forall>t. l_txn l = Some t \<longrightarrow> txn_ok d t) \<and>
     (\<forall>r \<in> set (l_rows l). \<exists>r'. auctions d (ra_id r) = Some r' \<and> same_terms r r')"

lemma txn_ok_auc_terms:
  "txn_ok d t \<Longrightarrow> r \<in> set (t_aucs t) \<Longrightarrow>
   \<exists>x \<in> set (t_locks t) \<union> set (t_new t). same_terms x r"
  unfolding txn_ok_def by blast

lemma txn_ok_auc_id:
  assumes "txn_ok d t" "r \<in> set (t_aucs t)"
  shows "ra_id r \<in> ra_id ` set (t_locks t) \<union> ra_id ` set (t_new t)"
proof -
  obtain x where "x \<in> set (t_locks t) \<union> set (t_new t)" "same_terms x r"
    using txn_ok_auc_terms [OF assms] by blast
  moreover from this have "ra_id r = ra_id x" by (simp add: same_termsD(1))
  ultimately show ?thesis by auto
qed

lemma txn_ok_empty [simp]: "txn_ok d empty_txn"
  by (simp add: txn_ok_def empty_txn_def)

lemma txn_ok_fail [simp]: "txn_ok d (fail_txn t) \<longleftrightarrow> txn_ok d t"
  by (simp add: txn_ok_def fail_txn_def)

lemma find_auction_id:
  assumes "db_wf d" "find_auction d t a = Some r"
  shows "ra_id r = a"
  using assms by (auto simp: find_auction_def dest: find_SomeD db_wfD(1) split: option.splits)

lemma find_auction_clean [simp]:
  "t_aucs t = [] \<Longrightarrow> t_new t = [] \<Longrightarrow> find_auction d t a = auctions d a"
  by (simp add: find_auction_def)

lemma lock_auction_simps [simp]:
  "t_bids (lock_auction d a t) = t_bids t" "t_new (lock_auction d a t) = t_new t"
  "t_aucs (lock_auction d a t) = t_aucs t" "t_failed (lock_auction d a t) = t_failed t"
  "set (t_locks t) \<subseteq> set (t_locks (lock_auction d a t))"
  by (auto simp: lock_auction_def lock_row_def split: option.splits)

lemma lock_auction_locks:
  assumes "db_wf d" "txn_ok d t" "auctions d a = Some r"
  shows "r \<in> set (t_locks (lock_auction d a t))"
proof (cases "list_ex (\<lambda>x. ra_id x = ra_id r) (t_locks t)")
  case True
  then obtain x where x: "x \<in> set (t_locks t)" "ra_id x = ra_id r" by (auto simp: list_ex_iff)
  with assms(2) have "auctions d (ra_id r) = Some x" by (auto simp: txn_ok_def)
  with assms(3) db_wfD(1) [OF assms(1,3)] have "x = r" by simp
  with x True assms(3) show ?thesis by (simp add: lock_auction_def lock_row_def)
qed (use assms(3) in \<open>simp add: lock_auction_def lock_row_def\<close>)

lemma lock_auction_ok:
  assumes "db_wf d" "txn_ok d t"
  shows "txn_ok d (lock_auction d a t)"
proof (cases "auctions d a")
  case (Some r)
  with db_wfD(1) [OF assms(1) Some] assms(2) show ?thesis
    by (auto simp: lock_auction_def lock_row_def txn_ok_def)
qed (use assms(2) in \<open>simp add: lock_auction_def\<close>)

lemma find_auction_committed_or_new:
  assumes "txn_ok d t" "find_auction d t a = Some r"
  shows "auctions d a \<noteq> None \<or> a \<in> ra_id ` set (t_new t)"
proof (rule ccontr)
  assume no: "\<not> ?thesis"
  with assms(2) have "find (\<lambda>r. ra_id r = a) (t_aucs t @ t_new t) = Some r"
    by (auto simp: find_auction_def split: option.splits)
  then have "r \<in> set (t_aucs t) \<union> set (t_new t)" "ra_id r = a" by (auto dest: find_SomeD)
  with assms(1) have "a \<in> ra_id ` set (t_locks t) \<union> ra_id ` set (t_new t)"
    using txn_ok_auc_id [OF assms(1), of r] by auto
  with assms(1) no show False by (auto simp: txn_ok_def)
qed

lemma find_auction_locked_or_new:
  assumes "db_wf d" "txn_ok d t" "find_auction d t a = Some r"
  shows "a \<in> ra_id ` set (t_locks (lock_auction d a t)) \<union> ra_id ` set (t_new t)"
proof (cases "auctions d a")
  case None
  with find_auction_committed_or_new [OF assms(2,3)] show ?thesis by simp
next
  case (Some x)
  from lock_auction_locks [OF assms(1,2) Some] db_wfD(1) [OF assms(1) Some]
  show ?thesis by force
qed

lemma find_auction_terms:
  assumes "db_wf d" "txn_ok d t" "find_auction d t a = Some r"
  shows "\<exists>x \<in> set (t_locks (lock_auction d a t)) \<union> set (t_new t). same_terms x r"
proof (cases "find (\<lambda>r. ra_id r = a) (t_aucs t @ t_new t)")
  case None
  with assms(3) have "auctions d a = Some r" by (simp add: find_auction_def)
  from lock_auction_locks [OF assms(1,2) this] show ?thesis
    by (intro bexI [of _ r]) simp_all
next
  case (Some y)
  with assms(3) have "find (\<lambda>r. ra_id r = a) (t_aucs t @ t_new t) = Some r"
    by (simp add: find_auction_def)
  then have "r \<in> set (t_aucs t) \<union> set (t_new t)" by (auto dest: find_SomeD)
  then show ?thesis
  proof
    assume "r \<in> set (t_aucs t)"
    then obtain x where "x \<in> set (t_locks t) \<union> set (t_new t)" "same_terms x r"
      using txn_ok_auc_terms [OF assms(2)] by blast
    then show ?thesis using lock_auction_simps(5) [of t d a] by blast
  qed (blast intro: same_terms_refl)
qed

lemma insert_bid_row_ok:
  assumes "db_wf d" "txn_ok d t" "insert_bid_row d now i q a bidder amount version t = (r, t')"
  shows "txn_ok d t'"
proof -
  define b where "b = \<lparr>rb_id = i, rb_request_id = q, rb_auction_id = a, rb_bidder_id = bidder,
    rb_amount_cents = amount, rb_auction_version = version, rb_accepted_at = now\<rparr>"
  show ?thesis
  proof (cases "bids_check b \<and> bids_unique (visible_bids d t) b \<and> find_auction d t a \<noteq> None \<and>
      bigint_ok amount \<and> bigint_ok version")
    case True
    then obtain x where x: "find_auction d t a = Some x" by blast
    with True assms(3) have t': "t' = t\<lparr>t_bids := t_bids t @ [b]\<rparr>"
      by (auto simp: insert_bid_row_def Let_def b_def)
    from find_auction_committed_or_new [OF assms(2) x]
    have fk: "auctions d a \<noteq> None \<or> a \<in> ra_id ` set (t_new t)" .
    have new: "list_all (\<lambda>x. rb_id x \<noteq> i \<and> rb_request_id x \<noteq> q) (bids d @ t_bids t)"
      using True by (simp add: bids_unique_def visible_bids_def b_def)
    with True fk assms(2) show ?thesis
      by (auto simp: txn_ok_def t' bids_unique_def b_def list_all_iff)
  next
    case False
    with assms(2,3) show ?thesis
      by (auto simp: insert_bid_row_def Let_def b_def split: if_splits)
  qed
qed

lemma insert_auction_ok:
  assumes "txn_ok d t" "insert_auction d now i title s inc st en t = (r, t')"
  shows "txn_ok d t'"
proof (cases "t' = fail_txn t")
  case False
  define x where "x = \<lparr>ra_id = i, ra_title = title, ra_starting_price_cents = s,
    ra_current_price_cents = None, ra_minimum_increment_cents = inc, ra_winning_bid_id = None,
    ra_version = 0, ra_starts_at = st, ra_ends_at = en, ra_created_at = now\<rparr>"
  from False assms(2) have t': "t' = t\<lparr>t_new := t_new t @ [x]\<rparr>"
    and ok: "auctions_check x" and free: "find_auction d t i = None"
    by (auto simp: insert_auction_def Let_def x_def split: if_splits)
  from free have "auctions d i = None" "i \<notin> ra_id ` set (t_new t)"
    by (auto simp: find_auction_def find_None_iff split: option.splits)
  moreover have "ra_id x = i" "ra_current_price_cents x = None" by (simp_all add: x_def)
  ultimately show ?thesis using assms(1) ok by (auto simp: txn_ok_def t')
qed (use assms(1) in simp)

lemma update_auction_ok:
  assumes "db_wf d" "txn_ok d t" "update_auction d a g ch t = (r, t')"
    and same: "\<And>r. same_terms r (ch r)"
  shows "txn_ok d t'"
proof (cases "find_auction d t a")
  case (Some x)
  from find_auction_id [OF assms(1) Some] same have x: "ra_id (ch x) = a"
    by (metis same_termsD(1))
  obtain y where y: "y \<in> set (t_locks (lock_auction d a t)) \<union> set (t_new t)" "same_terms y (ch x)"
    using find_auction_terms [OF assms(1,2) Some] same same_terms_trans by blast
  with lock_auction_ok [OF assms(1,2), of a]
  have "auctions_check (ch x) \<Longrightarrow> txn_ok d (put_auction (ch x) (lock_auction d a t))"
    by (auto simp: txn_ok_def put_auction_def)
  with Some assms(2,3) show ?thesis
    by (auto simp: update_auction_def update_row_def x split: if_splits)
qed (use assms(2,3) in \<open>simp add: update_auction_def\<close>)

lemma run_stmt_ok:
  assumes "db_wf d" "txn_ok d t" "run_stmt d now s t = (r, t')"
  shows "txn_ok d t'"
proof (cases s)
  case (Select_Auction a lock)
  with assms show ?thesis by (auto split: option.splits intro: lock_auction_ok)
next
  case (Insert_Bid i q a bidder amount version)
  with assms show ?thesis by (auto intro: insert_bid_row_ok)
next
  case (Insert_Auction i title s inc st en)
  with assms show ?thesis by (auto intro: insert_auction_ok)
qed (use assms in \<open>auto intro: update_auction_ok\<close>)

text \<open>A statement of the call itself keeps the rely condition.\<close>

lemma deferred_fkD:
  "deferred_fk_ok d t \<Longrightarrow> r \<in> set (t_aucs t) \<union> set (t_new t) \<Longrightarrow>
   auctions_winning_bid_fk (bids d @ t_bids t) r"
  by (auto simp: deferred_fk_ok_def visible_bids_def list_all_iff)

lemma put_all_simps [simp]:
  "put_all m [] = m"
  "put_all m (r # rs) = (put_all m rs)(ra_id r \<mapsto> r)"
  by (simp_all add: put_all_def)

lemma put_all_cases:
  "put_all m rs a = Some r \<Longrightarrow> (r \<in> set rs \<and> ra_id r = a) \<or> (a \<notin> ra_id ` set rs \<and> m a = Some r)"
  by (induction rs) (auto split: if_splits)

lemma put_all_other: "a \<notin> ra_id ` set rs \<Longrightarrow> put_all m rs a = m a"
  by (induction rs) auto

lemma put_all_defined: "put_all m rs a \<noteq> None \<longleftrightarrow> m a \<noteq> None \<or> a \<in> ra_id ` set rs"
  by (induction rs) auto

lemma winning_fk_mono:
  "auctions_winning_bid_fk bs r \<Longrightarrow> auctions_winning_bid_fk (bs @ cs) r"
  by (auto simp: auctions_winning_bid_fk_def list_ex_iff split: option.splits)

lemma apply_txn_wf:
  assumes "db_wf d" "txn_ok d t" "deferred_fk_ok d t"
  shows "db_wf (apply_txn t d)"
proof -
  let ?rs = "t_aucs t @ t_new t"
  have aucs: "ra_id r = a \<and> auctions_check r \<and> auctions_winning_bid_fk (bids d @ t_bids t) r"
    if "put_all (auctions d) ?rs a = Some r" for a r
    using put_all_cases [OF that] assms deferred_fkD [OF assms(3), of r]
    by (auto simp: txn_ok_def dest: db_wfD intro: winning_fk_mono)
  have fk: "put_all (auctions d) ?rs (rb_auction_id b) \<noteq> None"
    if "b \<in> set (bids d @ t_bids t)" for b
  proof -
    from that assms have "auctions d (rb_auction_id b) \<noteq> None \<or> rb_auction_id b \<in> ra_id ` set (t_new t)"
      by (auto simp: txn_ok_def dest: db_wf_bidD)
    then show ?thesis unfolding put_all_defined by auto
  qed
  have new: "\<forall>b \<in> set (t_bids t). list_all (\<lambda>x. rb_id x \<noteq> rb_id b \<and> rb_request_id x \<noteq> rb_request_id b) (bids d)"
    using assms(2) by (simp add: txn_ok_def bids_unique_def)
  have "distinct (map rb_id (bids d @ t_bids t))" "distinct (map rb_request_id (bids d @ t_bids t))"
    using assms(1,2) new by (force simp: db_wf_def txn_ok_def list_all_iff)+
  then show ?thesis
    using assms(1,2) aucs fk
    by (auto simp: db_wf_def apply_txn_def txn_ok_def bids_auction_fk_def)
qed

lemma db_after_same [simp]: "length (l_log l') = length (l_log l) \<Longrightarrow> db_after d l l' = d"
  by (simp add: db_after_def)

lemma db_after_snoc [simp]: "l_log l' = l_log l @ [t] \<Longrightarrow> db_after d l l' = apply_txn t d"
  by (simp add: db_after_def)

lemma go_step_data:
  "s \<notin> {Begin, Commit, Rollback, Uuid4, Hook} \<Longrightarrow>
   go_step d now u s l = (case l_txn l of None \<Rightarrow> None | Some t \<Rightarrow> data_step d now s t l)"
  by (cases s) (auto simp: go_step_def)

text \<open>The kinds of step, by their effect on the call's state.\<close>

lemma exec1_cases:
  assumes "exec1 d s l c = Some (r, l')"
  obtains (start) "s = Begin" "l_txn l = None" "r = R_Unit" "l' = l\<lparr>l_txn := Some empty_txn\<rparr>"
  | (effect) u where "(s = Uuid4 \<and> r = R_Uuid u) \<or> (s = Hook \<and> r = R_Unit)" "l' = l"
  | (refused) t where "l_txn l = Some t" "t_failed t" "s \<notin> {Begin, Commit, Rollback, Uuid4, Hook}"
      "r = R_Error InFailedSqlTransaction" "l' = l"
  | (begin_fails) e where "s = Begin" "l_txn l = None" "r = R_Error e" "l' = l"
  | (data) t now where "l_txn l = Some t" "\<not> t_failed t" "l_clock l \<le> now"
      "s \<notin> {Begin, Commit, Rollback, Uuid4, Hook}"
      "r = fst (run_stmt d now s t)"
      "l' = l\<lparr>l_txn := Some (snd (run_stmt d now s t)), l_clock := now,
              l_seen := l_seen l @ seen_by d r, l_rows := l_rows l @ row_shown d r\<rparr>"
  | (faulty) t e where "l_txn l = Some t" "r = R_Error e" "s \<notin> {Begin, Commit, Rollback, Uuid4, Hook}"
      "l' = l\<lparr>l_txn := Some (fail_txn t)\<rparr>"
  | (rollback) "s = Rollback" "r = R_Unit" "l' = l\<lparr>l_txn := None\<rparr>"
  | (committed) t where "s = Commit" "l_txn l = Some t" "\<not> t_failed t" "deferred_fk_ok d t"
      "r = R_Unit \<or> r = R_Error OperationalError"
      "l' = l\<lparr>l_txn := None, l_log := l_log l @ [t]\<rparr>"
  | (uncommitted) t where "s = Commit" "l_txn l = Some t"
      "(t_failed t \<and> r = R_Unit) \<or> (\<exists>e. r = R_Error e)"
      "l' = l\<lparr>l_txn := None\<rparr>"
proof (cases c)
  case (Go now u)
  with assms have g: "go_step d now u s l = Some (r, l')" by simp
  show ?thesis
  proof (cases "s \<in> {Begin, Commit, Rollback, Uuid4, Hook}")
    case True
    with g start effect rollback committed uncommitted show ?thesis
      by (auto simp: go_step_def commit_step_def split: option.splits if_splits)
  next
    case False
    with g obtain t where t: "l_txn l = Some t" "data_step d now s t l = Some (r, l')"
      by (auto simp: go_step_data split: option.splits)
    show ?thesis
    proof (cases "t_failed t")
      case True
      with t False refused show ?thesis by (auto simp: data_step_def split: if_splits)
    next
      case nf: False
      with t(2) have "l_clock l \<le> now" "r = fst (run_stmt d now s t)"
        "l' = l\<lparr>l_txn := Some (snd (run_stmt d now s t)), l_clock := now,
                l_seen := l_seen l @ seen_by d r, l_rows := l_rows l @ row_shown d r\<rparr>"
        by (auto simp: data_step_def Let_def split: if_splits prod.splits)
      with t(1) nf False data show ?thesis by blast
    qed
  qed
next
  case (Fault e)
  with assms have "fault_step e s l = Some (r, l')" by simp
  then show ?thesis
    using begin_fails faulty uncommitted
    by (cases s) (auto simp: fault_step_def split: option.splits if_splits)
next
  case Lost
  with assms have "lost_step d s l = Some (r, l')" by simp
  then show ?thesis
    using committed uncommitted
    by (auto simp: lost_step_def commit_step_def split: option.splits if_splits)
qed

lemma apply_txn_terms:
  assumes "txn_ok d t" "auctions d a = Some r"
  shows "\<exists>r'. auctions (apply_txn t d) a = Some r' \<and> same_terms r r'"
proof -
  have "put_all (auctions d) (t_aucs t @ t_new t) a \<noteq> None"
    using assms(2) by (simp only: put_all_defined) simp
  then obtain r' where r': "put_all (auctions d) (t_aucs t @ t_new t) a = Some r'" by blast
  from put_all_cases [OF this] have "same_terms r r'"
  proof
    assume new: "r' \<in> set (t_aucs t @ t_new t) \<and> ra_id r' = a"
    with assms have "r' \<in> set (t_aucs t)" by (auto simp: txn_ok_def)
    then obtain x where "x \<in> set (t_locks t) \<union> set (t_new t)" "same_terms x r'"
      using txn_ok_auc_terms [OF assms(1)] by blast
    moreover from this new have "ra_id x = a" by (simp add: same_termsD(1))
    ultimately have "x = r" using assms by (auto simp: txn_ok_def)
    with \<open>same_terms x r'\<close> show ?thesis by simp
  qed (use assms(2) in simp)
  with r' show ?thesis by (simp add: apply_txn_def)
qed

lemma exec1_good:
  assumes "good d l" "exec1 d s l c = Some (r, l')"
  shows "good (db_after d l l') l'"
  using assms(2)
proof (cases rule: exec1_cases)
  case (data t now)
  with assms(1) have "txn_ok d (snd (run_stmt d now s t))"
    by (auto simp: good_def intro: run_stmt_ok prod.collapse [symmetric])
  with data assms(1) show ?thesis
    by (auto simp: good_def row_shown_def split: reply.splits option.splits if_splits)
next
  case (committed t)
  with assms(1) have ok: "txn_ok d t" "db_wf (apply_txn t d)"
    by (auto simp: good_def intro: apply_txn_wf)
  have "\<exists>r'. auctions (apply_txn t d) (ra_id x) = Some r' \<and> same_terms x r'"
    if "x \<in> set (l_rows l)" for x
    using that assms(1) apply_txn_terms [OF ok(1)] same_terms_trans
    by (fastforce simp: good_def)
  with committed ok show ?thesis by (simp add: good_def)
qed (use assms(1) in \<open>auto simp: good_def\<close>)

end
