(* ===== verification/Weakest_Precondition.thy ===== *)
theory Weakest_Precondition
  imports Program_Logic
begin

section \<open>A weakest-precondition calculus for calls under interference\<close>

text \<open>
  \<open>wp C p Q l\<close>: from the state \<open>l\<close>, whatever the committed state at each statement (within
  \<open>good\<close>) and whatever the environment chooses, every transaction the tree commits
  satisfies \<open>C\<close>, and the tree ends in a result and a state that satisfy \<open>Q\<close>.
  \<open>triple C P p Q E\<close> is the same with a precondition and separate postconditions for a
  return and for an exception.
\<close>

primrec wp :: "(txn \<Rightarrow> bool) \<Rightarrow> 'a prog \<Rightarrow> ('a py \<Rightarrow> lstate \<Rightarrow> bool) \<Rightarrow> lstate \<Rightarrow> bool" where
  "wp C (Ret x) Q l = Q (Inr x) l"
| "wp C (Raise e) Q l = Q (Inl e) l"
| "wp C (Exec s k) Q l =
     ((s = Commit \<longrightarrow> (\<forall>t. l_txn l = Some t \<and> \<not> t_failed t \<longrightarrow> C t)) \<and>
      (\<forall>d c r l'. good d l \<and> exec1 d s l c = Some (r, l') \<longrightarrow> wp C (k r) Q l'))"

text \<open>A postcondition from one for returns and one for exceptions.\<close>

definition fin :: "('a \<Rightarrow> lstate \<Rightarrow> bool) \<Rightarrow> (py_exn \<Rightarrow> lstate \<Rightarrow> bool) \<Rightarrow> 'a py \<Rightarrow> lstate \<Rightarrow> bool" where
  "fin Q E r l = (case r of Inl e \<Rightarrow> E e l | Inr x \<Rightarrow> Q x l)"

lemma fin_simps [simp]:
  "fin Q E (Inr x) l = Q x l"
  "fin Q E (Inl e) l = E e l"
  by (simp_all add: fin_def)

lemma fin_mono:
  "fin Q E r l \<Longrightarrow> (\<And>x. Q x l \<Longrightarrow> Q' x l) \<Longrightarrow> (\<And>e. E e l \<Longrightarrow> E' e l) \<Longrightarrow> fin Q' E' r l"
  by (cases r) auto

lemma wp_bind:
  "wp C (prog_bind p f) Q l = wp C p (fin (\<lambda>x. wp C (f x) Q) (\<lambda>e. Q (Inl e))) l"
  by (induction p arbitrary: l) auto

lemma wp_try:
  "wp C (prog_try p h) Q l = wp C p (fin (\<lambda>x. Q (Inr x)) (\<lambda>e. wp C (h e) Q)) l"
  by (induction p arbitrary: l) auto

lemma wp_close:
  "wp C (close_transaction p) Q l =
   wp C p (fin (\<lambda>x. wp C (Exec Commit (after_commit x)) Q)
     (\<lambda>e. wp C (Exec Rollback (\<lambda>_. Raise e)) Q)) l"
  by (induction p arbitrary: l) auto

lemma wp_mono: "wp C p Q l \<Longrightarrow> (\<And>r l'. Q r l' \<Longrightarrow> Q' r l') \<Longrightarrow> wp C p Q' l"
proof (induction p arbitrary: l)
  case (Exec s k)
  then show ?case by (auto intro!: Exec.IH)
qed auto

definition triple ::
    "(txn \<Rightarrow> bool) \<Rightarrow> (lstate \<Rightarrow> bool) \<Rightarrow> 'a prog \<Rightarrow> ('a \<Rightarrow> lstate \<Rightarrow> bool)
     \<Rightarrow> (py_exn \<Rightarrow> lstate \<Rightarrow> bool) \<Rightarrow> bool" where
  "triple C P p Q E \<longleftrightarrow> (\<forall>l. P l \<longrightarrow> wp C p (fin Q E) l)"

lemma tripleI: "(\<And>l. P l \<Longrightarrow> wp C p (fin Q E) l) \<Longrightarrow> triple C P p Q E"
  by (simp add: triple_def)

lemma tripleD: "triple C P p Q E \<Longrightarrow> P l \<Longrightarrow> wp C p (fin Q E) l"
  by (simp add: triple_def)

lemma triple_conseq:
  assumes "triple C P' p Q' E'" and "\<And>l. P l \<Longrightarrow> P' l"
    and "\<And>x l. Q' x l \<Longrightarrow> Q x l" and "\<And>e l. E' e l \<Longrightarrow> E e l"
  shows "triple C P p Q E"
  by (rule tripleI, rule wp_mono [OF tripleD [OF assms(1) assms(2)]])
    (auto elim!: fin_mono intro: assms(3,4))

lemma triple_bind:
  assumes "triple C P p R E" and "\<And>x. triple C (R x) (f x) Q E"
  shows "triple C P (prog_bind p f) Q E"
proof (rule tripleI, unfold wp_bind)
  fix l
  assume "P l"
  show "wp C p (fin (\<lambda>x. wp C (f x) (fin Q E)) (\<lambda>e. fin Q E (Inl e))) l"
    by (rule wp_mono [OF tripleD [OF assms(1) \<open>P l\<close>]])
      (auto elim!: fin_mono intro: tripleD [OF assms(2)])
qed

lemma triple_try:
  assumes "triple C P p Q E'" and "\<And>e. triple C (E' e) (h e) Q E"
  shows "triple C P (prog_try p h) Q E"
proof (rule tripleI, unfold wp_try)
  fix l
  assume "P l"
  show "wp C p (fin (\<lambda>x. fin Q E (Inr x)) (\<lambda>e. wp C (h e) (fin Q E))) l"
    by (rule wp_mono [OF tripleD [OF assms(1) \<open>P l\<close>]])
      (auto elim!: fin_mono intro: tripleD [OF assms(2)])
qed

lemma triple_Ret [intro]: "(\<And>l. P l \<Longrightarrow> Q x l) \<Longrightarrow> triple C P (Ret x) Q E"
  by (simp add: triple_def)

lemma triple_Raise [intro]: "(\<And>l. P l \<Longrightarrow> E e l) \<Longrightarrow> triple C P (Raise e) Q E"
  by (simp add: triple_def)

lemma triple_of_py:
  "(\<And>x l. m = Inr x \<Longrightarrow> P l \<Longrightarrow> Q x l) \<Longrightarrow> (\<And>e l. m = Inl e \<Longrightarrow> P l \<Longrightarrow> E e l) \<Longrightarrow>
   triple C P (of_py m) Q E"
  by (cases m) auto

text \<open>Facts about values may be moved out of the precondition.\<close>

lemma triple_fact: "(F \<Longrightarrow> triple C P p Q E) \<Longrightarrow> triple C (\<lambda>l. F \<and> P l) p Q E"
  by (auto simp: triple_def)

subsection \<open>States inside a transaction\<close>

text \<open>
  \<open>tx L T\<close>: a live transaction whose content satisfies \<open>T\<close>, in a call that has committed
  the transactions \<open>L\<close>. \<open>broken L\<close>: inside a transaction that can only be rolled back.
  \<open>outside L\<close>: between transactions.
\<close>

definition tx :: "txn list \<Rightarrow> (txn \<Rightarrow> lstate \<Rightarrow> bool) \<Rightarrow> lstate \<Rightarrow> bool" where
  "tx L T l \<longleftrightarrow> l_log l = L \<and> (\<exists>t. l_txn l = Some t \<and> \<not> t_failed t \<and> T t l)"

definition broken :: "txn list \<Rightarrow> lstate \<Rightarrow> bool" where
  "broken L l \<longleftrightarrow> l_log l = L \<and> l_txn l \<noteq> None"

definition outside :: "txn list \<Rightarrow> lstate \<Rightarrow> bool" where
  "outside L l \<longleftrightarrow> l_log l = L \<and> l_txn l = None"

lemma tx_broken: "tx L T l \<Longrightarrow> broken L l"
  by (auto simp: tx_def broken_def)

lemma tx_mono: "tx L T l \<Longrightarrow> (\<And>t l. T t l \<Longrightarrow> T' t l) \<Longrightarrow> tx L T' l"
  by (auto simp: tx_def)

text \<open>One query inside a transaction: what it may reply is given by \<open>run_stmt\<close>.\<close>

lemma triple_query:
  assumes "s \<notin> {Begin, Commit, Rollback, Uuid4, Hook}"
    and step: "\<And>d t l now. \<lbrakk>good d l; l_txn l = Some t; \<not> t_failed t; T t l; l_clock l \<le> now\<rbrakk> \<Longrightarrow>
      (case fst (run_stmt d now s t) of
         R_Error e \<Rightarrow> True
       | r \<Rightarrow> (case f r of
            None \<Rightarrow> True
          | Some x \<Rightarrow> \<not> t_failed (snd (run_stmt d now s t)) \<and>
              T' x (snd (run_stmt d now s t))
                (l\<lparr>l_txn := Some (snd (run_stmt d now s t)), l_clock := now,
                   l_seen := l_seen l @ seen_by d r, l_rows := l_rows l @ row_shown d r\<rparr>)))"
  shows "triple C (tx L T) (query s f) (\<lambda>x. tx L (T' x)) (\<lambda>e. broken L)"
  unfolding triple_def
proof (intro allI impI)
  fix l
  assume "tx L T l"
  then obtain t where L: "l_log l = L" and t: "l_txn l = Some t" "\<not> t_failed t" "T t l"
    by (auto simp: tx_def)
  let ?Q = "fin (\<lambda>x. tx L (T' x)) (\<lambda>e. broken L)"
  have "wp C (after_query f r) ?Q l'"
    if g: "good d l" and e: "exec1 d s l c = Some (r, l')" for d c r l'
    using e
  proof (cases rule: exec1_cases)
    case (data t' now)
    from data(1) t(1) have tt: "t' = t" by simp
    from step [OF g t data(3)] L show ?thesis
      by (cases r) (auto simp: data(5,6) tt tx_def broken_def after_query_def
          split: option.splits reply.splits)
  next
    case (faulty t' e)
    then show ?thesis by (simp add: broken_def L)
  qed (use assms(1) t in auto)
  with assms(1) show "wp C (query s f) ?Q l" by (auto simp: query_def)
qed

lemma triple_uuid:
  "triple C (tx L T) (query Uuid4 reply_uuid) (\<lambda>u. tx L T) (\<lambda>e. broken L)"
  by (rule tripleI) (auto simp: query_def reply_uuid_def elim!: exec1_cases)


text \<open>
  A transaction block: its body starts with an empty transaction; what its commit leaves is
  the transaction \<open>t\<close> the body has built. An exception means nothing was committed, or that
  only the confirmation of the commit was lost.
\<close>

definition rolled_back ::
    "txn list \<Rightarrow> ('a \<Rightarrow> txn \<Rightarrow> bid_row list \<Rightarrow> bool) \<Rightarrow> py_exn \<Rightarrow> lstate \<Rightarrow> bool" where
  "rolled_back L R e l \<longleftrightarrow>
     outside L l \<or>
     (e = SqlError OperationalError \<and> (\<exists>x t. outside (L @ [t]) l \<and> R x t (l_seen l)))"

definition committed_as ::
    "txn list \<Rightarrow> ('a \<Rightarrow> txn \<Rightarrow> bid_row list \<Rightarrow> bool) \<Rightarrow> 'a \<Rightarrow> lstate \<Rightarrow> bool" where
  "committed_as L R x l \<longleftrightarrow> (\<exists>t. outside (L @ [t]) l \<and> R x t (l_seen l))"

lemma wp_commit:
  assumes "tx L (\<lambda>t l. C t \<and> R x t (l_seen l)) l"
  shows "wp C (Exec Commit (after_commit x)) (fin (committed_as L R) (rolled_back L R)) l"
  using assms
  by (auto simp: tx_def committed_as_def rolled_back_def outside_def elim!: exec1_cases)

lemma wp_rollback:
  assumes "broken L l"
  shows "wp C (Exec Rollback (\<lambda>_. Raise e)) (fin Q (rolled_back L R)) l"
  using assms by (auto simp: broken_def rolled_back_def outside_def elim!: exec1_cases)

lemma triple_transaction:
  assumes "triple C (tx L (\<lambda>t l. t = empty_txn)) p
      (\<lambda>x. tx L (\<lambda>t l. C t \<and> R x t (l_seen l))) (\<lambda>e. broken L)"
  shows "triple C (outside L) (in_transaction p) (committed_as L R) (rolled_back L R)"
proof (rule tripleI)
  fix l
  assume l: "outside L l"
  let ?Q = "fin (committed_as L R) (rolled_back L R)"
  have "wp C (close_transaction p) ?Q (l\<lparr>l_txn := Some empty_txn\<rparr>)"
  proof (unfold wp_close, rule wp_mono [OF tripleD [OF assms]])
    show "tx L (\<lambda>t l. t = empty_txn) (l\<lparr>l_txn := Some empty_txn\<rparr>)"
      using l by (simp add: tx_def outside_def empty_txn_def)
    show "fin (\<lambda>x. wp C (Exec Commit (after_commit x)) ?Q)
        (\<lambda>e. wp C (Exec Rollback (\<lambda>_. Raise e)) ?Q) r l'"
      if "fin (\<lambda>x. tx L (\<lambda>t l. C t \<and> R x t (l_seen l))) (\<lambda>e. broken L) r l'" for r l'
      using that by (cases r) (simp_all only: fin_simps, rule wp_rollback, assumption, rule wp_commit)
  qed
  then show "wp C (in_transaction p) ?Q l"
    using l by (auto simp: in_transaction_def outside_def rolled_back_def elim!: exec1_cases)
qed

end
