(* ===== verification/Strategy_Logic.thy ===== *)
theory Strategy_Logic
  imports Weakest_Precondition
begin

section \<open>What the bid transactions commit\<close>

text \<open>
  The rules of the calculus for the helpers of \<open>Strategies\<close>, and from them one triple per
  method. \<open>legal_txn W\<close> is what the two safe strategies commit: nothing, or one bid together
  with the update of the row version it was checked against, taken under the row's lock.
  \<open>W starts ends t\<close> is what is known of the recorded time of acceptance.
\<close>

definition accepting ::
    "(instant \<Rightarrow> instant \<Rightarrow> instant \<Rightarrow> bool) \<Rightarrow> auction_row \<Rightarrow> bid_row \<Rightarrow> txn \<Rightarrow> bool" where
  "accepting W r b t \<longleftrightarrow>
     t_new t = [] \<and> t_bids t = [b] \<and> r \<in> set (t_locks t) \<and>
     t_aucs t = [bid_set (rb_amount_cents b) (rb_id b) (ra_version r + 1) r] \<and>
     rb_auction_id b = ra_id r \<and> rb_auction_version b = ra_version r + 1 \<and>
     sql_required r \<le> rb_amount_cents b \<and>
     W (ra_starts_at r) (ra_ends_at r) (rb_accepted_at b)"

definition legal_txn :: "(instant \<Rightarrow> instant \<Rightarrow> instant \<Rightarrow> bool) \<Rightarrow> txn \<Rightarrow> bool" where
  "legal_txn W t \<longleftrightarrow>
     (\<forall>r \<in> set (t_new t). py_strip (ra_title r) = ra_title r) \<and>
     ((t_bids t = [] \<and> t_aucs t = []) \<or> (\<exists>r b. accepting W r b t))"

text \<open>The bid row carries the command's request.\<close>

definition carries :: "bid_command \<Rightarrow> bid_row \<Rightarrow> bool" where
  "carries cmd b \<longleftrightarrow>
     rb_request_id b = cmd_request_id cmd \<and> rb_auction_id b = cmd_auction_id cmd \<and>
     rb_bidder_id b = py_strip (cmd_bidder_id cmd) \<and> rb_amount_cents b = cmd_amount_cents cmd"

text \<open>How an outcome relates to the bids \<open>bs\<close> the call has committed and to those it was shown.\<close>

definition outcome_ok :: "bid_command \<Rightarrow> bid_row list \<Rightarrow> bid_row list \<Rightarrow> bid_outcome \<Rightarrow> bool" where
  "outcome_ok cmd bs seen r \<longleftrightarrow>
     valid_outcome r \<and>
     (case out_status r of
        ACCEPTED \<Rightarrow> (\<exists>b. bs = [b] \<and> out_bid r = Some (bid_of b) \<and> carries cmd b)
      | REPLAYED \<Rightarrow> bs = [] \<and>
          (\<exists>b \<in> set seen. out_bid r = Some (bid_of b) \<and> carries cmd b)
      | REJECTED \<Rightarrow> bs = [])"

lemma outcome_ok_rejected [simp]:
  "outcome_rejected reason m attempts conflicts = Inr r \<Longrightarrow> outcome_ok cmd [] seen r"
  by (auto simp: outcome_rejected_def make_bid_outcome_eq_Inr outcome_ok_def)

lemma outcome_ok_accepted:
  "outcome_accepted (bid_of b) attempts conflicts = Inr r \<Longrightarrow> carries cmd b \<Longrightarrow>
   outcome_ok cmd [b] seen r"
  by (auto simp: outcome_accepted_def make_bid_outcome_eq_Inr outcome_ok_def)

subsection \<open>States of a transaction\<close>

text \<open>
  \<open>clean K c\<close>: nothing written yet, the rows \<open>K\<close> locked, and the clock at least at \<open>c\<close>.
  \<open>inserted\<close>: the bid row is written. \<open>shown q bid\<close>: a committed bid with request \<open>q\<close>.
\<close>

definition clean :: "auction_row set \<Rightarrow> instant option \<Rightarrow> txn \<Rightarrow> lstate \<Rightarrow> bool" where
  "clean K c t l \<longleftrightarrow>
     t_bids t = [] \<and> t_new t = [] \<and> t_aucs t = [] \<and> K \<subseteq> set (t_locks t) \<and>
     (\<forall>x. c = Some x \<longrightarrow> x \<le> l_clock l)"

definition also_locked :: "bool \<Rightarrow> auction_row \<Rightarrow> auction_row set \<Rightarrow> auction_row set" where
  "also_locked lock r K = (if lock then insert r K else K)"

definition inserted ::
    "auction_row set \<Rightarrow> instant option \<Rightarrow> bid_command \<Rightarrow> uuid \<Rightarrow> int \<Rightarrow> accepted_bid
     \<Rightarrow> txn \<Rightarrow> lstate \<Rightarrow> bool" where
  "inserted K c cmd i v bid t l \<longleftrightarrow>
     (\<exists>b. bid = bid_of b \<and> t_bids t = [b] \<and> t_new t = [] \<and> t_aucs t = [] \<and>
        K \<subseteq> set (t_locks t) \<and> carries cmd b \<and> rb_id b = i \<and> rb_auction_version b = v \<and>
        (\<forall>x. c = Some x \<longrightarrow> x \<le> rb_accepted_at b) \<and> rb_accepted_at b \<le> l_clock l)"

definition shown :: "uuid \<Rightarrow> accepted_bid \<Rightarrow> bid_row list \<Rightarrow> bool" where
  "shown q bid seen \<longleftrightarrow> (\<exists>b \<in> set seen. bid = bid_of b \<and> rb_request_id b = q)"

lemma shown_mono: "shown q bid seen \<Longrightarrow> shown q bid (seen @ xs)"
  by (auto simp: shown_def)

lemma replay_or_reject_ok:
  assumes "shown (cmd_request_id cmd) bid seen" "replay_or_reject bid cmd = Inr r"
  shows "outcome_ok cmd [] seen r"
proof (cases "same_payload bid cmd")
  case True
  with assms show ?thesis
    by (auto simp: replay_or_reject_def outcome_replayed_def make_bid_outcome_eq_Inr outcome_ok_def
        shown_def same_payload_def carries_def)
qed (use assms in \<open>auto simp: replay_or_reject_def outcome_ok_def valid_outcome_def\<close>)

text \<open>An auction that was read: the row it came from was shown to the call.\<close>

definition read_row :: "uuid \<Rightarrow> auction_snapshot \<Rightarrow> auction_row \<Rightarrow> lstate \<Rightarrow> bool" where
  "read_row a au r l \<longleftrightarrow> au = snapshot_of r \<and> ra_id r = a \<and> valid_snapshot au \<and> r \<in> set (l_rows l)"

lemma triple_tx_ex:
  assumes "\<And>r. triple C (tx L (T r)) p Q E"
  shows "triple C (tx L (\<lambda>t l. \<exists>r. T r t l)) p Q E"
proof (rule tripleI)
  fix l
  assume "tx L (\<lambda>t l. \<exists>r. T r t l) l"
  then obtain r where "tx L (T r) l" by (auto simp: tx_def)
  with assms show "wp C p (fin Q E) l" by (rule tripleD)
qed

lemma triple_tx_fact:
  assumes "F \<Longrightarrow> triple C (tx L T) p Q E"
  shows "triple C (tx L (\<lambda>t l. F \<and> T t l)) p Q E"
proof (rule tripleI)
  fix l
  assume "tx L (\<lambda>t l. F \<and> T t l) l"
  then have F "tx L T l" by (auto simp: tx_def)
  with assms show "wp C p (fin Q E) l" by (auto dest: tripleD)
qed

subsection \<open>The helpers\<close>

lemma triple_existing_bid:
  assumes mono: "\<And>t l l'. T t l \<Longrightarrow> l_clock l \<le> l_clock l' \<Longrightarrow> set (l_rows l) \<subseteq> set (l_rows l') \<Longrightarrow> T t l'"
    and none: "\<And>t l. T t l \<Longrightarrow> t_bids t = []"
  shows "triple C (tx L T) (existing_bid q)
     (\<lambda>ex. tx L (\<lambda>t l. T t l \<and> (\<forall>bid. ex = Some bid \<longrightarrow> shown q bid (l_seen l)))) (\<lambda>e. broken L)"
  unfolding existing_bid_def
proof (rule triple_bind)
  let ?R = "\<lambda>row t l. T t l \<and> (\<forall>b. row = Some b \<longrightarrow> b \<in> set (l_seen l) \<and> rb_request_id b = q)"
  show "triple C (tx L T) (query (Select_Bid_By_Request q) reply_bid) (\<lambda>row. tx L (?R row))
      (\<lambda>e. broken L)"
    by (rule triple_query)
      (auto simp: reply_bid_def visible_bids_def seen_by_def row_shown_def none dest: find_SomeD
        intro: mono split: option.splits)
  show "triple C (tx L (?R row))
      (case row of None \<Rightarrow> Ret None
       | Some b \<Rightarrow> prog_bind (of_py (bid_from_row b)) (\<lambda>bid. Ret (Some bid)))
      (\<lambda>ex. tx L (\<lambda>t l. T t l \<and> (\<forall>bid. ex = Some bid \<longrightarrow> shown q bid (l_seen l)))) (\<lambda>e. broken L)" for row
  proof (cases row)
    case None
    then show ?thesis by (auto elim!: tx_mono)
  next
    case (Some b)
    have "bid_from_row b = Inr x \<Longrightarrow> x = bid_of b" for x
      by (auto simp: bid_from_row_def make_accepted_bid_eq_Inr bid_of_def)
    then show ?thesis
      by (cases "bid_from_row b") (auto simp: Some shown_def elim!: tx_mono intro: tx_broken)
  qed
qed

lemma triple_read_auction:
  "triple C (tx L (clean K c)) (read_auction a lock)
     (\<lambda>found. tx L (\<lambda>t l. case found of
        None \<Rightarrow> clean K c t l
      | Some au \<Rightarrow> \<exists>r. read_row a au r l \<and> clean (also_locked lock r K) c t l))
     (\<lambda>e. broken L)"
  unfolding read_auction_def
proof (rule triple_bind)
  let ?R = "\<lambda>row t l. case row of None \<Rightarrow> clean K c t l
    | Some r \<Rightarrow> ra_id r = a \<and> r \<in> set (l_rows l) \<and> clean (also_locked lock r K) c t l"
  show "triple C (tx L (clean K c)) (query (Select_Auction a lock) reply_auction)
      (\<lambda>row. tx L (?R row)) (\<lambda>e. broken L)"
  proof (rule triple_query)
    fix d t l now
    assume *: "good d l" "l_txn l = Some t" "\<not> t_failed t" "clean K c t l" "l_clock l \<le> now"
    then have d: "db_wf d" "txn_ok d t" by (auto simp: good_def)
    let ?s = "Select_Auction a lock"
    show "case fst (run_stmt d now ?s t) of
        R_Error e \<Rightarrow> True
      | r \<Rightarrow> (case reply_auction r of None \<Rightarrow> True
         | Some x \<Rightarrow> \<not> t_failed (snd (run_stmt d now ?s t)) \<and>
             ?R x (snd (run_stmt d now ?s t))
               (l\<lparr>l_txn := Some (snd (run_stmt d now ?s t)), l_clock := now,
                  l_seen := l_seen l @ seen_by d r, l_rows := l_rows l @ row_shown d r\<rparr>))"
    proof (cases "auctions d a")
      case None
      with * show ?thesis by (auto simp: clean_def reply_auction_def)
    next
      case (Some r)
      with * db_wfD(1) [OF d(1) Some] lock_auction_locks [OF d Some]
      show ?thesis
        by (auto simp: clean_def reply_auction_def row_shown_def also_locked_def
            intro: subsetD [OF lock_auction_simps(5)])
    qed
  qed auto
  show "triple C (tx L (?R row))
      (case row of None \<Rightarrow> Ret None
       | Some r \<Rightarrow> prog_bind (of_py (auction_from_row r)) (\<lambda>auction. Ret (Some auction)))
      (\<lambda>found. tx L (\<lambda>t l. case found of
        None \<Rightarrow> clean K c t l
      | Some au \<Rightarrow> \<exists>r. read_row a au r l \<and> clean (also_locked lock r K) c t l))
      (\<lambda>e. broken L)" for row
  proof (cases row)
    case (Some r)
    show ?thesis
    proof (cases "auction_from_row r")
      case (Inr au)
      from auction_from_row_Inr [OF this] have "au = snapshot_of r" "valid_snapshot (snapshot_of r)" by auto
      with Some Inr show ?thesis by (auto simp: read_row_def intro!: triple_Ret elim!: tx_mono)
    qed (auto simp: Some intro: tx_broken)
  qed auto
qed

lemma triple_database_time:
  assumes mono: "\<And>t l l'. T t l \<Longrightarrow> l_clock l \<le> l_clock l' \<Longrightarrow> set (l_rows l) \<subseteq> set (l_rows l') \<Longrightarrow> T t l'"
  shows "triple C (tx L T) database_time (\<lambda>now. tx L (\<lambda>t l. T t l \<and> now \<le> l_clock l)) (\<lambda>e. broken L)"
  unfolding database_time_def
  by (rule triple_query) (auto simp: reply_time_def row_shown_def intro: mono)

lemma triple_insert_bid:
  "triple C (tx L (\<lambda>t l. clean K c t l \<and> r \<in> set (l_rows l))) (insert_bid cmd i v)
     (\<lambda>bid. tx L (\<lambda>t l. inserted K c cmd i v bid t l \<and> r \<in> set (l_rows l))) (\<lambda>e. broken L)"
  unfolding insert_bid_def
proof (rule triple_bind)
  let ?R = "\<lambda>row t l. \<forall>b. row = Some b \<longrightarrow> inserted K c cmd i v (bid_of b) t l \<and> r \<in> set (l_rows l)"
  show "triple C (tx L (\<lambda>t l. clean K c t l \<and> r \<in> set (l_rows l)))
      (query (Insert_Bid i (cmd_request_id cmd) (cmd_auction_id cmd) (py_strip (cmd_bidder_id cmd))
         (cmd_amount_cents cmd) v) reply_bid) (\<lambda>row. tx L (?R row)) (\<lambda>e. broken L)"
    by (rule triple_query)
      (auto simp: reply_bid_def insert_bid_row_def Let_def clean_def inserted_def carries_def
        fail_txn_def intro: order_trans split: option.splits)
  show "triple C (tx L (?R row))
      (case row of None \<Rightarrow> Raise AssertionError | Some b \<Rightarrow> of_py (bid_from_row b))
      (\<lambda>bid. tx L (\<lambda>t l. inserted K c cmd i v bid t l \<and> r \<in> set (l_rows l))) (\<lambda>e. broken L)" for row
  proof (cases row)
    case (Some b)
    have "bid_from_row b = Inr x \<Longrightarrow> x = bid_of b" for x
      by (auto simp: bid_from_row_def make_accepted_bid_eq_Inr bid_of_def)
    then show ?thesis
      by (auto simp: Some intro!: triple_of_py elim!: tx_mono intro: tx_broken)
  qed (auto intro: tx_broken)
qed

lemma triple_reject_evaluation:
  "(\<And>t l x. T t l \<Longrightarrow> outcome_ok cmd [] (l_seen l) x \<Longrightarrow> T' x t l) \<Longrightarrow>
   triple C (tx L T) (reject_evaluation ev attempts conflicts)
     (\<lambda>x. tx L (T' x)) (\<lambda>e. broken L)"
  unfolding reject_evaluation_def
  by (cases "ev_rejection_reason ev") (auto intro!: triple_of_py intro: tx_broken elim!: tx_mono)


subsection \<open>The writes\<close>

lemma sql_required_eq: "sql_required r = required_amount (snapshot_of r)"
  by (simp add: sql_required_def required_amount_def split: option.split)

text \<open>Under the lock, the UPDATE of the pessimistic strategy rewrites the row that was read.\<close>

lemma triple_update_bump:
  assumes "r \<in> K" and "ra_id r = cmd_auction_id cmd"
    and "sql_required r \<le> cmd_amount_cents cmd"
    and "\<And>t. now \<le> t \<Longrightarrow> W (ra_starts_at r) (ra_ends_at r) t"
  shows "triple C
     (tx L (\<lambda>t l. inserted K (Some now) cmd i (ra_version r + 1) bid t l \<and> x \<in> set (l_rows l)))
     (query (Update_Bump (cmd_auction_id cmd) (cmd_amount_cents cmd) i) reply_unit)
     (\<lambda>_. tx L (\<lambda>t l. \<exists>b. bid = bid_of b \<and> carries cmd b \<and> accepting W r b t)) (\<lambda>e. broken L)"
proof (rule triple_query)
  fix d t l now'
  assume *: "good d l" "l_txn l = Some t" "\<not> t_failed t"
    "inserted K (Some now) cmd i (ra_version r + 1) bid t l \<and> x \<in> set (l_rows l)" "l_clock l \<le> now'"
  then have d: "db_wf d" "txn_ok d t" by (auto simp: good_def)
  from * obtain b where b: "bid = bid_of b" "t_bids t = [b]" "t_new t = []" "t_aucs t = []"
    "K \<subseteq> set (t_locks t)" "carries cmd b" "rb_id b = i" "rb_auction_version b = ra_version r + 1"
    "now \<le> rb_accepted_at b"
    by (auto simp: inserted_def)
  have r: "r \<in> set (t_locks t)" using b(5) assms(1) by blast
  with d(2) assms(2) have cr: "auctions d (cmd_auction_id cmd) = Some r"
    by (auto simp: txn_ok_def)
  have locked: "r \<in> set (t_locks (lock_auction d (cmd_auction_id cmd) t))"
    using r by (rule subsetD [OF lock_auction_simps(5)])
  let ?s = "Update_Bump (cmd_auction_id cmd) (cmd_amount_cents cmd) i"
  show "case fst (run_stmt d now' ?s t) of
      R_Error e \<Rightarrow> True
    | rep \<Rightarrow> (case reply_unit rep of None \<Rightarrow> True
       | Some x \<Rightarrow> \<not> t_failed (snd (run_stmt d now' ?s t)) \<and>
           (\<exists>b. bid = bid_of b \<and> carries cmd b \<and>
              accepting W r b (snd (run_stmt d now' ?s t))))"
    using * b cr locked assms(2-4)
    by (auto simp: update_auction_def update_row_def put_auction_def accepting_def
        carries_def fail_txn_def)
qed auto


text \<open>
  The guarded UPDATE of the optimistic strategy locks and rewrites a row whose version is the
  observed one; its own conditions give the price rule and the closing time, and the row that
  was read, whose terms are the same, the opening time.
\<close>

definition within :: "instant \<Rightarrow> instant \<Rightarrow> instant \<Rightarrow> bool" where
  "within starts ends t \<longleftrightarrow> starts \<le> t \<and> t < ends"

definition not_before :: "instant \<Rightarrow> instant \<Rightarrow> instant \<Rightarrow> bool" where
  "not_before starts ends t \<longleftrightarrow> starts \<le> t"

lemma triple_update_guarded:
  assumes "ra_id x = cmd_auction_id cmd" and "ra_starts_at x \<le> now"
  shows "triple C
     (tx L (\<lambda>t l. inserted {} (Some now) cmd i (ra_version x + 1) bid t l \<and> x \<in> set (l_rows l)))
     (query (Update_Guarded (cmd_auction_id cmd) (cmd_amount_cents cmd) i (ra_version x)) reply_version)
     (\<lambda>row. tx L (\<lambda>t l. \<forall>v. row = Some v \<longrightarrow>
        (\<exists>r b. bid = bid_of b \<and> carries cmd b \<and> accepting within r b t))) (\<lambda>e. broken L)"
proof (rule triple_query)
  fix d t l now'
  assume *: "good d l" "l_txn l = Some t" "\<not> t_failed t"
    "inserted {} (Some now) cmd i (ra_version x + 1) bid t l \<and> x \<in> set (l_rows l)" "l_clock l \<le> now'"
  then have d: "db_wf d" "txn_ok d t" by (auto simp: good_def)
  from * obtain b where b: "bid = bid_of b" "t_bids t = [b]" "t_new t = []" "t_aucs t = []"
    "carries cmd b" "rb_id b = i" "rb_auction_version b = ra_version x + 1"
    "now \<le> rb_accepted_at b" "rb_accepted_at b \<le> l_clock l"
    by (auto simp: inserted_def)
  from * obtain r where r: "auctions d (cmd_auction_id cmd) = Some r" "same_terms x r"
    using assms(1) by (auto simp: good_def)
  have locked: "r \<in> set (t_locks (lock_auction d (cmd_auction_id cmd) t))"
    using lock_auction_locks [OF d r(1)] .
  have rid: "ra_id r = cmd_auction_id cmd" using same_termsD(1) [OF r(2)] assms(1) by simp
  have open_now: "ra_starts_at r \<le> rb_accepted_at b"
    using same_termsD(2) [OF r(2)] assms(2) b(8) by simp
  have acc: "accepting within r b
      (put_auction (bid_set (cmd_amount_cents cmd) i (ra_version r + 1) r)
        (lock_auction d (cmd_auction_id cmd) t))"
    if "update_guard r (cmd_amount_cents cmd) (ra_version x) now'"
    using that b *(5) locked rid open_now
    by (auto simp: accepting_def put_auction_def update_guard_def carries_def within_def)
  let ?s = "Update_Guarded (cmd_auction_id cmd) (cmd_amount_cents cmd) i (ra_version x)"
  show "case fst (run_stmt d now' ?s t) of
      R_Error e \<Rightarrow> True
    | rep \<Rightarrow> (case reply_version rep of None \<Rightarrow> True
       | Some row \<Rightarrow> \<not> t_failed (snd (run_stmt d now' ?s t)) \<and>
           (\<forall>v. row = Some v \<longrightarrow> (\<exists>r b. bid = bid_of b \<and> carries cmd b \<and>
              accepting within r b (snd (run_stmt d now' ?s t)))))"
    using *(3) b(1,3,4,5) r(1) rid acc
    by (auto simp: update_auction_def update_row_def put_auction_def fail_txn_def reply_version_def)
qed auto

subsection \<open>The three methods\<close>

text \<open>What a transaction body leaves when it returns an outcome.\<close>

definition body_post ::
    "bid_command \<Rightarrow> bid_outcome \<Rightarrow> txn \<Rightarrow> bid_row list \<Rightarrow> bool" where
  "body_post cmd r t seen \<longleftrightarrow> outcome_ok cmd (t_bids t) seen r"

lemma clean_legal: "clean K c t l \<Longrightarrow> legal_txn W t"
  by (simp add: clean_def legal_txn_def)

lemma accepting_legal: "accepting W r b t \<Longrightarrow> legal_txn W t"
  by (auto simp: accepting_def legal_txn_def)

lemma clean_stable:
  "clean K c t l \<Longrightarrow> l_clock l \<le> l_clock l' \<Longrightarrow> clean K c t l'"
  by (auto simp: clean_def intro: order_trans)

lemma clean_bids: "clean K c t l \<Longrightarrow> t_bids t = []"
  by (simp add: clean_def)

lemma clean_at: "clean K None t l \<Longrightarrow> now \<le> l_clock l \<Longrightarrow> clean K (Some now) t l"
  by (simp add: clean_def)

lemma clean_empty: "t = empty_txn \<Longrightarrow> clean {} None t l"
  by (simp add: clean_def empty_txn_def)

lemma triple_outcome:
  assumes "\<And>r t l. m = Inr r \<Longrightarrow> T t l \<Longrightarrow> legal_txn W t \<and> body_post cmd r t (l_seen l)"
  shows "triple C (tx L T) (of_py m)
    (\<lambda>r. tx L (\<lambda>t l. legal_txn W t \<and> body_post cmd r t (l_seen l))) (\<lambda>e. broken L)"
  by (rule triple_of_py) (auto intro: tx_broken elim!: tx_mono dest: assms)

lemma evaluation_facts:
  assumes "valid_snapshot (snapshot_of r)"
    and "evaluate_bid (snapshot_of r) (PyInt amount) (Aware now) = Inr ev" "ev_accepted ev"
  shows "sql_required r \<le> amount" "ra_starts_at r \<le> now"
  using evaluate_bid_accepted [OF assms] by (auto simp: in_window_def sql_required_eq)

lemma pessimistic_accept_triple:
  assumes "r \<in> K" "ra_id r = cmd_auction_id cmd" "sql_required r \<le> cmd_amount_cents cmd"
    "ra_starts_at r \<le> now"
  shows "triple C (tx L (\<lambda>t l. clean K (Some now) t l \<and> x \<in> set (l_rows l)))
    (pessimistic_accept cmd (snapshot_of r))
    (\<lambda>x. tx L (\<lambda>t l. legal_txn not_before t \<and> body_post cmd x t (l_seen l))) (\<lambda>e. broken L)"
  unfolding pessimistic_accept_def snapshot_of_simps
proof (rule triple_bind [OF triple_uuid], rule triple_bind [OF triple_insert_bid],
    rule triple_bind [OF triple_update_bump [where W = not_before and now = now, OF assms(1-3)]])
  show "not_before (ra_starts_at r) (ra_ends_at r) t" if "now \<le> t" for t
    using that assms(4) by (simp add: not_before_def)
  show "triple C (tx L (\<lambda>t l. \<exists>b. bid = bid_of b \<and> carries cmd b \<and> accepting not_before r b t))
      (of_py (outcome_accepted bid 1 0))
      (\<lambda>x. tx L (\<lambda>t l. legal_txn not_before t \<and> body_post cmd x t (l_seen l))) (\<lambda>e. broken L)" for bid
    by (rule triple_outcome)
      (auto simp: body_post_def accepting_def [where t = t for t] outcome_ok_def valid_outcome_def
        intro: accepting_legal)
qed

lemma triple_of_py_bind:
  "(\<And>x. m = Inr x \<Longrightarrow> triple C P (f x) Q E) \<Longrightarrow> (\<And>e l. P l \<Longrightarrow> E e l) \<Longrightarrow>
   triple C P (prog_bind (of_py m) f) Q E"
  by (cases m) auto

lemma triple_pre:
  "triple C (tx L T') p Q E \<Longrightarrow> (\<And>t l. T t l \<Longrightarrow> T' t l) \<Longrightarrow> triple C (tx L T) p Q E"
  by (erule triple_conseq) (auto elim: tx_mono)

lemma triple_replay:
  assumes "\<And>t l. T t l \<Longrightarrow> clean K c t l \<and> shown (cmd_request_id cmd) bid (l_seen l)"
  shows "triple C (tx L T) (of_py (replay_or_reject bid cmd))
    (\<lambda>x. tx L (\<lambda>t l. legal_txn W t \<and> body_post cmd x t (l_seen l))) (\<lambda>e. broken L)"
  by (rule triple_outcome)
    (use assms in \<open>force simp: body_post_def clean_def intro: clean_legal replay_or_reject_ok\<close>)

lemma triple_rejected:
  assumes "\<And>t l. T t l \<Longrightarrow> clean K c t l"
  shows "triple C (tx L T) (of_py (outcome_rejected reason m attempts conflicts))
    (\<lambda>x. tx L (\<lambda>t l. legal_txn W t \<and> body_post cmd x t (l_seen l))) (\<lambda>e. broken L)"
  by (rule triple_outcome)
    (use assms in \<open>force simp: body_post_def clean_def intro: clean_legal outcome_ok_rejected\<close>)

lemma triple_rejected_evaluation:
  assumes "\<And>t l. T t l \<Longrightarrow> clean K c t l"
  shows "triple C (tx L T) (reject_evaluation ev attempts conflicts)
    (\<lambda>x. tx L (\<lambda>t l. legal_txn W t \<and> body_post cmd x t (l_seen l))) (\<lambda>e. broken L)"
  by (rule triple_reject_evaluation [where cmd = cmd])
    (use assms in \<open>force simp: body_post_def clean_def intro: clean_legal\<close>)

text \<open>The two reads every transaction branches on, with their branches.\<close>

lemma triple_request_branches:
  assumes "\<And>t l l'. T t l \<Longrightarrow> l_clock l \<le> l_clock l' \<Longrightarrow> set (l_rows l) \<subseteq> set (l_rows l') \<Longrightarrow> T t l'"
    and "\<And>t l. T t l \<Longrightarrow> t_bids t = []"
    and "\<And>bid. triple C (tx L (\<lambda>t l. T t l \<and> shown q bid (l_seen l))) (g bid) Q (\<lambda>e. broken L)"
    and "triple C (tx L T) p Q (\<lambda>e. broken L)"
  shows "triple C (tx L T)
    (prog_bind (existing_bid q) (\<lambda>existing. case existing of None \<Rightarrow> p | Some bid \<Rightarrow> g bid)) Q
    (\<lambda>e. broken L)"
proof (rule triple_bind [OF triple_existing_bid])
  show "triple C (tx L (\<lambda>t l. T t l \<and> (\<forall>bid. existing = Some bid \<longrightarrow> shown q bid (l_seen l))))
      (case existing of None \<Rightarrow> p | Some bid \<Rightarrow> g bid) Q (\<lambda>e. broken L)" for existing
    using assms(3,4) by (cases existing) auto
qed (use assms(1,2) in auto)

lemma triple_auction_branches:
  assumes "triple C (tx L (clean K c)) p Q (\<lambda>e. broken L)"
    and "\<And>r. ra_id r = a \<Longrightarrow> valid_snapshot (snapshot_of r) \<Longrightarrow>
      triple C (tx L (\<lambda>t l. clean (also_locked lock r K) c t l \<and> r \<in> set (l_rows l)))
        (f (snapshot_of r)) Q (\<lambda>e. broken L)"
  shows "triple C (tx L (clean K c))
    (prog_bind (read_auction a lock) (\<lambda>found. case found of None \<Rightarrow> p | Some au \<Rightarrow> f au)) Q
    (\<lambda>e. broken L)"
proof (rule triple_bind [OF triple_read_auction])
  have some: "triple C (tx L (\<lambda>t l. read_row a au r l \<and> clean (also_locked lock r K) c t l))
      (f au) Q (\<lambda>e. broken L)" for au r
  proof (rule triple_pre [where T' = "\<lambda>t l. (au = snapshot_of r \<and> ra_id r = a \<and>
        valid_snapshot (snapshot_of r)) \<and> clean (also_locked lock r K) c t l \<and> r \<in> set (l_rows l)"],
      rule triple_tx_fact)
    assume "au = snapshot_of r \<and> ra_id r = a \<and> valid_snapshot (snapshot_of r)"
    with assms(2) [of r]
    show "triple C (tx L (\<lambda>t l. clean (also_locked lock r K) c t l \<and> r \<in> set (l_rows l))) (f au) Q
        (\<lambda>e. broken L)"
      by simp
  qed (auto simp: read_row_def)
  show "triple C (tx L (\<lambda>t l. case found of
        None \<Rightarrow> clean K c t l
      | Some au \<Rightarrow> \<exists>r. read_row a au r l \<and> clean (also_locked lock r K) c t l))
      (case found of None \<Rightarrow> p | Some au \<Rightarrow> f au) Q (\<lambda>e. broken L)" for found
    using assms(1) by (cases found) (auto intro: triple_tx_ex some)
qed

lemma pessimistic_locked_triple:
  assumes "r \<in> K" "ra_id r = cmd_auction_id cmd" "valid_snapshot (snapshot_of r)"
  shows "triple C (tx L (\<lambda>t l. clean K None t l \<and> r \<in> set (l_rows l)))
    (pessimistic_locked cmd (snapshot_of r))
    (\<lambda>x. tx L (\<lambda>t l. legal_txn not_before t \<and> body_post cmd x t (l_seen l))) (\<lambda>e. broken L)"
    (is "triple C _ _ ?Q ?E")
  unfolding pessimistic_locked_def
proof (rule triple_bind [OF triple_database_time])
  fix now
  let ?N = "\<lambda>t l. clean K (Some now) t l \<and> r \<in> set (l_rows l)"
  have accept: "triple C (tx L ?N)
      (if \<not> ev_accepted ev then reject_evaluation ev 1 0 else pessimistic_accept cmd (snapshot_of r)) ?Q ?E"
    if "evaluate_bid (snapshot_of r) (PyInt (cmd_amount_cents cmd)) (Aware now) = Inr ev" for ev
  proof (cases "ev_accepted ev")
    case True
    with pessimistic_accept_triple [OF assms(1,2) evaluation_facts [OF assms(3) that True]]
    show ?thesis by simp
  qed (auto intro: triple_rejected_evaluation)
  show "triple C (tx L (\<lambda>t l. (clean K None t l \<and> r \<in> set (l_rows l)) \<and> now \<le> l_clock l))
      (prog_bind (existing_bid (cmd_request_id cmd)) (\<lambda>existing.
        case existing of
          None \<Rightarrow>
            prog_bind (of_py (evaluate_bid (snapshot_of r) (PyInt (cmd_amount_cents cmd)) (Aware now)))
              (\<lambda>ev. if \<not> ev_accepted ev then reject_evaluation ev 1 0
                else pessimistic_accept cmd (snapshot_of r))
        | Some bid \<Rightarrow> of_py (replay_or_reject bid cmd))) ?Q ?E"
    by (rule triple_pre [where T' = ?N], rule triple_request_branches)
      (auto intro: clean_stable clean_at clean_bids
        intro!: triple_of_py_bind accept triple_replay tx_broken split del: if_split)
qed (auto intro: clean_stable)

lemma pessimistic_transaction_triple:
  "triple C (tx L (\<lambda>t l. t = empty_txn)) (pessimistic_transaction cmd)
    (\<lambda>x. tx L (\<lambda>t l. legal_txn not_before t \<and> body_post cmd x t (l_seen l))) (\<lambda>e. broken L)"
  unfolding pessimistic_transaction_def
proof (rule triple_pre [where T' = "clean {} None"], rule triple_request_branches)
  show "triple C (tx L (clean {} None))
      (prog_bind (read_auction (cmd_auction_id cmd) True) (\<lambda>found.
        case found of
          None \<Rightarrow> of_py (outcome_rejected AUCTION_NOT_FOUND None 1 0)
        | Some auction \<Rightarrow> pessimistic_locked cmd auction))
      (\<lambda>x. tx L (\<lambda>t l. legal_txn not_before t \<and> body_post cmd x t (l_seen l))) (\<lambda>e. broken L)"
    by (rule triple_auction_branches)
      (auto simp: also_locked_def simp del: outcome_classmethods
        intro!: triple_rejected pessimistic_locked_triple)
qed (auto intro: clean_stable triple_replay clean_bids simp: clean_empty)

lemma optimistic_accept_triple:
  assumes "ra_id r = cmd_auction_id cmd" "ra_starts_at r \<le> now" "0 < attempt"
  shows "triple C (tx L (\<lambda>t l. clean {} (Some now) t l \<and> r \<in> set (l_rows l)))
    (optimistic_accept cmd attempt (snapshot_of r))
    (\<lambda>x. tx L (\<lambda>t l. legal_txn within t \<and> body_post cmd x t (l_seen l))) (\<lambda>e. broken L)"
    (is "triple C _ _ ?Q ?E")
  unfolding optimistic_accept_def snapshot_of_simps
proof (rule triple_bind [OF triple_uuid], rule triple_bind [OF triple_insert_bid],
    rule triple_bind [OF triple_update_guarded [OF assms(1,2)]])
  fix bid i row
  let ?T = "\<lambda>t l. \<forall>v. row = Some v \<longrightarrow> (\<exists>r b. bid = bid_of b \<and> carries cmd b \<and> accepting within r b t)"
  show "triple C (tx L ?T)
      (case row of None \<Rightarrow> Raise (OptimisticMiss (ra_version r))
       | Some version \<Rightarrow> of_py (outcome_accepted bid attempt (attempt - 1))) ?Q ?E"
  proof (cases row)
    case (Some v)
    have "triple C (tx L ?T) (of_py (outcome_accepted bid attempt (attempt - 1))) ?Q ?E"
      by (rule triple_outcome)
        (use assms(3) in \<open>auto simp: Some body_post_def accepting_def [where t = t for t]
          outcome_ok_def valid_outcome_def intro: accepting_legal\<close>)
    then show ?thesis by (simp add: Some)
  qed (auto intro: tx_broken)
qed

lemma triple_replay_attempt:
  assumes "\<And>t l. T t l \<Longrightarrow> clean K c t l \<and> shown (cmd_request_id cmd) bid (l_seen l)" "0 < attempt"
  shows "triple C (tx L T)
    (prog_bind (of_py (replay_or_reject bid cmd)) (\<lambda>outcome.
     of_py (make_bid_outcome (out_status outcome) (out_bid outcome)
       (out_rejection_reason outcome) (out_minimum_acceptable_cents outcome)
       attempt (attempt - 1))))
    (\<lambda>x. tx L (\<lambda>t l. legal_txn W t \<and> body_post cmd x t (l_seen l))) (\<lambda>e. broken L)"
proof (rule triple_of_py_bind)
  fix y
  assume y: "replay_or_reject bid cmd = Inr y"
  show "triple C (tx L T)
      (of_py (make_bid_outcome (out_status y) (out_bid y) (out_rejection_reason y)
        (out_minimum_acceptable_cents y) attempt (attempt - 1)))
      (\<lambda>x. tx L (\<lambda>t l. legal_txn W t \<and> body_post cmd x t (l_seen l))) (\<lambda>e. broken L)"
  proof (rule triple_outcome)
    fix x t l
    assume x: "make_bid_outcome (out_status y) (out_bid y) (out_rejection_reason y)
        (out_minimum_acceptable_cents y) attempt (attempt - 1) = Inr x" and T: "T t l"
    from assms(1) [OF T] y have "outcome_ok cmd [] (l_seen l) y"
      by (auto intro: replay_or_reject_ok)
    with x have "outcome_ok cmd [] (l_seen l) x"
      by (auto simp: make_bid_outcome_eq_Inr outcome_ok_def split: bid_outcome_status.splits)
    with assms(1) [OF T] show "legal_txn W t \<and> body_post cmd x t (l_seen l)"
      by (auto simp: body_post_def intro: clean_legal dest: clean_bids)
  qed
qed (auto intro: tx_broken)

lemma optimistic_transaction_triple:
  assumes "0 < attempt"
  shows "triple C (tx L (\<lambda>t l. t = empty_txn)) (optimistic_transaction cmd attempt)
    (\<lambda>x. tx L (\<lambda>t l. legal_txn within t \<and> body_post cmd x t (l_seen l))) (\<lambda>e. broken L)"
    (is "triple C _ _ ?Q ?E")
  unfolding optimistic_transaction_def
proof (rule triple_pre [where T' = "clean {} None"], rule triple_request_branches)
  have timed: "triple C (tx L (\<lambda>t l. clean {} None t l \<and> r \<in> set (l_rows l)))
      (prog_bind database_time (\<lambda>now.
        prog_bind (of_py (evaluate_bid (snapshot_of r) (PyInt (cmd_amount_cents cmd)) (Aware now)))
          (\<lambda>ev. if \<not> ev_accepted ev then reject_evaluation ev attempt 0
            else optimistic_accept cmd attempt (snapshot_of r)))) ?Q ?E"
    if r: "ra_id r = cmd_auction_id cmd" "valid_snapshot (snapshot_of r)" for r
  proof (rule triple_bind [OF triple_database_time])
    fix now
    show "triple C (tx L (\<lambda>t l. (clean {} None t l \<and> r \<in> set (l_rows l)) \<and> now \<le> l_clock l))
      (prog_bind (of_py (evaluate_bid (snapshot_of r) (PyInt (cmd_amount_cents cmd)) (Aware now)))
          (\<lambda>ev. if \<not> ev_accepted ev then reject_evaluation ev attempt 0
            else optimistic_accept cmd attempt (snapshot_of r))) ?Q ?E"
    proof (rule triple_pre [where T' = "\<lambda>t l. clean {} (Some now) t l \<and> r \<in> set (l_rows l)"],
        rule triple_of_py_bind)
      fix ev
      assume ev: "evaluate_bid (snapshot_of r) (PyInt (cmd_amount_cents cmd)) (Aware now) = Inr ev"
      show "triple C (tx L (\<lambda>t l. clean {} (Some now) t l \<and> r \<in> set (l_rows l)))
          (if \<not> ev_accepted ev then reject_evaluation ev attempt 0
           else optimistic_accept cmd attempt (snapshot_of r)) ?Q ?E"
        using optimistic_accept_triple [OF r(1) evaluation_facts(2) [OF r(2) ev] assms]
        by (cases "ev_accepted ev") (auto intro: triple_rejected_evaluation)
    qed (auto intro: tx_broken clean_at)
  qed (auto intro: clean_stable)
  show "triple C (tx L (clean {} None))
      (prog_bind (read_auction (cmd_auction_id cmd) False) (\<lambda>found.
        case found of
          None \<Rightarrow> of_py (outcome_rejected AUCTION_NOT_FOUND None attempt 0)
        | Some auction \<Rightarrow>
            prog_bind database_time (\<lambda>now.
            prog_bind
              (of_py (evaluate_bid auction (PyInt (cmd_amount_cents cmd)) (Aware now)))
              (\<lambda>ev. if \<not> ev_accepted ev then reject_evaluation ev attempt 0
                else optimistic_accept cmd attempt auction)))) ?Q ?E"
    by (rule triple_auction_branches)
      (use timed in \<open>auto simp: also_locked_def simp del: outcome_classmethods intro!: triple_rejected\<close>)
qed (use assms in \<open>auto intro: clean_stable triple_replay_attempt clean_bids simp: clean_empty\<close>)

text \<open>
  The unsafe strategy commits the bid it was asked for, whatever it does to the auction row:
  the postcondition of its body says nothing of the row.
\<close>

lemma triple_hook: "triple C (tx L T) (query Hook reply_unit) (\<lambda>_. tx L T) (\<lambda>e. broken L)"
  by (rule tripleI) (auto simp: query_def elim!: exec1_cases)

lemma triple_update_overwrite:
  "triple C (tx L (\<lambda>t l. inserted K c cmd i v bid t l \<and> x \<in> set (l_rows l)))
    (query (Update_Overwrite a amount w v') reply_unit)
    (\<lambda>_. tx L (\<lambda>t l. \<exists>b. bid = bid_of b \<and> carries cmd b \<and> t_bids t = [b])) (\<lambda>e. broken L)"
  by (rule triple_query)
    (auto simp: update_auction_def update_row_def put_auction_def inserted_def fail_txn_def
      split: option.splits)

lemma unsafe_accept_triple:
  "triple C (tx L (\<lambda>t l. clean {} (Some now) t l \<and> r \<in> set (l_rows l)))
    (unsafe_accept hook cmd (snapshot_of r))
    (\<lambda>x. tx L (\<lambda>t l. body_post cmd x t (l_seen l))) (\<lambda>e. broken L)"
  unfolding unsafe_accept_def snapshot_of_simps
proof (rule triple_bind [where R = "\<lambda>_. tx L (\<lambda>t l. clean {} (Some now) t l \<and> r \<in> set (l_rows l))"],
    goal_cases)
  case 1
  then show ?case by (auto intro: triple_hook)
next
  case 2
  show ?case
  proof (rule triple_bind [OF triple_uuid], rule triple_bind [OF triple_insert_bid],
      rule triple_bind [OF triple_update_overwrite])
    show "triple C (tx L (\<lambda>t l. \<exists>b. bid = bid_of b \<and> carries cmd b \<and> t_bids t = [b]))
        (of_py (outcome_accepted bid 1 0))
        (\<lambda>x. tx L (\<lambda>t l. body_post cmd x t (l_seen l))) (\<lambda>e. broken L)" for bid
      by (rule triple_of_py)
        (auto simp: body_post_def outcome_ok_def valid_outcome_def elim!: tx_mono intro: tx_broken)
  qed
qed

lemma triple_weaken_legal:
  "triple C P p (\<lambda>x. tx L (\<lambda>t l. legal_txn W t \<and> body_post cmd x t (l_seen l))) E \<Longrightarrow>
   triple C P p (\<lambda>x. tx L (\<lambda>t l. body_post cmd x t (l_seen l))) E"
  by (erule triple_conseq) (auto elim: tx_mono)

lemma unsafe_transaction_triple:
  "triple C (tx L (\<lambda>t l. t = empty_txn)) (unsafe_transaction hook cmd)
    (\<lambda>x. tx L (\<lambda>t l. body_post cmd x t (l_seen l))) (\<lambda>e. broken L)"
    (is "triple C _ _ ?Q ?E")
  unfolding unsafe_transaction_def
proof (rule triple_pre [where T' = "clean {} None"], rule triple_request_branches)
  have timed: "triple C (tx L (\<lambda>t l. clean {} None t l \<and> r \<in> set (l_rows l)))
      (prog_bind database_time (\<lambda>now.
        prog_bind (of_py (evaluate_bid (snapshot_of r) (PyInt (cmd_amount_cents cmd)) (Aware now)))
          (\<lambda>ev. if \<not> ev_accepted ev then reject_evaluation ev 1 0
            else unsafe_accept hook cmd (snapshot_of r)))) ?Q ?E" for r
  proof (rule triple_bind [OF triple_database_time])
    fix now
    show "triple C (tx L (\<lambda>t l. (clean {} None t l \<and> r \<in> set (l_rows l)) \<and> now \<le> l_clock l))
      (prog_bind (of_py (evaluate_bid (snapshot_of r) (PyInt (cmd_amount_cents cmd)) (Aware now)))
          (\<lambda>ev. if \<not> ev_accepted ev then reject_evaluation ev 1 0
            else unsafe_accept hook cmd (snapshot_of r))) ?Q ?E"
    proof (rule triple_pre [where T' = "\<lambda>t l. clean {} (Some now) t l \<and> r \<in> set (l_rows l)"],
        rule triple_of_py_bind)
      fix ev
      show "triple C (tx L (\<lambda>t l. clean {} (Some now) t l \<and> r \<in> set (l_rows l)))
          (if \<not> ev_accepted ev then reject_evaluation ev 1 0
           else unsafe_accept hook cmd (snapshot_of r)) ?Q ?E"
        by (cases "ev_accepted ev")
          (auto intro: unsafe_accept_triple triple_weaken_legal [OF triple_rejected_evaluation])
    qed (auto intro: tx_broken clean_at)
  qed (auto intro: clean_stable)
  show "triple C (tx L (clean {} None))
      (prog_bind (read_auction (cmd_auction_id cmd) False) (\<lambda>found.
        case found of
          None \<Rightarrow> of_py (outcome_rejected AUCTION_NOT_FOUND None 1 0)
        | Some auction \<Rightarrow>
            prog_bind database_time (\<lambda>now.
            prog_bind
              (of_py (evaluate_bid auction (PyInt (cmd_amount_cents cmd)) (Aware now)))
              (\<lambda>ev. if \<not> ev_accepted ev then reject_evaluation ev 1 0
                else unsafe_accept hook cmd auction)))) ?Q ?E"
    by (rule triple_auction_branches)
      (use timed in \<open>auto simp: also_locked_def simp del: outcome_classmethods
        intro!: triple_weaken_legal [OF triple_rejected]\<close>)
qed (auto intro: clean_stable clean_bids triple_weaken_legal [OF triple_replay] simp: clean_empty)

end
