(* ===== verification/Invariants.thy ===== *)
theory Invariants
  imports Repository
begin

section \<open>The invariant checker\<close>

text \<open>
  \<^verbatim>\<open>src/src/bidding/verification/invariants.py\<close>: \<open>check_auction_invariants\<close> reads an auction
  and its history and lists the violations it finds. A violation keeps the values its detail
  text shows; \<open>violation_code\<close> is the code the program gives it.

  The lemmas say what an empty report means: the history is a chain of legal bids that the
  auction row summarises (\<open>history_legal\<close>).
\<close>

datatype violation =
    Auction_Missing
  | Empty_State_Mismatch
  | Version_Sequence "int list" "int list"
  | Auction_Version int int
  | Non_Monotonic_Bid uuid int int
  | Accepted_Outside_Window uuid instant
  | Winner_Missing
  | Winner_Price_Mismatch
  | Winner_Not_Highest int int

primrec violation_code :: "violation \<Rightarrow> string" where
  "violation_code Auction_Missing = ''auction_missing''"
| "violation_code Empty_State_Mismatch = ''empty_state_mismatch''"
| "violation_code (Version_Sequence expected actual) = ''version_sequence''"
| "violation_code (Auction_Version version count) = ''auction_version''"
| "violation_code (Non_Monotonic_Bid i amount required) = ''non_monotonic_bid''"
| "violation_code (Accepted_Outside_Window i t) = ''accepted_outside_window''"
| "violation_code Winner_Missing = ''winner_missing''"
| "violation_code Winner_Price_Mismatch = ''winner_price_mismatch''"
| "violation_code (Winner_Not_Highest winner highest) = ''winner_not_highest''"

record invariant_report =
  ir_auction_id :: uuid
  ir_bid_count :: nat
  ir_violations :: "violation list"

definition report_valid :: "invariant_report \<Rightarrow> bool" where
  "report_valid r \<longleftrightarrow> ir_violations r = []"

text \<open>The loop over the history, with \<open>previous_price\<close> as its accumulator.\<close>

fun bid_violations :: "auction_snapshot \<Rightarrow> int option \<Rightarrow> accepted_bid list \<Rightarrow> violation list" where
  "bid_violations auction previous_price [] = []"
| "bid_violations auction previous_price (bid # rest) =
     (let required =
        (case previous_price of
           None \<Rightarrow> au_starting_price_cents auction
         | Some p \<Rightarrow> p + au_minimum_increment_cents auction) in
      (if ab_amount_cents bid < required
       then [Non_Monotonic_Bid (ab_id bid) (ab_amount_cents bid) required] else []) @
      (if \<not> (au_starts_at auction \<le> ab_accepted_at bid \<and> ab_accepted_at bid < au_ends_at auction)
       then [Accepted_Outside_Window (ab_id bid) (ab_accepted_at bid)] else []) @
      bid_violations auction (Some (ab_amount_cents bid)) rest)"

text \<open>\<open>max(bids, key=...)\<close>: the first of the bids with the greatest amount.\<close>

fun highest_from :: "accepted_bid \<Rightarrow> accepted_bid list \<Rightarrow> accepted_bid" where
  "highest_from best [] = best"
| "highest_from best (b # bs) =
     highest_from (if ab_amount_cents b > ab_amount_cents best then b else best) bs"

definition winner_violations :: "auction_snapshot \<Rightarrow> accepted_bid list \<Rightarrow> violation list" where
  "winner_violations auction bs =
     (let highest = highest_from (hd bs) (tl bs) in
      case find (\<lambda>b. Some (ab_id b) = au_winning_bid_id auction) bs of
        None \<Rightarrow> [Winner_Missing]
      | Some winner \<Rightarrow>
          (if au_current_price_cents auction \<noteq> Some (ab_amount_cents winner)
           then [Winner_Price_Mismatch] else []) @
          (if ab_id winner \<noteq> ab_id highest
           then [Winner_Not_Highest (ab_amount_cents winner) (ab_amount_cents highest)] else []))"

definition sequence_violations :: "auction_snapshot \<Rightarrow> accepted_bid list \<Rightarrow> violation list" where
  "sequence_violations auction bs =
     (let expected_versions = map int [1..<length bs + 1];
          actual_versions = map ab_auction_version bs in
      (if actual_versions \<noteq> expected_versions
       then [Version_Sequence expected_versions actual_versions] else []) @
      (if au_version auction \<noteq> int (length bs)
       then [Auction_Version (au_version auction) (int (length bs))] else []))"

text \<open>The report, from what the repository has read.\<close>

definition invariant_report_of ::
    "uuid \<Rightarrow> auction_snapshot option \<Rightarrow> accepted_bid list \<Rightarrow> invariant_report" where
  "invariant_report_of auction_id found bs =
     (case found of
        None \<Rightarrow> \<lparr>ir_auction_id = auction_id, ir_bid_count = 0, ir_violations = [Auction_Missing]\<rparr>
      | Some auction \<Rightarrow>
          if bs = []
          then \<lparr>ir_auction_id = auction_id, ir_bid_count = 0,
                ir_violations =
                  (if au_current_price_cents auction \<noteq> None \<or>
                      au_winning_bid_id auction \<noteq> None \<or> au_version auction \<noteq> 0
                   then [Empty_State_Mismatch] else [])\<rparr>
          else \<lparr>ir_auction_id = auction_id, ir_bid_count = length bs,
                ir_violations =
                  sequence_violations auction bs @ bid_violations auction None bs @
                  winner_violations auction bs\<rparr>)"

text \<open>
  The method itself: the auction is read first, and the history only if there is an auction,
  on a second connection.
\<close>

definition check_auction_invariants :: "uuid \<Rightarrow> invariant_report prog" where
  "check_auction_invariants auction_id =
     prog_bind (repo_get auction_id) (\<lambda>found.
     case found of
       None \<Rightarrow> Ret (invariant_report_of auction_id None [])
     | Some auction \<Rightarrow>
         prog_bind (repo_list_bids auction_id) (\<lambda>bs.
         Ret (invariant_report_of auction_id found bs)))"

subsection \<open>What the checker is meant to find\<close>

text \<open>
  \<open>chain\<close>: consecutive bids, the first at least the starting price and each later one at
  least an increment above the one before.
\<close>

fun chain :: "int \<Rightarrow> int \<Rightarrow> int option \<Rightarrow> int list \<Rightarrow> bool" where
  "chain starting increment previous [] = True"
| "chain starting increment previous (x # xs) =
     ((case previous of None \<Rightarrow> starting \<le> x | Some p \<Rightarrow> p + increment \<le> x) \<and>
      chain starting increment (Some x) xs)"

definition history_legal :: "auction_snapshot \<Rightarrow> accepted_bid list \<Rightarrow> bool" where
  "history_legal a bs \<longleftrightarrow>
     map ab_auction_version bs = map int [1..<length bs + 1] \<and>
     au_version a = int (length bs) \<and>
     chain (au_starting_price_cents a) (au_minimum_increment_cents a) None
       (map ab_amount_cents bs) \<and>
     (if bs = [] then au_current_price_cents a = None \<and> au_winning_bid_id a = None
      else au_current_price_cents a = Some (ab_amount_cents (last bs)) \<and>
           au_winning_bid_id a = Some (ab_id (last bs)))"

definition history_in_window :: "auction_snapshot \<Rightarrow> accepted_bid list \<Rightarrow> bool" where
  "history_in_window a bs \<longleftrightarrow> list_all (\<lambda>b. in_window a (ab_accepted_at b)) bs"

lemma bid_violations_Nil:
  "bid_violations a previous bs = [] \<longleftrightarrow>
     chain (au_starting_price_cents a) (au_minimum_increment_cents a) previous
       (map ab_amount_cents bs) \<and> history_in_window a bs"
  by (induction a previous bs rule: bid_violations.induct)
    (auto simp: history_in_window_def in_window_def Let_def not_less split: option.splits)

text \<open>Only the window can be at fault when the amounts form a chain.\<close>

lemma bid_violations_window:
  "chain (au_starting_price_cents a) (au_minimum_increment_cents a) previous
     (map ab_amount_cents bs) \<Longrightarrow>
   v \<in> set (bid_violations a previous bs) \<Longrightarrow> violation_code v = ''accepted_outside_window''"
  by (induction a previous bs rule: bid_violations.induct)
    (auto simp: Let_def split: option.splits if_splits)

lemma chain_snoc:
  "chain s i p (xs @ [x]) \<longleftrightarrow>
     chain s i p xs \<and>
     (case (if xs = [] then p else Some (last xs)) of
        None \<Rightarrow> s \<le> x | Some q \<Rightarrow> q + i \<le> x)"
  by (induction s i p xs rule: chain.induct) (auto split: option.splits)

text \<open>With a positive increment the amounts of a chain increase strictly.\<close>

lemma chain_above: "chain s i (Some p) xs \<Longrightarrow> 0 < i \<Longrightarrow> x \<in> set xs \<Longrightarrow> p < x"
proof (induction xs arbitrary: p)
  case (Cons y ys)
  then have "p < y" by simp
  with Cons show ?case by fastforce
qed simp

lemma chain_sorted: "chain s i p xs \<Longrightarrow> 0 < i \<Longrightarrow> sorted_wrt (<) xs"
proof (induction xs arbitrary: p)
  case (Cons y ys)
  then have t: "chain s i (Some y) ys" by simp
  with Cons have "sorted_wrt (<) ys" by blast
  with chain_above [OF t \<open>0 < i\<close>] show ?case by simp
qed simp

lemma highest_from_last:
  "sorted_wrt (<) (map ab_amount_cents (b # bs)) \<Longrightarrow> highest_from b bs = last (b # bs)"
proof (induction bs arbitrary: b)
  case (Cons c cs)
  then have "ab_amount_cents b < ab_amount_cents c" by simp
  with Cons show ?case by simp
qed simp

lemma highest_of_chain:
  assumes "chain s i p (map ab_amount_cents bs)" "0 < i" "bs \<noteq> []"
  shows "highest_from (hd bs) (tl bs) = last bs"
  using chain_sorted [OF assms(1,2)] assms(3) highest_from_last [of "hd bs" "tl bs"] by simp

lemma find_winner_last:
  assumes "distinct (map ab_id bs)" "bs \<noteq> []"
  shows "find (\<lambda>b. Some (ab_id b) = Some (ab_id (last bs))) bs = Some (last bs)"
  using find_unique [of ab_id bs "last bs"] assms by simp

text \<open>
  The checker is sound and complete for a history with distinct identifiers: it reports
  nothing exactly when the history is legal and every bid was accepted in the window.
\<close>

lemma winner_violations_chain:
  assumes "chain s (au_minimum_increment_cents a) p (map ab_amount_cents bs)"
    and "0 < au_minimum_increment_cents a" and "distinct (map ab_id bs)" and "bs \<noteq> []"
  shows "winner_violations a bs = [] \<longleftrightarrow>
     au_current_price_cents a = Some (ab_amount_cents (last bs)) \<and>
     au_winning_bid_id a = Some (ab_id (last bs))"
proof -
  have hi: "highest_from (hd bs) (tl bs) = last bs"
    using assms(1,2,4) by (rule highest_of_chain)
  show ?thesis
  proof (cases "find (\<lambda>b. Some (ab_id b) = au_winning_bid_id a) bs")
    case None
    then have "au_winning_bid_id a \<noteq> Some (ab_id (last bs))"
      using \<open>bs \<noteq> []\<close> by (metis (mono_tags) find_None_on last_in_set)
    with None show ?thesis by (simp add: winner_violations_def)
  next
    case (Some w)
    then have w: "w \<in> set bs" "Some (ab_id w) = au_winning_bid_id a"
      by (auto dest: find_SomeD)
    have "ab_id w = ab_id (last bs) \<longleftrightarrow> w = last bs"
      using distinct_map_eq [OF assms(3) w(1)] last_in_set [OF \<open>bs \<noteq> []\<close>] by blast
    with Some w(2) [symmetric] hi show ?thesis
      by (auto simp: winner_violations_def)
  qed
qed

lemma invariant_report_legal_iff:
  assumes "valid_snapshot a" and "distinct (map ab_id bs)"
  shows "report_valid (invariant_report_of i (Some a) bs) \<longleftrightarrow>
     history_legal a bs \<and> history_in_window a bs"
proof (cases "bs = []")
  case True
  then show ?thesis
    by (auto simp: report_valid_def invariant_report_of_def history_legal_def history_in_window_def)
next
  case False
  have inc: "0 < au_minimum_increment_cents a"
    using assms(1) by (simp add: valid_snapshot_def money_ok_def)
  show ?thesis
  proof (cases "chain (au_starting_price_cents a) (au_minimum_increment_cents a) None
      (map ab_amount_cents bs)")
    case True
    from winner_violations_chain [OF True inc assms(2) False] show ?thesis
      using True False
      by (auto simp: report_valid_def invariant_report_of_def sequence_violations_def Let_def
          bid_violations_Nil history_legal_def)
  next
    case chain: False
    then show ?thesis
      using False
      by (auto simp: report_valid_def invariant_report_of_def bid_violations_Nil history_legal_def)
  qed
qed

lemma invariant_report_window_only:
  assumes "valid_snapshot a" and "distinct (map ab_id bs)" and "history_legal a bs"
    and "v \<in> set (ir_violations (invariant_report_of i (Some a) bs))"
  shows "violation_code v = ''accepted_outside_window''"
proof (cases "bs = []")
  case True
  with assms(3,4) show ?thesis by (simp add: invariant_report_of_def history_legal_def)
next
  case False
  have inc: "0 < au_minimum_increment_cents a"
    using assms(1) by (simp add: valid_snapshot_def money_ok_def)
  from assms(3) have ch: "chain (au_starting_price_cents a) (au_minimum_increment_cents a) None
      (map ab_amount_cents bs)" by (simp add: history_legal_def)
  have "winner_violations a bs = []"
    using winner_violations_chain [OF ch inc assms(2) False] assms(3) False
    by (simp add: history_legal_def)
  moreover have "sequence_violations a bs = []"
    using assms(3) by (simp add: sequence_violations_def history_legal_def Let_def)
  ultimately have "v \<in> set (bid_violations a None bs)"
    using assms(4) False by (simp add: invariant_report_of_def)
  with ch show ?thesis by (rule bid_violations_window)
qed

end
