(* ===== verification/Call_Logic.thy ===== *)
theory Call_Logic
  imports Strategy_Logic Invariants
begin

section \<open>What a whole call commits and answers\<close>

text \<open>
  From the triples of the transaction bodies, one triple per public method: the transactions
  the call commits, and how its result relates to the bids they contain. \<open>unbid\<close> is a call
  between transactions that has committed no bid; \<open>returns_ok\<close> and \<open>raises_ok\<close> are what a
  returned outcome and an exception say about the bids committed.
\<close>

definition log_bids :: "lstate \<Rightarrow> bid_row list" where
  "log_bids l = concat (map t_bids (l_log l))"

definition unbid :: "lstate \<Rightarrow> bool" where
  "unbid l \<longleftrightarrow> l_txn l = None \<and> log_bids l = []"

definition returns_ok :: "bid_command \<Rightarrow> bid_outcome \<Rightarrow> lstate \<Rightarrow> bool" where
  "returns_ok cmd x l \<longleftrightarrow> l_txn l = None \<and> outcome_ok cmd (log_bids l) (l_seen l) x"

definition raises_ok :: "bid_command \<Rightarrow> py_exn \<Rightarrow> lstate \<Rightarrow> bool" where
  "raises_ok cmd e l \<longleftrightarrow>
     l_txn l = None \<and>
     (log_bids l = [] \<or>
      (e = SqlError OperationalError \<and> (\<exists>b. log_bids l = [b] \<and> carries cmd b)))"

lemma raises_ok_unbid: "raises_ok cmd e l \<Longrightarrow> e \<noteq> SqlError OperationalError \<Longrightarrow> unbid l"
  and unbid_raises_ok: "unbid l \<Longrightarrow> raises_ok cmd e l"
  by (auto simp: raises_ok_def unbid_def)

lemma idle_unbid [simp]: "unbid (idle t)"
  by (simp add: unbid_def idle_def log_bids_def)

lemma triple_unbid:
  "(\<And>L. concat (map t_bids L) = [] \<Longrightarrow> triple C (outside L) p Q E) \<Longrightarrow> triple C unbid p Q E"
  by (auto simp: triple_def unbid_def outside_def log_bids_def)

text \<open>A transaction that writes no bid, and one that may.\<close>

lemma triple_reading:
  assumes body: "\<And>L. triple C (tx L (\<lambda>t l. t = empty_txn)) p
      (\<lambda>x. tx L (\<lambda>t l. clean {} None t l \<and> R x (l_seen l))) (\<lambda>e. broken L)"
    and C: "\<And>t l. clean {} None t l \<Longrightarrow> C t"
  shows "triple C unbid (in_transaction p) (\<lambda>x l. unbid l \<and> R x (l_seen l)) (\<lambda>e. unbid)"
proof (rule triple_unbid)
  fix L :: "txn list"
  assume L: "concat (map t_bids L) = []"
  have "triple C (tx L (\<lambda>t l. t = empty_txn)) p
      (\<lambda>x. tx L (\<lambda>t l. C t \<and> (t_bids t = [] \<and> R x (l_seen l)))) (\<lambda>e. broken L)"
    by (rule triple_conseq [OF body]) (auto elim!: tx_mono dest: clean_bids intro: C)
  note txn = triple_transaction [where R = "\<lambda>x t seen. t_bids t = [] \<and> R x seen", OF this]
  show "triple C (outside L) (in_transaction p) (\<lambda>x l. unbid l \<and> R x (l_seen l)) (\<lambda>e. unbid)"
    by (rule triple_conseq [OF txn])
      (use L in \<open>auto simp: committed_as_def rolled_back_def outside_def unbid_def log_bids_def\<close>)
qed

lemma body_post_bids:
  "body_post cmd x t seen \<Longrightarrow> t_bids t = [] \<or> (\<exists>b. t_bids t = [b] \<and> carries cmd b)"
  by (auto simp: body_post_def outcome_ok_def split: bid_outcome_status.splits)

lemma triple_bidding:
  assumes body: "\<And>L. triple C (tx L (\<lambda>t l. t = empty_txn)) p
      (\<lambda>x. tx L (\<lambda>t l. C t \<and> body_post cmd x t (l_seen l))) (\<lambda>e. broken L)"
  shows "triple C unbid (in_transaction p) (returns_ok cmd) (raises_ok cmd)"
proof (rule triple_unbid)
  fix L :: "txn list"
  assume L: "concat (map t_bids L) = []"
  show "triple C (outside L) (in_transaction p) (returns_ok cmd) (raises_ok cmd)"
    by (rule triple_conseq [OF triple_transaction [OF body]])
      (use L in \<open>auto simp: committed_as_def rolled_back_def outside_def returns_ok_def raises_ok_def
        log_bids_def body_post_def [symmetric] simp del: concat_eq_Nil_conv dest: body_post_bids\<close>)
qed

subsection \<open>The reading methods\<close>

definition reads_legal :: "(txn \<Rightarrow> bool) \<Rightarrow> bool" where
  "reads_legal C \<longleftrightarrow> (\<forall>t. t_bids t = [] \<and> t_new t = [] \<and> t_aucs t = [] \<longrightarrow> C t)"

lemma reads_legalD: "reads_legal C \<Longrightarrow> clean K c t l \<Longrightarrow> C t"
  by (simp add: reads_legal_def clean_def)

lemma reads_legal_legal [simp]: "reads_legal (legal_txn W)"
  and reads_legal_True [simp]: "reads_legal (\<lambda>t. True)"
  by (simp_all add: reads_legal_def legal_txn_def)

lemma triple_clean_query:
  assumes "s \<notin> {Begin, Commit, Rollback, Uuid4, Hook}"
    and "\<And>d now t. t_aucs t = [] \<Longrightarrow> t_new t = [] \<Longrightarrow> snd (run_stmt d now s t) = t"
  shows "triple C (tx L (\<lambda>t l. t = empty_txn)) (query s f)
    (\<lambda>x. tx L (\<lambda>t l. clean {} None t l \<and> True)) (\<lambda>e. broken L)"
  using assms(1)
  by (rule triple_query) (auto simp: assms(2) clean_def empty_txn_def split: reply.splits option.splits)

lemma repo_get_triple:
  assumes "reads_legal C"
  shows "triple C unbid (repo_get a) (\<lambda>x. unbid) (\<lambda>e. unbid)"
  unfolding repo_get_def
proof (rule triple_bind [OF triple_reading [where R = "\<lambda>x seen. True"]])
  show "triple C (tx L (\<lambda>t l. t = empty_txn)) (query (Select_Auction a False) reply_auction)
      (\<lambda>x. tx L (\<lambda>t l. clean {} None t l \<and> True)) (\<lambda>e. broken L)" for L
    by (rule triple_clean_query) (auto split: option.splits)
  show "triple C (\<lambda>l. unbid l \<and> True)
      (case row of None \<Rightarrow> Ret None
       | Some r \<Rightarrow> prog_bind (of_py (auction_from_row r)) (\<lambda>auction. Ret (Some auction)))
      (\<lambda>x. unbid) (\<lambda>e. unbid)" for row
    by (cases row) (auto intro!: triple_of_py_bind)
qed (use assms in \<open>auto intro: reads_legalD\<close>)

lemma repo_list_bids_triple:
  assumes "reads_legal C"
  shows "triple C unbid (repo_list_bids a) (\<lambda>x. unbid) (\<lambda>e. unbid)"
  unfolding repo_list_bids_def
proof (rule triple_bind [OF triple_reading [where R = "\<lambda>x seen. True"]])
  show "triple C (tx L (\<lambda>t l. t = empty_txn)) (query (Select_Bids_Of_Auction a) reply_bids)
      (\<lambda>x. tx L (\<lambda>t l. clean {} None t l \<and> True)) (\<lambda>e. broken L)" for L
    by (rule triple_clean_query) auto
  show "triple C (\<lambda>l. unbid l \<and> True) (of_py (bids_from_rows rows)) (\<lambda>x. unbid) (\<lambda>e. unbid)" for rows
    by (rule triple_of_py) auto
qed (use assms in \<open>auto intro: reads_legalD\<close>)

lemma check_auction_invariants_triple:
  assumes "reads_legal C"
  shows "triple C unbid (check_auction_invariants a) (\<lambda>x. unbid) (\<lambda>e. unbid)"
  unfolding check_auction_invariants_def
proof (rule triple_bind [OF repo_get_triple [OF assms]])
  show "triple C unbid
      (case found of None \<Rightarrow> Ret (invariant_report_of a None [])
       | Some auction \<Rightarrow> prog_bind (repo_list_bids a) (\<lambda>bs. Ret (invariant_report_of a found bs)))
      (\<lambda>x. unbid) (\<lambda>e. unbid)" for found
    by (cases found) (auto intro: triple_bind [OF repo_list_bids_triple [OF assms]])
qed

text \<open>\<open>create\<close> stores a stripped title and nothing else.\<close>

lemma repo_create_triple:
  assumes C: "\<And>t. t_bids t = [] \<Longrightarrow> t_aucs t = [] \<Longrightarrow>
      \<forall>r \<in> set (t_new t). py_strip (ra_title r) = ra_title r \<Longrightarrow> C t"
  shows "triple C unbid (repo_create title s inc st en i) (\<lambda>x. unbid) (\<lambda>e. unbid)"
proof -
  let ?N = "\<lambda>t :: txn. t_bids t = [] \<and> t_aucs t = [] \<and>
    (\<forall>r \<in> set (t_new t). py_strip (ra_title r) = ra_title r)"
  let ?s = "\<lambda>j. Insert_Auction j (py_strip title) s inc st en"
  have body: "triple C (tx L (\<lambda>t l. t = empty_txn)) (query (?s j) reply_auction)
      (\<lambda>x. tx L (\<lambda>t l. C t \<and> ?N t)) (\<lambda>e. broken L)" for j L
    by (rule triple_query)
      (auto simp: insert_auction_def Let_def empty_txn_def fail_txn_def reply_auction_def intro!: C)
  have txn: "triple C unbid (in_transaction (query (?s j) reply_auction)) (\<lambda>x. unbid) (\<lambda>e. unbid)"
    for j
  proof (rule triple_unbid)
    fix L :: "txn list"
    assume L: "concat (map t_bids L) = []"
    show "triple C (outside L) (in_transaction (query (?s j) reply_auction)) (\<lambda>x. unbid) (\<lambda>e. unbid)"
      by (rule triple_conseq [OF triple_transaction [OF body]])
        (use L in \<open>auto simp: committed_as_def rolled_back_def outside_def unbid_def log_bids_def\<close>)
  qed
  have ident: "triple C unbid
      (case i of Some i \<Rightarrow> Ret i | None \<Rightarrow> query Uuid4 reply_uuid) (\<lambda>u. unbid) (\<lambda>e. unbid)"
    by (cases i) (auto simp: query_def reply_uuid_def triple_def elim!: exec1_cases)
  have rows: "triple C unbid
      (case row of None \<Rightarrow> Raise AssertionError | Some r \<Rightarrow> of_py (auction_from_row r))
      (\<lambda>u. unbid) (\<lambda>e. unbid)" for row
    by (cases row) (auto intro!: triple_of_py)
  show ?thesis
    unfolding repo_create_def by (rule triple_bind [OF ident], rule triple_bind [OF txn rows])
qed

subsection \<open>Placing a bid\<close>

lemma triple_existing_request:
  "triple C (tx L (\<lambda>t l. t = empty_txn)) (existing_bid q)
    (\<lambda>ex. tx L (\<lambda>t l. clean {} None t l \<and>
      (\<forall>bid. ex = Some bid \<longrightarrow> shown q bid (l_seen l)))) (\<lambda>e. broken L)"
  by (rule triple_pre [where T' = "clean {} None"], rule triple_existing_bid)
    (auto intro: clean_stable clean_bids simp: clean_empty)

lemma resolve_duplicate_triple:
  assumes "reads_legal C"
  shows "triple C unbid (resolve_duplicate_request cmd) (returns_ok cmd) (raises_ok cmd)"
  unfolding resolve_duplicate_request_def
proof (rule triple_bind)
  let ?R = "\<lambda>ex seen. \<forall>bid. ex = Some bid \<longrightarrow> shown (cmd_request_id cmd) bid seen"
  show "triple C unbid (in_transaction (existing_bid (cmd_request_id cmd)))
      (\<lambda>ex l. unbid l \<and> ?R ex (l_seen l)) (raises_ok cmd)"
    by (rule triple_conseq [OF triple_reading [where R = ?R, OF triple_existing_request]])
      (use assms in \<open>auto intro: reads_legalD unbid_raises_ok\<close>)
  show "triple C (\<lambda>l. unbid l \<and> ?R ex (l_seen l))
      (case ex of
         None \<Rightarrow> Raise (RuntimeError ''unique violation was not caused by request_id'')
       | Some bid \<Rightarrow> of_py (replay_or_reject bid cmd)) (returns_ok cmd) (raises_ok cmd)" for ex
  proof (cases ex)
    case (Some bid)
    have "triple C (\<lambda>l. unbid l \<and> shown (cmd_request_id cmd) bid (l_seen l))
        (of_py (replay_or_reject bid cmd)) (returns_ok cmd) (raises_ok cmd)"
      by (rule triple_of_py)
        (auto simp: returns_ok_def unbid_def intro: replay_or_reject_ok unbid_raises_ok)
    then show ?thesis by (simp add: Some)
  qed (auto intro: unbid_raises_ok)
qed

text \<open>The handlers of \<open>place_bid\<close>: what the transaction raised, each handler finishes.\<close>

lemma triple_handled:
  assumes "triple C unbid p Q (raises_ok cmd)"
    and "\<And>e. e \<noteq> SqlError OperationalError \<Longrightarrow> triple C unbid (h e) Q (raises_ok cmd)"
    and "h (SqlError OperationalError) = Raise (SqlError OperationalError)"
  shows "triple C unbid (prog_try p h) Q (raises_ok cmd)"
proof (rule triple_try [OF assms(1)])
  fix e
  show "triple C (raises_ok cmd e) (h e) Q (raises_ok cmd)"
  proof (cases "e = SqlError OperationalError")
    case False
    from assms(2) [OF this] show ?thesis
      by (rule triple_conseq) (auto dest: raises_ok_unbid [OF _ False])
  qed (use assms(3) in auto)
qed

lemma unsafe_place_bid_triple:
  "triple (\<lambda>t. True) unbid (unsafe_place_bid hook cmd) (returns_ok cmd) (raises_ok cmd)"
  unfolding unsafe_place_bid_def
proof (rule triple_handled)
  show "triple (\<lambda>t. True) unbid (in_transaction (unsafe_transaction hook cmd)) (returns_ok cmd)
      (raises_ok cmd)"
    by (rule triple_bidding) (simp add: unsafe_transaction_triple)
qed (auto intro: resolve_duplicate_triple unbid_raises_ok)

lemma pessimistic_place_bid_triple:
  "triple (legal_txn not_before) unbid (pessimistic_place_bid cmd) (returns_ok cmd) (raises_ok cmd)"
  unfolding pessimistic_place_bid_def
proof (rule triple_handled)
  show "triple (legal_txn not_before) unbid (in_transaction (pessimistic_transaction cmd))
      (returns_ok cmd) (raises_ok cmd)"
    by (rule triple_bidding [OF pessimistic_transaction_triple])
qed (auto intro: resolve_duplicate_triple unbid_raises_ok)

text \<open>The optimistic strategy: one attempt, the classification of a miss, one turn, the loop.\<close>

definition turn_ok :: "bid_command \<Rightarrow> bid_outcome option \<Rightarrow> lstate \<Rightarrow> bool" where
  "turn_ok cmd res l \<longleftrightarrow> (case res of None \<Rightarrow> unbid l | Some x \<Rightarrow> returns_ok cmd x l)"

lemma turn_ok_simps [simp]:
  "turn_ok cmd None = unbid"
  "turn_ok cmd (Some x) = returns_ok cmd x"
  by (simp_all add: turn_ok_def fun_eq_iff)

lemma optimistic_attempt_triple:
  "0 < attempt \<Longrightarrow>
   triple (legal_txn within) unbid (optimistic_attempt cmd attempt) (returns_ok cmd) (raises_ok cmd)"
  unfolding optimistic_attempt_def by (rule triple_bidding [OF optimistic_transaction_triple])

definition read_ok :: "bid_command \<Rightarrow> bid_outcome + bid_evaluation \<Rightarrow> bid_row list \<Rightarrow> bool" where
  "read_ok cmd read seen \<longleftrightarrow> (\<forall>x. read = Inl x \<longrightarrow> outcome_ok cmd [] seen x)"

lemma classify_reads_triple:
  "triple C (tx L (\<lambda>t l. t = empty_txn)) (classify_reads cmd attempt)
    (\<lambda>read. tx L (\<lambda>t l. clean {} None t l \<and> read_ok cmd read (l_seen l))) (\<lambda>e. broken L)"
    (is "triple C _ _ ?Q ?E")
  unfolding classify_reads_def
proof (rule triple_pre [where T' = "clean {} None"], rule triple_request_branches)
  show "triple C (tx L (\<lambda>t l. clean {} None t l \<and> shown (cmd_request_id cmd) bid (l_seen l)))
      (prog_bind (of_py (replay_or_reject bid cmd)) (\<lambda>outcome. Ret (Inl outcome))) ?Q ?E" for bid
    by (rule triple_of_py_bind)
      (auto simp: read_ok_def intro: tx_broken replay_or_reject_ok elim!: tx_mono)
  show "triple C (tx L (clean {} None))
      (prog_bind (read_auction (cmd_auction_id cmd) False) (\<lambda>found.
        case found of
          None \<Rightarrow>
            prog_bind (of_py (outcome_rejected AUCTION_NOT_FOUND None attempt attempt))
              (\<lambda>outcome. Ret (Inl outcome))
        | Some auction \<Rightarrow>
            prog_bind database_time (\<lambda>now.
            prog_bind
              (of_py (evaluate_bid auction (PyInt (cmd_amount_cents cmd)) (Aware now)))
              (\<lambda>evaluation. Ret (Inr evaluation))))) ?Q ?E"
  proof (rule triple_auction_branches)
    show "triple C (tx L (clean {} None))
        (prog_bind (of_py (outcome_rejected AUCTION_NOT_FOUND None attempt attempt))
          (\<lambda>outcome. Ret (Inl outcome))) ?Q ?E"
      by (rule triple_of_py_bind) (auto simp: read_ok_def intro: tx_broken elim!: tx_mono)
    show "triple C (tx L (\<lambda>t l. clean (also_locked False r {}) None t l \<and> r \<in> set (l_rows l)))
        (prog_bind database_time (\<lambda>now.
          prog_bind
            (of_py (evaluate_bid (snapshot_of r) (PyInt (cmd_amount_cents cmd)) (Aware now)))
            (\<lambda>evaluation. Ret (Inr evaluation)))) ?Q ?E" for r
      by (rule triple_bind [OF triple_database_time])
        (auto simp: also_locked_def read_ok_def intro!: triple_of_py_bind
          intro: tx_broken clean_stable elim!: tx_mono)
  qed
qed (auto intro: clean_stable clean_bids simp: clean_empty)

lemma classify_after_miss_triple:
  assumes "reads_legal C"
  shows "triple C unbid (classify_after_miss m cmd attempt) (turn_ok cmd) (raises_ok cmd)"
  unfolding classify_after_miss_def
proof (rule triple_bind)
  show "triple C unbid (in_transaction (classify_reads cmd attempt))
      (\<lambda>read l. unbid l \<and> read_ok cmd read (l_seen l)) (raises_ok cmd)"
    by (rule triple_conseq [OF triple_reading [OF classify_reads_triple]])
      (use assms in \<open>auto intro: reads_legalD unbid_raises_ok\<close>)
  have rejected: "triple C (\<lambda>l. unbid l \<and> F l)
      (prog_bind (of_py (outcome_rejected reason min a c)) (\<lambda>r. Ret (Some r))) (turn_ok cmd) (raises_ok cmd)"
    for reason min a c F
    by (rule triple_of_py_bind)
      (auto simp: returns_ok_def unbid_def intro: outcome_ok_rejected unbid_raises_ok)
  show "triple C (\<lambda>l. unbid l \<and> read_ok cmd read (l_seen l))
      (case read of
        Inl outcome \<Rightarrow> Ret (Some outcome)
      | Inr evaluation \<Rightarrow>
          if \<not> ev_accepted evaluation
          then prog_bind (reject_evaluation evaluation attempt attempt) (\<lambda>r. Ret (Some r))
          else if attempt \<ge> m
          then prog_bind (of_py (outcome_rejected CONFLICT_RETRY_EXHAUSTED None attempt attempt))
                 (\<lambda>r. Ret (Some r))
          else Ret None) (turn_ok cmd) (raises_ok cmd)" for read
  proof (cases read)
    case (Inl x)
    then show ?thesis by (auto simp: read_ok_def returns_ok_def unbid_def)
  next
    case (Inr ev)
    then show ?thesis
      using rejected
      by (cases "ev_rejection_reason ev")
        (auto simp: reject_evaluation_def simp del: outcome_classmethods intro: unbid_raises_ok)
  qed
qed

lemma optimistic_turn_triple:
  assumes "0 < attempt"
  shows "triple (legal_txn within) unbid (optimistic_turn m cmd attempt) (turn_ok cmd) (raises_ok cmd)"
  unfolding optimistic_turn_def
proof (rule triple_handled)
  show "triple (legal_txn within) unbid
      (prog_bind (optimistic_attempt cmd attempt) (\<lambda>outcome. Ret (Some outcome)))
      (turn_ok cmd) (raises_ok cmd)"
    by (rule triple_bind [OF optimistic_attempt_triple [OF assms]]) auto
  have resolved: "triple (legal_txn within) unbid
      (prog_bind (resolve_duplicate_request cmd) (\<lambda>outcome. Ret (Some outcome)))
      (turn_ok cmd) (raises_ok cmd)"
    by (rule triple_bind [OF resolve_duplicate_triple]) auto
  fix e
  show "triple (legal_txn within) unbid
      (case e of
         OptimisticMiss version \<Rightarrow> classify_after_miss m cmd attempt
       | SqlError UniqueViolation \<Rightarrow>
           prog_bind (resolve_duplicate_request cmd) (\<lambda>outcome. Ret (Some outcome))
       | SqlError QueryCanceled \<Rightarrow>
           Raise (StrategyBusyError ''database statement timeout expired'')
       | _ \<Rightarrow> Raise e) (turn_ok cmd) (raises_ok cmd)"
    using resolved classify_after_miss_triple
    by (auto intro: unbid_raises_ok split: py_exn.splits sql_error.splits)
qed simp

lemma optimistic_loop_triple:
  "left = 0 \<or> int left \<le> m \<Longrightarrow>
   triple (legal_txn within) unbid (optimistic_loop m cmd left) (returns_ok cmd) (raises_ok cmd)"
proof (induction left)
  case 0
  show ?case
    unfolding optimistic_loop.simps
    by (rule triple_of_py)
      (auto simp: returns_ok_def unbid_def intro: outcome_ok_rejected unbid_raises_ok)
next
  case (Suc left)
  have "triple (legal_txn within) unbid (optimistic_turn m cmd (m - int left)) (turn_ok cmd) (raises_ok cmd)"
    using Suc.prems by (auto intro: optimistic_turn_triple)
  moreover have "triple (legal_txn within) (turn_ok cmd res)
      (case res of Some outcome \<Rightarrow> Ret outcome | None \<Rightarrow> optimistic_loop m cmd left)
      (returns_ok cmd) (raises_ok cmd)" for res
    using Suc by (cases res) auto
  ultimately show ?case by (simp add: triple_bind)
qed

lemma optimistic_place_bid_triple:
  "triple (legal_txn within) unbid (optimistic_place_bid m cmd) (returns_ok cmd) (raises_ok cmd)"
  unfolding optimistic_place_bid_def
  by (rule optimistic_loop_triple) simp

end
