(* ===== verification/Service.thy ===== *)
theory Service
  imports Call_Logic
begin

section \<open>The application service\<close>

text \<open>
  \<open>BiddingService\<close> of \<^verbatim>\<open>src/src/bidding/application/service.py\<close> and the interface it relies
  on, the protocol \<open>BidStrategy\<close>: a method \<open>place_bid\<close> whose committed transactions satisfy
  \<open>C\<close> and whose answer is true of them. Each of the three strategies is an instance; the
  lemmas about the service are proved once, for any of them.
\<close>

subsection \<open>The methods\<close>

definition service_create_auction ::
    "string \<Rightarrow> int \<Rightarrow> int \<Rightarrow> instant \<Rightarrow> instant \<Rightarrow> auction_snapshot prog" where
  "service_create_auction title starting increment starts ends =
     repo_create title starting increment starts ends None"

definition service_get_auction :: "uuid \<Rightarrow> auction_snapshot option prog" where
  "service_get_auction auction_id = repo_get auction_id"

definition service_list_bids :: "uuid \<Rightarrow> accepted_bid list prog" where
  "service_list_bids auction_id = repo_list_bids auction_id"

definition service_place_bid ::
    "(bid_command \<Rightarrow> bid_outcome prog) \<Rightarrow> bid_command \<Rightarrow> bid_outcome prog" where
  "service_place_bid strategy command = strategy command"

text \<open>One request to the service, with its result, so that requests of different kinds can run
  side by side. \<open>Check_Invariants\<close> is the checker, which uses the same repository.\<close>

datatype api_call =
    Create_Auction string int int instant instant
  | Get_Auction uuid
  | List_Bids uuid
  | Place_Bid bid_command
  | Check_Invariants uuid

datatype call_result =
    Auction_Created auction_snapshot
  | Auction_Found "auction_snapshot option"
  | Bids_Found "accepted_bid list"
  | Bid_Placed bid_outcome
  | Invariants_Checked invariant_report

definition with_result :: "('a \<Rightarrow> 'b) \<Rightarrow> 'a prog \<Rightarrow> 'b prog" where
  "with_result f p = prog_bind p (\<lambda>x. Ret (f x))"

primrec service_call ::
    "(bid_command \<Rightarrow> bid_outcome prog) \<Rightarrow> api_call \<Rightarrow> call_result prog" where
  "service_call strategy (Create_Auction title starting increment starts ends) =
     with_result Auction_Created (service_create_auction title starting increment starts ends)"
| "service_call strategy (Get_Auction auction_id) =
     with_result Auction_Found (service_get_auction auction_id)"
| "service_call strategy (List_Bids auction_id) =
     with_result Bids_Found (service_list_bids auction_id)"
| "service_call strategy (Place_Bid command) =
     with_result Bid_Placed (service_place_bid strategy command)"
| "service_call strategy (Check_Invariants auction_id) =
     with_result Invariants_Checked (check_auction_invariants auction_id)"

subsection \<open>The strategy interface\<close>

definition answer_ok :: "api_call \<Rightarrow> call_result \<Rightarrow> lstate \<Rightarrow> bool" where
  "answer_ok c r l \<longleftrightarrow>
     (case c of
        Place_Bid cmd \<Rightarrow> (\<exists>x. r = Bid_Placed x \<and> returns_ok cmd x l)
      | _ \<Rightarrow> unbid l)"

definition failure_ok :: "api_call \<Rightarrow> py_exn \<Rightarrow> lstate \<Rightarrow> bool" where
  "failure_ok c e l \<longleftrightarrow> (case c of Place_Bid cmd \<Rightarrow> raises_ok cmd e l | _ \<Rightarrow> unbid l)"

lemma failure_ok_Place_Bid [simp]: "failure_ok (Place_Bid cmd) = raises_ok cmd"
  by (simp add: failure_ok_def fun_eq_iff)

lemma triple_with_result:
  "triple C P p Q E \<Longrightarrow> (\<And>x l. Q x l \<Longrightarrow> Q' (f x) l) \<Longrightarrow> triple C P (with_result f p) Q' E"
  unfolding with_result_def by (erule triple_bind) auto

locale bid_strategy =
  fixes place_bid :: "bid_command \<Rightarrow> bid_outcome prog"
    and C :: "txn \<Rightarrow> bool"
  assumes place_bid_triple: "triple C unbid (place_bid cmd) (returns_ok cmd) (raises_ok cmd)"
    and reads_are_legal: "reads_legal C"
    and creates_are_legal:
      "t_bids t = [] \<Longrightarrow> t_aucs t = [] \<Longrightarrow>
       \<forall>r \<in> set (t_new t). py_strip (ra_title r) = ra_title r \<Longrightarrow> C t"
begin

lemma create_triple:
  "triple C unbid (repo_create title s inc st en i) (\<lambda>x. unbid) (\<lambda>e. unbid)"
  by (rule repo_create_triple [OF creates_are_legal])

lemma service_call_triple:
  "triple C unbid (service_call place_bid c) (answer_ok c) (failure_ok c)"
proof -
  have reading: "triple C unbid (with_result f p) (answer_ok b) (failure_ok b)"
    if "triple C unbid p (\<lambda>x. unbid) (\<lambda>e. unbid)" "\<And>cmd. b \<noteq> Place_Bid cmd" for f p b
    by (rule triple_conseq [OF triple_with_result [OF that(1), where Q' = "\<lambda>x. unbid"]])
      (use that(2) in \<open>auto simp: answer_ok_def failure_ok_def split: api_call.split\<close>)
  show ?thesis
  proof (cases c)
    case (Place_Bid cmd)
    have "triple C unbid (with_result Bid_Placed (place_bid cmd)) (answer_ok c) (raises_ok cmd)"
      by (rule triple_with_result [OF place_bid_triple]) (simp add: answer_ok_def Place_Bid)
    then show ?thesis by (simp add: Place_Bid service_place_bid_def)
  qed (auto intro!: reading create_triple repo_get_triple repo_list_bids_triple
      check_auction_invariants_triple reads_are_legal
      simp: service_create_auction_def service_get_auction_def service_list_bids_def)
qed

end

text \<open>A safe strategy: what it commits is legal.\<close>

locale safe_bid_strategy = bid_strategy place_bid "legal_txn W"
  for place_bid :: "bid_command \<Rightarrow> bid_outcome prog"
    and W :: "instant \<Rightarrow> instant \<Rightarrow> instant \<Rightarrow> bool"

lemma legal_of_create:
  "t_bids t = [] \<Longrightarrow> t_aucs t = [] \<Longrightarrow>
   \<forall>r \<in> set (t_new t). py_strip (ra_title r) = ra_title r \<Longrightarrow> legal_txn W t"
  by (simp add: legal_txn_def)

interpretation unsafe: bid_strategy "unsafe_place_bid hook" "\<lambda>t. True"
  by unfold_locales (auto intro: unsafe_place_bid_triple)

interpretation pessimistic: safe_bid_strategy pessimistic_place_bid not_before
  by unfold_locales (auto intro: pessimistic_place_bid_triple legal_of_create)

interpretation optimistic: safe_bid_strategy "optimistic_place_bid m" within
  by unfold_locales (auto intro: optimistic_place_bid_triple legal_of_create)

end
