(* ===== verification/Program_Results.thy ===== *)
theory Program_Results
  imports Service
begin

section \<open>What a method can return or raise, whatever the database replies\<close>

text \<open>
  \<open>results Q E p\<close>: every value the tree \<open>p\<close> returns satisfies \<open>Q\<close> and every exception \<open>E\<close>, for
  any replies at all. It gives the facts about outcomes that do not depend on the data: the
  attempt counts, the branches that are never taken, the exceptions that do not escape.
\<close>

primrec results :: "('a \<Rightarrow> bool) \<Rightarrow> (py_exn \<Rightarrow> bool) \<Rightarrow> 'a prog \<Rightarrow> bool" where
  "results Q E (Ret x) = Q x"
| "results Q E (Raise e) = E e"
| "results Q E (Exec s k) = (\<forall>r. results Q E (k r))"

lemma results_mono:
  "results Q E p \<Longrightarrow> (\<And>x. Q x \<Longrightarrow> Q' x) \<Longrightarrow> (\<And>e. E e \<Longrightarrow> E' e) \<Longrightarrow> results Q' E' p"
  by (induction p) auto

lemma results_True [simp]: "results (\<lambda>x. True) (\<lambda>e. True) p"
  by (induction p) auto

lemma results_bind:
  "results Q E (prog_bind p f) \<longleftrightarrow> results (\<lambda>x. results Q E (f x)) E p"
  by (induction p) auto

lemma results_bindI:
  "results R E p \<Longrightarrow> (\<And>x. R x \<Longrightarrow> results Q E (f x)) \<Longrightarrow> results Q E (prog_bind p f)"
  unfolding results_bind by (erule results_mono)

lemma results_try:
  "results Q E (prog_try p h) \<longleftrightarrow> results Q (\<lambda>e. results Q E (h e)) p"
  by (induction p) auto

lemma results_of_py [simp]:
  "results Q E (of_py m) \<longleftrightarrow> (\<forall>x. m = Inr x \<longrightarrow> Q x) \<and> (\<forall>e. m = Inl e \<longrightarrow> E e)"
  by (cases m) auto

lemma results_query:
  "(\<And>x. Q x) \<Longrightarrow> (\<And>e. E (SqlError e)) \<Longrightarrow> E AssertionError \<Longrightarrow> results Q E (query s f)"
  by (auto simp: query_def after_query_def split: reply.split option.split)

lemma results_close:
  "results Q E p \<Longrightarrow> (\<And>e. E (SqlError e)) \<Longrightarrow> results Q E (close_transaction p)"
  by (induction p) (auto simp: after_commit_def split: reply.split)

lemma results_transaction:
  "results Q E p \<Longrightarrow> (\<And>e. E (SqlError e)) \<Longrightarrow> results Q E (in_transaction p)"
  by (auto simp: in_transaction_def after_begin_def results_close split: reply.split)

text \<open>Two continuations that agree on the possible results give the same tree.\<close>

lemma results_bind_cong:
  "results Q E p \<Longrightarrow> (\<And>x. Q x \<Longrightarrow> f x = g x) \<Longrightarrow> prog_bind p f = prog_bind p g"
  by (induction p) auto

text \<open>The bound holds of every call in every execution, and of a call that runs alone.\<close>

lemma run_results:
  "results Q E p \<Longrightarrow> fst (run p ch n d l) = Some r \<Longrightarrow>
   (case r of Inl e \<Rightarrow> E e | Inr x \<Rightarrow> Q x)"
proof (induction p arbitrary: n d l)
  case (Exec s k)
  then show ?case using Exec.IH [OF rangeI] by (auto split: option.splits)
qed auto

subsection \<open>The helpers\<close>

text \<open>
  Exceptions that are not the internal \<open>OptimisticMiss\<close>, and outcomes whose counters lie
  between \<open>1\<close> and the number of attempts allowed.
\<close>

definition no_miss :: "py_exn \<Rightarrow> bool" where
  "no_miss e \<longleftrightarrow> (\<forall>v. e \<noteq> OptimisticMiss v)"

definition counters_within :: "int \<Rightarrow> bid_outcome \<Rightarrow> bool" where
  "counters_within m x \<longleftrightarrow>
     1 \<le> out_attempts x \<and> out_attempts x \<le> m \<and> 0 \<le> out_conflicts x \<and> out_conflicts x \<le> out_attempts x"

lemma counters_within_record [simp]:
  "counters_within m \<lparr>out_status = s, out_bid = b, out_rejection_reason = r,
     out_minimum_acceptable_cents = least, out_attempts = a, out_conflicts = c\<rparr> \<longleftrightarrow>
   1 \<le> a \<and> a \<le> m \<and> 0 \<le> c \<and> c \<le> a"
  by (simp add: counters_within_def)

lemma no_miss_simps [simp]:
  "no_miss (SqlError s)" "no_miss AssertionError" "no_miss (ValueError m)" "no_miss (TypeError m)"
  "no_miss (OverflowError m)" "no_miss (RuntimeError m)" "no_miss (StrategyBusyError m)"
  "no_miss ZeroDivisionError" "no_miss (IndexError m)" "no_miss (KeyError m)" "no_miss (StatisticsError m)"
  "no_miss (AttributeError m)" "no_miss (HttpError m)"
  "\<not> no_miss (OptimisticMiss v)"
  by (simp_all add: no_miss_def)

lemma require_money_raises: "require_money v f = Inl e \<Longrightarrow> no_miss e"
  by (cases "(v, f)" rule: require_money.cases) (auto simp: require_money.simps split: if_splits)

lemma require_aware_raises: "require_aware v f = Inl e \<Longrightarrow> no_miss e"
  by (cases v) auto

lemma require_version_raises: "require_version v = Inl e \<Longrightarrow> no_miss e"
  by (cases v) (auto split: if_splits)

lemma py_bind_eq_Inl: "py_bind m f = Inl e \<longleftrightarrow> m = Inl e \<or> (\<exists>x. m = Inr x \<and> f x = Inl e)"
  by (cases m) auto

lemmas validator_raises = require_money_raises require_aware_raises require_version_raises

lemma require_price_state_raises: "require_price_state c w v s = Inl e \<Longrightarrow> no_miss e"
  by (auto simp: require_price_state_def py_bind_eq_Inl dest: validator_raises
      split: if_splits option.splits)

lemma auction_from_row_raises: "auction_from_row r = Inl e \<Longrightarrow> no_miss e"
  by (auto simp: auction_from_row_def make_auction_snapshot_def Let_def py_bind_eq_Inl
      dest: validator_raises require_price_state_raises split: if_splits)

lemma bid_from_row_raises: "bid_from_row b = Inl e \<Longrightarrow> no_miss e"
  by (auto simp: bid_from_row_def make_accepted_bid_def py_bind_eq_Inl dest: validator_raises
      split: if_splits)

lemma make_bid_outcome_raises: "make_bid_outcome s b r m a c = Inl e \<Longrightarrow> no_miss e"
  by (auto simp: make_bid_outcome_def split: if_splits)

lemma evaluate_bid_raises: "evaluate_bid a v t = Inl e \<Longrightarrow> no_miss e"
  by (auto simp: evaluate_bid_def derive_auction_state_def minimum_acceptable_bid_def Let_def
      make_bid_evaluation_def py_bind_eq_Inl dest: validator_raises
      split: if_splits option.splits py_datetime.splits)

lemma replay_or_reject_raises: "replay_or_reject b cmd \<noteq> Inl e"
  by (simp add: replay_or_reject_def)

lemma replay_or_reject_counters: "replay_or_reject b cmd = Inr x \<Longrightarrow> 1 \<le> m \<Longrightarrow> counters_within m x"
  by (auto simp: replay_or_reject_def counters_within_def split: if_splits)

lemmas raises = auction_from_row_raises bid_from_row_raises make_bid_outcome_raises
  evaluate_bid_raises

lemma existing_bid_results: "results (\<lambda>x. True) no_miss (existing_bid q)"
  unfolding existing_bid_def
  by (rule results_bindI [OF results_query [where Q = "\<lambda>x. True"]])
    (auto simp: results_bind dest: raises split: option.split)

lemma read_auction_results: "results (\<lambda>x. True) no_miss (read_auction a lock)"
  unfolding read_auction_def
  by (rule results_bindI [OF results_query [where Q = "\<lambda>x. True"]])
    (auto simp: results_bind dest: raises split: option.split)

lemma database_time_results: "results (\<lambda>x. True) no_miss database_time"
  unfolding database_time_def by (rule results_query) simp_all

lemma insert_bid_results: "results (\<lambda>x. True) no_miss (insert_bid cmd i v)"
  unfolding insert_bid_def
  by (rule results_bindI [OF results_query [where Q = "\<lambda>x. True"]])
    (auto dest: raises split: option.split)

lemma query_results: "results (\<lambda>x. True) no_miss (query s f)"
  by (rule results_query) simp_all

lemma reject_evaluation_results:
  "1 \<le> a \<Longrightarrow> a \<le> m \<Longrightarrow> 0 \<le> c \<Longrightarrow> c \<le> a \<Longrightarrow>
   results (counters_within m) no_miss (reject_evaluation ev a c)"
  by (auto simp: reject_evaluation_def counters_within_def split: option.split)

lemma resolve_duplicate_results:
  "1 \<le> m \<Longrightarrow> results (counters_within m) no_miss (resolve_duplicate_request cmd)"
  unfolding resolve_duplicate_request_def
  by (rule results_bindI [OF results_transaction [OF existing_bid_results]])
    (auto simp: replay_or_reject_raises intro: replay_or_reject_counters split: option.split)

subsection \<open>The three methods\<close>

lemma optimistic_accept_results:
  assumes "1 \<le> attempt" "attempt \<le> m"
  shows "results (counters_within m) (\<lambda>e. True) (optimistic_accept cmd attempt a)"
  unfolding optimistic_accept_def
  by (auto simp: results_bind intro!: results_mono [OF results_True] split: option.split)
    (use assms in \<open>auto simp: counters_within_def\<close>)

lemma optimistic_transaction_results:
  assumes "1 \<le> attempt" "attempt \<le> m"
  shows "results (counters_within m) (\<lambda>e. True) (optimistic_transaction cmd attempt)"
proof -
  have accept: "results (counters_within m) (\<lambda>e. True) (optimistic_accept cmd attempt a)" for a
    by (rule optimistic_accept_results [OF assms])
  have reject: "results (counters_within m) (\<lambda>e. True) (reject_evaluation ev attempt 0)" for ev
    using reject_evaluation_results [OF assms, of 0] assms by (auto intro: results_mono)
  show ?thesis
    unfolding optimistic_transaction_def
    using assms accept reject
    by (auto simp: results_bind make_bid_outcome_eq_Inr counters_within_def
        intro!: results_mono [OF results_True] split: option.split)
qed

lemma classify_results:
  assumes "1 \<le> attempt" "attempt \<le> m"
  shows "results (\<lambda>res. \<forall>x. res = Some x \<longrightarrow> counters_within m x) no_miss
    (classify_after_miss m cmd attempt)"
proof -
  have reads: "results (\<lambda>read. \<forall>x. read = Inl x \<longrightarrow> counters_within m x) no_miss
      (classify_reads cmd attempt)"
    unfolding classify_reads_def
  proof (rule results_bindI [OF existing_bid_results], goal_cases)
    case (1 existing)
    have timed: "results (\<lambda>read. \<forall>x. read = Inl x \<longrightarrow> counters_within m x) no_miss
        (prog_bind database_time (\<lambda>now.
          prog_bind (of_py (evaluate_bid au (PyInt (cmd_amount_cents cmd)) (Aware now)))
            (\<lambda>evaluation. Ret (Inr evaluation))))" for au
      by (rule results_bindI [OF database_time_results]) (auto simp: results_bind dest: raises)
    show ?case
    proof (cases existing)
      case None
      have "results (\<lambda>read. \<forall>x. read = Inl x \<longrightarrow> counters_within m x) no_miss
          (prog_bind (read_auction (cmd_auction_id cmd) False) (\<lambda>found.
            case found of
              None \<Rightarrow>
                prog_bind (of_py (outcome_rejected AUCTION_NOT_FOUND None attempt attempt))
                  (\<lambda>outcome. Ret (Inl outcome))
            | Some auction \<Rightarrow>
                prog_bind database_time (\<lambda>now.
                prog_bind
                  (of_py (evaluate_bid auction (PyInt (cmd_amount_cents cmd)) (Aware now)))
                  (\<lambda>evaluation. Ret (Inr evaluation)))))"
        by (rule results_bindI [OF read_auction_results])
          (use assms timed in \<open>auto simp: counters_within_def split: option.split\<close>)
      then show ?thesis by (simp add: None)
    next
      case (Some bid)
      with assms show ?thesis
        by (auto simp: results_bind replay_or_reject_raises intro: replay_or_reject_counters)
    qed
  qed
  have reject: "results (counters_within m) no_miss (reject_evaluation ev attempt attempt)" for ev
    using reject_evaluation_results [OF assms, of attempt] assms by simp
  show ?thesis
    unfolding classify_after_miss_def
    by (rule results_bindI [OF results_transaction [OF reads]])
      (use assms reject in \<open>auto simp: results_bind split: sum.split\<close>)
qed

lemma optimistic_turn_results:
  assumes "1 \<le> attempt" "attempt \<le> m"
  shows "results (\<lambda>res. \<forall>x. res = Some x \<longrightarrow> counters_within m x) no_miss
    (optimistic_turn m cmd attempt)"
proof -
  have resolve: "results (counters_within m) no_miss (resolve_duplicate_request cmd)"
    using assms by (auto intro: resolve_duplicate_results)
  have attempt: "results (counters_within m) (\<lambda>e. True) (optimistic_attempt cmd attempt)"
    unfolding optimistic_attempt_def
    by (rule results_transaction [OF optimistic_transaction_results [OF assms]]) simp
  have h: "results (\<lambda>res. \<forall>x. res = Some x \<longrightarrow> counters_within m x) no_miss
     (case e of
       OptimisticMiss version \<Rightarrow> classify_after_miss m cmd attempt
     | SqlError UniqueViolation \<Rightarrow>
         prog_bind (resolve_duplicate_request cmd) (\<lambda>outcome. Ret (Some outcome))
     | SqlError QueryCanceled \<Rightarrow>
         Raise (StrategyBusyError ''database statement timeout expired'')
     | _ \<Rightarrow> Raise e)" for e
    using classify_results [OF assms] resolve
    by (auto simp: results_bind split: py_exn.split sql_error.split)
  show ?thesis
    unfolding optimistic_turn_def results_try results_bind
    by (rule results_mono [OF attempt]) (use h in auto)
qed

lemma optimistic_loop_results:
  "0 < m \<Longrightarrow> left = 0 \<or> int left \<le> m \<Longrightarrow> results (counters_within m) no_miss (optimistic_loop m cmd left)"
proof (induction left)
  case (Suc left)
  have "1 \<le> m - int left" "m - int left \<le> m" using Suc.prems by auto
  from optimistic_turn_results [OF this] show ?case
    unfolding optimistic_loop.simps results_bind
    by (rule results_mono) (use Suc in \<open>auto split: option.split\<close>)
qed (auto simp: counters_within_def)

text \<open>
  At the last attempt the classification of a miss always returns an outcome, so the loop
  never runs out: \<open>optimistic_loop_else\<close> is the loop with any other statement after it.
\<close>

primrec optimistic_loop_else ::
    "bid_outcome prog \<Rightarrow> int \<Rightarrow> bid_command \<Rightarrow> nat \<Rightarrow> bid_outcome prog" where
  "optimistic_loop_else after max_attempts command 0 = after"
| "optimistic_loop_else after max_attempts command (Suc left) =
     prog_bind (optimistic_turn max_attempts command (max_attempts - int left)) (\<lambda>result.
     case result of
       Some outcome \<Rightarrow> Ret outcome
     | None \<Rightarrow> optimistic_loop_else after max_attempts command left)"

lemma results_Some: "results (\<lambda>res. res \<noteq> None) (\<lambda>e. True) (prog_bind p (\<lambda>x. Ret (Some x)))"
  by (simp add: results_bind)

lemma last_turn_returns: "results (\<lambda>res. res \<noteq> None) (\<lambda>e. True) (optimistic_turn m cmd m)"
proof -
  have "results (\<lambda>res. res \<noteq> None) (\<lambda>e. True) (classify_after_miss m cmd m)"
    unfolding classify_after_miss_def
    by (rule results_bindI [OF results_True])
      (auto simp: results_Some simp del: not_None_eq split: sum.split)
  then have "results (\<lambda>res. res \<noteq> None) (\<lambda>e. True)
     (case e of
       OptimisticMiss version \<Rightarrow> classify_after_miss m cmd m
     | SqlError UniqueViolation \<Rightarrow>
         prog_bind (resolve_duplicate_request cmd) (\<lambda>outcome. Ret (Some outcome))
     | SqlError QueryCanceled \<Rightarrow>
         Raise (StrategyBusyError ''database statement timeout expired'')
     | _ \<Rightarrow> Raise e)" for e
    by (auto simp: results_Some simp del: not_None_eq split: py_exn.split sql_error.split)
  then show ?thesis
    unfolding optimistic_turn_def results_try
    by (intro results_mono [OF results_Some])
qed

lemma loop_else_eq:
  "optimistic_loop_else after m cmd (Suc left) = optimistic_loop m cmd (Suc left)"
proof (induction left)
  case 0
  show ?case
    unfolding optimistic_loop.simps optimistic_loop_else.simps
    using last_turn_returns [of m cmd] by (auto intro!: results_bind_cong split: option.split)
next
  case (Suc left)
  then show ?case
    unfolding optimistic_loop.simps(2) [of m cmd "Suc left"]
      optimistic_loop_else.simps(2) [of after m cmd "Suc left"] by simp
qed

lemma single_attempt_results:
  assumes "results (counters_within 1) no_miss p"
  shows "results (counters_within 1) no_miss (prog_try (in_transaction p) (\<lambda>e.
     if e = SqlError UniqueViolation then resolve_duplicate_request cmd
     else if busy e then Raise (StrategyBusyError msg) else Raise e))"
  unfolding results_try
  by (rule results_transaction, rule results_mono [OF assms])
    (auto intro: resolve_duplicate_results)

lemma pessimistic_results: "results (counters_within 1) no_miss (pessimistic_place_bid cmd)"
proof -
  have accept: "results (counters_within 1) no_miss (pessimistic_accept cmd a)" for a
    unfolding pessimistic_accept_def
    by (rule results_bindI [OF query_results] results_bindI [OF insert_bid_results])+
      (simp add: counters_within_def)
  have reject: "results (counters_within 1) no_miss (reject_evaluation ev 1 0)" for ev
    by (rule reject_evaluation_results) simp_all
  have replay: "results (counters_within 1) no_miss (of_py (replay_or_reject b cmd))" for b
    by (auto simp: replay_or_reject_raises intro: replay_or_reject_counters)
  have evaluated: "results (counters_within 1) no_miss
      (prog_bind (of_py (evaluate_bid a v t)) (\<lambda>ev.
        if \<not> ev_accepted ev then reject_evaluation ev 1 0 else pessimistic_accept cmd a))" for a v t
    using accept reject by (auto simp: results_bind dest: raises)
  have locked: "results (counters_within 1) no_miss (pessimistic_locked cmd a)" for a
    unfolding pessimistic_locked_def
    by (rule results_bindI [OF database_time_results], rule results_bindI [OF existing_bid_results])
      (use evaluated replay in \<open>auto split: option.split\<close>)
  have nf: "results (counters_within 1) no_miss (of_py (outcome_rejected AUCTION_NOT_FOUND None 1 0))"
    by (simp add: counters_within_def)
  have found: "results (counters_within 1) no_miss
      (prog_bind (read_auction a True) (\<lambda>found. case found of
        None \<Rightarrow> of_py (outcome_rejected AUCTION_NOT_FOUND None 1 0)
      | Some auction \<Rightarrow> pessimistic_locked cmd auction))" for a
    by (rule results_bindI [OF read_auction_results])
      (use locked nf in \<open>auto split: option.split simp del: outcome_classmethods\<close>)
  have body: "results (counters_within 1) no_miss (pessimistic_transaction cmd)"
    unfolding pessimistic_transaction_def
    by (rule results_bindI [OF existing_bid_results])
      (use found replay in \<open>auto split: option.split simp del: outcome_classmethods\<close>)
  show ?thesis
    unfolding pessimistic_place_bid_def by (rule single_attempt_results [OF body])
qed

lemma unsafe_results: "results (counters_within 1) no_miss (unsafe_place_bid hook cmd)"
proof -
  have hooked: "results (\<lambda>x. True) no_miss (if hook then query Hook reply_unit else Ret ())"
    by (simp add: query_results)
  have accept: "results (counters_within 1) no_miss (unsafe_accept hook cmd a)" for a
    unfolding unsafe_accept_def
    by (rule results_bindI [OF hooked])
      ((rule results_bindI [OF query_results] results_bindI [OF insert_bid_results])+,
        simp add: counters_within_def)
  have reject: "results (counters_within 1) no_miss (reject_evaluation ev 1 0)" for ev
    by (rule reject_evaluation_results) simp_all
  have replay: "results (counters_within 1) no_miss (of_py (replay_or_reject b cmd))" for b
    by (auto simp: replay_or_reject_raises intro: replay_or_reject_counters)
  have timed: "results (counters_within 1) no_miss
      (prog_bind database_time (\<lambda>now. prog_bind (of_py (evaluate_bid a v (Aware now))) (\<lambda>ev.
        if \<not> ev_accepted ev then reject_evaluation ev 1 0 else unsafe_accept hook cmd a)))" for a v
    by (rule results_bindI [OF database_time_results])
      (use accept reject in \<open>auto simp: results_bind dest: raises\<close>)
  have found: "results (counters_within 1) no_miss
      (prog_bind (read_auction i False) (\<lambda>found. case found of
        None \<Rightarrow> of_py (outcome_rejected AUCTION_NOT_FOUND None 1 0)
      | Some a \<Rightarrow> prog_bind database_time (\<lambda>now.
          prog_bind (of_py (evaluate_bid a v (Aware now))) (\<lambda>ev.
          if \<not> ev_accepted ev then reject_evaluation ev 1 0 else unsafe_accept hook cmd a))))" for i v
    by (rule results_bindI [OF read_auction_results])
      (use timed in \<open>auto simp: counters_within_def split: option.split\<close>)
  have body: "results (counters_within 1) no_miss (unsafe_transaction hook cmd)"
    unfolding unsafe_transaction_def
    by (rule results_bindI [OF existing_bid_results])
      (use found replay in \<open>auto split: option.split simp del: outcome_classmethods\<close>)
  show ?thesis
    unfolding unsafe_place_bid_def
    using single_attempt_results [OF body, of cmd "\<lambda>e. False"] by (simp only: if_False)
qed

end
