(* ===== verification/Api.thy ===== *)
theory Api
  imports Service Program_Results
begin

section \<open>The HTTP interface\<close>

text \<open>
  \<^verbatim>\<open>src/src/bidding/api/schemas.py\<close> and \<^verbatim>\<open>src/src/bidding/api/routes.py\<close>. A request body is
  given by the dynamic values of its fields; validating it gives the request object or the
  failure FastAPI answers with 422. A handler is a tree of the statements its service calls
  execute; an \<open>HTTPException\<close> it raises is the response it stands for, and any other exception
  leaves the handler (FastAPI answers 500).
\<close>

subsection \<open>Request bodies\<close>

datatype py_text = PyText string | PyNotText

datatype invalid_request =
    Not_An_Object
  | Extra_Field string
  | Missing_Field string
  | Field_Invalid string
  | Value_Rejected string

text \<open>
  \<open>Annotated[str, Field(strict=True, min_length=1, max_length=n)]\<close>, \<open>MoneyCents\<close> and
  \<open>AwareDatetime\<close>: no coercion, the length counted before stripping.
\<close>

fun text_field :: "string \<Rightarrow> nat \<Rightarrow> py_text \<Rightarrow> invalid_request + string" where
  "text_field field limit PyNotText = Inl (Field_Invalid field)"
| "text_field field limit (PyText s) =
     (if 1 \<le> length s \<and> length s \<le> limit then Inr s else Inl (Field_Invalid field))"

fun money_field :: "string \<Rightarrow> py_value \<Rightarrow> invalid_request + cents" where
  "money_field field (PyInt v) =
     (if v > 0 \<and> v \<le> MAX_MONEY_CENTS then Inr v else Inl (Field_Invalid field))"
| "money_field field (PyBool b) = Inl (Field_Invalid field)"
| "money_field field PyOther = Inl (Field_Invalid field)"

fun aware_field :: "string \<Rightarrow> py_datetime \<Rightarrow> invalid_request + instant" where
  "aware_field field (Naive t) = Inl (Field_Invalid field)"
| "aware_field field (Aware t) = Inr t"

definition and_then :: "'e + 'a \<Rightarrow> ('a \<Rightarrow> 'e + 'b) \<Rightarrow> 'e + 'b" where
  "and_then m f = (case m of Inl e \<Rightarrow> Inl e | Inr x \<Rightarrow> f x)"

lemma and_then_eq_Inr [simp]: "and_then m f = Inr y \<longleftrightarrow> (\<exists>x. m = Inr x \<and> f x = Inr y)"
  by (cases m) (auto simp: and_then_def)

record create_auction_request =
  cr_title :: string
  cr_starting_price_cents :: cents
  cr_minimum_increment_cents :: cents
  cr_starts_at :: instant
  cr_ends_at :: instant

definition validate_values :: "create_auction_request \<Rightarrow> invalid_request + create_auction_request" where
  "validate_values body =
     (let stripped = body\<lparr>cr_title := py_strip (cr_title body)\<rparr> in
      if cr_title stripped = [] then Inl (Value_Rejected ''title cannot contain only whitespace'')
      else if cr_ends_at stripped \<le> cr_starts_at stripped
      then Inl (Value_Rejected ''ends_at must be later than starts_at'')
      else Inr stripped)"

definition parse_create_auction ::
    "py_text \<Rightarrow> py_value \<Rightarrow> py_value \<Rightarrow> py_datetime \<Rightarrow> py_datetime \<Rightarrow>
     invalid_request + create_auction_request" where
  "parse_create_auction title starting increment starts ends =
     and_then (text_field ''title'' MAX_TITLE_LENGTH title) (\<lambda>t.
     and_then (money_field ''starting_price_cents'' starting) (\<lambda>s.
     and_then (money_field ''minimum_increment_cents'' increment) (\<lambda>i.
     and_then (aware_field ''starts_at'' starts) (\<lambda>st.
     and_then (aware_field ''ends_at'' ends) (\<lambda>en.
     validate_values
       \<lparr>cr_title = t, cr_starting_price_cents = s, cr_minimum_increment_cents = i,
        cr_starts_at = st, cr_ends_at = en\<rparr>)))))"

record place_bid_request =
  br_request_id :: uuid
  br_bidder_id :: string
  br_amount_cents :: cents

definition strip_bidder :: "place_bid_request \<Rightarrow> invalid_request + place_bid_request" where
  "strip_bidder body =
     (let stripped = body\<lparr>br_bidder_id := py_strip (br_bidder_id body)\<rparr> in
      if br_bidder_id stripped = []
      then Inl (Value_Rejected ''bidder_id cannot contain only whitespace'')
      else Inr stripped)"

definition parse_place_bid ::
    "uuid \<Rightarrow> py_text \<Rightarrow> py_value \<Rightarrow> invalid_request + place_bid_request" where
  "parse_place_bid request bidder amount =
     and_then (text_field ''bidder_id'' MAX_BIDDER_ID_LENGTH bidder) (\<lambda>b.
     and_then (money_field ''amount_cents'' amount) (\<lambda>a.
     strip_bidder \<lparr>br_request_id = request, br_bidder_id = b, br_amount_cents = a\<rparr>))"

subsection \<open>Responses\<close>

record auction_response =
  rs_id :: uuid
  rs_title :: string
  rs_starting_price_cents :: int
  rs_current_price_cents :: "int option"
  rs_minimum_increment_cents :: int
  rs_winning_bid_id :: "uuid option"
  rs_version :: int
  rs_starts_at :: instant
  rs_ends_at :: instant
  rs_created_at :: instant

definition auction_response_of :: "auction_snapshot \<Rightarrow> auction_response" where
  "auction_response_of a =
     \<lparr>rs_id = au_id a, rs_title = au_title a,
      rs_starting_price_cents = au_starting_price_cents a,
      rs_current_price_cents = au_current_price_cents a,
      rs_minimum_increment_cents = au_minimum_increment_cents a,
      rs_winning_bid_id = au_winning_bid_id a, rs_version = au_version a,
      rs_starts_at = au_starts_at a, rs_ends_at = au_ends_at a, rs_created_at = au_created_at a\<rparr>"

record bid_response =
  bs_id :: uuid
  bs_request_id :: uuid
  bs_auction_id :: uuid
  bs_bidder_id :: string
  bs_amount_cents :: int
  bs_auction_version :: int
  bs_accepted_at :: instant

definition bid_response_of :: "accepted_bid \<Rightarrow> bid_response" where
  "bid_response_of b =
     \<lparr>bs_id = ab_id b, bs_request_id = ab_request_id b, bs_auction_id = ab_auction_id b,
      bs_bidder_id = ab_bidder_id b, bs_amount_cents = ab_amount_cents b,
      bs_auction_version = ab_auction_version b, bs_accepted_at = ab_accepted_at b\<rparr>"

record placement_response =
  pr_status :: bid_outcome_status
  pr_bid :: bid_response
  pr_attempts :: int
  pr_conflicts :: int

definition placement_response_of :: "bid_outcome \<Rightarrow> placement_response py" where
  "placement_response_of outcome =
     (case out_bid outcome of
        None \<Rightarrow> Inl (ValueError ''cannot serialize rejected outcome as success'')
      | Some bid \<Rightarrow>
          Inr \<lparr>pr_status = out_status outcome, pr_bid = bid_response_of bid,
               pr_attempts = out_attempts outcome, pr_conflicts = out_conflicts outcome\<rparr>)"

record state_event =
  ev_type :: string
  ev_auction_id :: uuid
  ev_version :: int
  ev_bid :: bid_response

text \<open>
  What a handler answers. \<open>Error_Response status reason minimum retry_after\<close> is an
  \<open>HTTPException\<close> with \<open>detail\<close> \<open>reason\<close>, the optional \<open>minimum_acceptable_cents\<close> and the
  optional \<open>Retry-After\<close> header.
\<close>

datatype http_response =
    Health_Response string
  | Auction_Response nat auction_response
  | Bid_List_Response "bid_response list"
  | Placement_Response placement_response
  | Error_Response nat string "cents option" "nat option"

primrec response_status :: "http_response \<Rightarrow> nat" where
  "response_status (Health_Response strategy) = 200"
| "response_status (Auction_Response status body) = status"
| "response_status (Bid_List_Response body) = 200"
| "response_status (Placement_Response body) = 200"
| "response_status (Error_Response status reason least retry_after) = status"

subsection \<open>Handlers\<close>

definition rejection_status :: "bid_rejection_reason \<Rightarrow> nat" where
  "rejection_status reason =
     (if reason = AUCTION_NOT_FOUND then 404
      else if reason = CONFLICT_RETRY_EXHAUSTED then 503
      else 409)"

definition not_found_response :: http_response where
  "not_found_response = Error_Response 404 ''auction_not_found'' None None"

definition busy_response :: http_response where
  "busy_response = Error_Response 503 ''database_busy'' None (Some 1)"

text \<open>\<open>SELECT 1\<close> on a pooled connection; \<open>setting\<close> is \<open>settings.bid_strategy\<close> of the application.\<close>

definition health_route :: "string \<Rightarrow> http_response prog" where
  "health_route setting =
     prog_bind (in_transaction (query Select_One reply_unit)) (\<lambda>_.
     Ret (Health_Response setting))"

definition create_auction_route :: "create_auction_request \<Rightarrow> http_response prog" where
  "create_auction_route body =
     prog_bind
       (service_create_auction (cr_title body) (cr_starting_price_cents body)
         (cr_minimum_increment_cents body) (cr_starts_at body) (cr_ends_at body)) (\<lambda>auction.
     Ret (Auction_Response 201 (auction_response_of auction)))"

definition get_auction_route :: "uuid \<Rightarrow> http_response prog" where
  "get_auction_route auction_id =
     prog_bind (service_get_auction auction_id) (\<lambda>found.
     case found of
       None \<Rightarrow> Ret not_found_response
     | Some auction \<Rightarrow> Ret (Auction_Response 200 (auction_response_of auction)))"

definition list_bids_route :: "uuid \<Rightarrow> http_response prog" where
  "list_bids_route auction_id =
     prog_bind (service_get_auction auction_id) (\<lambda>found.
     case found of
       None \<Rightarrow> Ret not_found_response
     | Some auction \<Rightarrow>
         prog_bind (service_list_bids auction_id) (\<lambda>bs.
         Ret (Bid_List_Response (map bid_response_of bs))))"

text \<open>
  The part of \<open>place_bid\<close> after the outcome: the response, and the event that is broadcast
  once the bid is committed.
\<close>

definition placement_answer ::
    "uuid \<Rightarrow> bid_outcome \<Rightarrow> (http_response \<times> state_event option) py" where
  "placement_answer auction_id outcome =
     (if out_status outcome = REJECTED then
        (case out_rejection_reason outcome of
           None \<Rightarrow> Inl AssertionError
         | Some reason \<Rightarrow>
             Inr (Error_Response (rejection_status reason) (rejection_value reason)
                    (out_minimum_acceptable_cents outcome) None, None))
      else
        py_bind (placement_response_of outcome) (\<lambda>response.
        if out_status outcome = ACCEPTED then
          (case out_bid outcome of
             None \<Rightarrow> Inl AssertionError
           | Some bid \<Rightarrow>
               Inr (Placement_Response response,
                    Some \<lparr>ev_type = ''auction.bid_accepted'', ev_auction_id = auction_id,
                          ev_version = ab_auction_version bid, ev_bid = bid_response_of bid\<rparr>))
        else Inr (Placement_Response response, None)))"

definition place_bid_route ::
    "(bid_command \<Rightarrow> bid_outcome prog) \<Rightarrow> uuid \<Rightarrow> place_bid_request \<Rightarrow>
     (http_response \<times> state_event option) prog" where
  "place_bid_route strategy auction_id body =
     prog_bind
       (of_py (make_bid_command (br_request_id body) auction_id (br_bidder_id body)
         (PyInt (br_amount_cents body)))) (\<lambda>command.
     prog_bind
       (prog_try
         (prog_bind (service_place_bid strategy command) (\<lambda>outcome. Ret (Inr outcome))) (\<lambda>e.
         case e of
           StrategyBusyError message \<Rightarrow> Ret (Inl busy_response)
         | _ \<Rightarrow> Raise e)) (\<lambda>answer.
     case answer of
       Inl response \<Rightarrow> Ret (response, None)
     | Inr outcome \<Rightarrow> of_py (placement_answer auction_id outcome)))"

subsection \<open>Validated requests\<close>

lemma text_field_eq_Inr [simp]:
  "text_field field limit v = Inr s \<longleftrightarrow> v = PyText s \<and> 1 \<le> length s \<and> length s \<le> limit"
  by (cases v) auto

lemma money_field_eq_Inr [simp]: "money_field field v = Inr m \<longleftrightarrow> v = PyInt m \<and> money_ok m"
  by (cases v) (auto simp: money_ok_def)

lemma aware_field_eq_Inr [simp]: "aware_field field v = Inr t \<longleftrightarrow> v = Aware t"
  by (cases v) auto

lemma length_strip: "length (py_strip s) \<le> length s"
proof -
  have "length (py_strip s) \<le> length (rev (dropWhile py_space s))"
    unfolding py_strip_def trim_by_def length_rev by (metis length_dropWhile_le length_rev)
  then show ?thesis by (metis length_dropWhile_le length_rev order_trans)
qed

lemma parse_place_bid_command:
  assumes "parse_place_bid request bidder amount = Inr body"
  shows "\<exists>cmd. make_bid_command (br_request_id body) auction_id (br_bidder_id body)
      (PyInt (br_amount_cents body)) = Inr cmd \<and> valid_command cmd \<and>
    cmd_bidder_id cmd = py_strip (cmd_bidder_id cmd) \<and> cmd_auction_id cmd = auction_id \<and>
    cmd_request_id cmd = request"
proof -
  from assms obtain b a where b: "bidder = PyText b" "amount = PyInt a" "money_ok a"
    "length b \<le> MAX_BIDDER_ID_LENGTH" "py_strip b \<noteq> []"
    and body: "body = \<lparr>br_request_id = request, br_bidder_id = py_strip b, br_amount_cents = a\<rparr>"
    by (auto simp: parse_place_bid_def strip_bidder_def Let_def split: if_splits)
  from b length_strip [of b] show ?thesis
    by (auto simp: body make_bid_command_def valid_command_def Let_def)
qed

subsection \<open>A bid over HTTP\<close>

text \<open>What a call of the handler leaves behind when it answers or raises.\<close>

definition route_ok :: "uuid \<Rightarrow> (http_response \<times> state_event option) \<Rightarrow> lstate \<Rightarrow> bool" where
  "route_ok auction_id ans l \<longleftrightarrow>
     (\<forall>r. fst ans = Placement_Response r \<longrightarrow>
        (\<exists>b \<in> set (log_bids l) \<union> set (l_seen l).
           rb_auction_id b = auction_id \<and> pr_bid r = bid_response_of (bid_of b))) \<and>
     (case snd ans of
        None \<Rightarrow> log_bids l = []
      | Some ev \<Rightarrow>
          (\<exists>b. log_bids l = [b] \<and> rb_auction_id b = auction_id \<and>
             ev = \<lparr>ev_type = ''auction.bid_accepted'', ev_auction_id = auction_id,
                   ev_version = rb_auction_version b, ev_bid = bid_response_of (bid_of b)\<rparr> \<and>
             (\<exists>r. fst ans = Placement_Response r \<and> pr_bid r = ev_bid ev)))"

lemma placement_answer_ok:
  assumes "outcome_ok cmd (log_bids l) (l_seen l) x" "cmd_auction_id cmd = auction_id"
    and "placement_answer auction_id x = Inr ans"
  shows "route_ok auction_id ans l"
  using assms
  by (auto simp: outcome_ok_def placement_answer_def placement_response_of_def route_ok_def carries_def
      split: bid_outcome_status.splits option.splits if_splits) blast

context bid_strategy
begin

lemma place_bid_route_triple:
  "triple C unbid (place_bid_route place_bid auction_id body) (route_ok auction_id) (\<lambda>e l. True)"
  unfolding place_bid_route_def
proof (rule triple_of_py_bind)
  fix cmd
  assume cmd: "make_bid_command (br_request_id body) auction_id (br_bidder_id body)
      (PyInt (br_amount_cents body)) = Inr cmd"
  then have a: "cmd_auction_id cmd = auction_id" by (simp add: make_bid_command_eq_Inr)
  let ?A = "\<lambda>ans l. case ans of Inl r \<Rightarrow> r = busy_response \<and> log_bids l = [] | Inr x \<Rightarrow> returns_ok cmd x l"
  have placed: "triple C unbid (prog_bind (service_place_bid place_bid cmd) (\<lambda>x. Ret (Inr x)))
      ?A (raises_ok cmd)"
    unfolding service_place_bid_def by (rule triple_bind [OF place_bid_triple]) auto
  have handler: "triple C (raises_ok cmd e)
      (case e of StrategyBusyError message \<Rightarrow> Ret (Inl busy_response) | _ \<Rightarrow> Raise e) ?A (\<lambda>e l. True)"
    for e
    by (cases e) (auto simp: raises_ok_def)
  show "triple C unbid
      (prog_bind
        (prog_try (prog_bind (service_place_bid place_bid cmd) (\<lambda>outcome. Ret (Inr outcome))) (\<lambda>e.
          case e of StrategyBusyError message \<Rightarrow> Ret (Inl busy_response) | _ \<Rightarrow> Raise e))
        (\<lambda>ans. case ans of
          Inl response \<Rightarrow> Ret (response, None)
        | Inr outcome \<Rightarrow> of_py (placement_answer auction_id outcome)))
      (route_ok auction_id) (\<lambda>e l. True)"
  proof (rule triple_bind [OF triple_try [OF placed handler]])
    fix ans :: "http_response + bid_outcome"
    show "triple C (?A ans) (case ans of
          Inl response \<Rightarrow> Ret (response, None)
        | Inr outcome \<Rightarrow> of_py (placement_answer auction_id outcome)) (route_ok auction_id) (\<lambda>e l. True)"
    proof (cases ans)
      case (Inr x)
      then show ?thesis
        by (auto simp: returns_ok_def intro!: triple_of_py placement_answer_ok [OF _ a])
    qed (auto simp: route_ok_def busy_response_def)
  qed
qed auto

end

end
