(* ===== verification/Ledger.thy ===== *)
theory Ledger
  imports Service
begin

section \<open>The abstract ledger\<close>

text \<open>
  What the platform promises of the committed data: every auction row summarises the bids
  stored for it, which form a legal history. \<open>ledger W d\<close> states it of a database, with \<open>W\<close>
  what is known of the times of acceptance. A legal transaction keeps it: it extends one
  history by one bid and rewrites the row the bid was checked against.
\<close>

definition history_of :: "db \<Rightarrow> uuid \<Rightarrow> bid_row list" where
  "history_of d a = filter (\<lambda>b. rb_auction_id b = a) (bids d)"

definition ledger :: "(instant \<Rightarrow> instant \<Rightarrow> instant \<Rightarrow> bool) \<Rightarrow> db \<Rightarrow> bool" where
  "ledger W d \<longleftrightarrow>
     (\<forall>a r. auctions d a = Some r \<longrightarrow>
        history_legal (snapshot_of r) (map bid_of (history_of d a)) \<and>
        (\<forall>b \<in> set (history_of d a). W (ra_starts_at r) (ra_ends_at r) (rb_accepted_at b)))"

lemma ledgerD:
  assumes "ledger W d" "auctions d a = Some r"
  shows "history_legal (snapshot_of r) (map bid_of (history_of d a))"
    "b \<in> set (history_of d a) \<Longrightarrow> W (ra_starts_at r) (ra_ends_at r) (rb_accepted_at b)"
  using assms by (auto simp: ledger_def)

lemma ledger_empty: "ledger W empty_db"
  by (simp add: ledger_def empty_db_def)

text \<open>The abstract operation: one more bid at the end of a legal history.\<close>

lemma map_int_upt_Suc: "map int [1..<Suc n + 1] = map int [1..<n + 1] @ [int n + 1]"
  by simp

lemma history_legal_snoc:
  assumes "history_legal (snapshot_of r) (map bid_of bs)"
    and "rb_auction_version b = ra_version r + 1" "sql_required r \<le> rb_amount_cents b"
  shows "history_legal (snapshot_of (bid_set (rb_amount_cents b) (rb_id b) (ra_version r + 1) r))
    (map bid_of (bs @ [b]))"
proof -
  from assms(1) have v: "map (ab_auction_version \<circ> bid_of) bs = map int [1..<length bs + 1]"
    "ra_version r = int (length bs)"
    by (simp_all add: history_legal_def)
  have "chain (ra_starting_price_cents r) (ra_minimum_increment_cents r) None
      (map (ab_amount_cents \<circ> bid_of) bs @ [rb_amount_cents b])"
    unfolding chain_snoc using assms(1,3)
    by (auto simp: history_legal_def sql_required_def last_map split: option.splits if_splits)
  with v assms(2) show ?thesis
    by (auto simp: history_legal_def map_int_upt_Suc)
qed

lemma history_legal_new:
  "auctions_check r \<Longrightarrow> ra_current_price_cents r = None \<Longrightarrow> history_legal (snapshot_of r) []"
  by (auto simp: history_legal_def auctions_check_def auctions_bid_state_consistent_def)

lemma history_of_apply: "history_of (apply_txn t d) a =
   history_of d a @ filter (\<lambda>b. rb_auction_id b = a) (t_bids t)"
  by (simp add: history_of_def apply_txn_def)

lemma history_of_unknown: "db_wf d \<Longrightarrow> auctions d a = None \<Longrightarrow> history_of d a = []"
  by (auto simp: history_of_def filter_empty_conv dest: db_wf_bidD)

lemma apply_txn_ledger:
  assumes "db_wf d" "txn_ok d t" "legal_txn W t" "ledger W d"
  shows "ledger W (apply_txn t d)"
  unfolding ledger_def
proof (intro allI impI)
  fix a r'
  assume r': "auctions (apply_txn t d) a = Some r'"
  let ?P = "\<lambda>bs. history_legal (snapshot_of r') (map bid_of bs) \<and>
    (\<forall>b \<in> set bs. W (ra_starts_at r') (ra_ends_at r') (rb_accepted_at b))"
  from assms(3) consider (none) "t_bids t = []" "t_aucs t = []" | (accept) r b where "accepting W r b t"
    by (auto simp: legal_txn_def)
  then show "?P (history_of (apply_txn t d) a)"
  proof cases
    case none
    from r' none have "put_all (auctions d) (t_new t) a = Some r'" by (simp add: apply_txn_def)
    from put_all_cases [OF this] show ?thesis
    proof
      assume new: "r' \<in> set (t_new t) \<and> ra_id r' = a"
      with assms(2) have "auctions d a = None" "auctions_check r'" "ra_current_price_cents r' = None"
        by (auto simp: txn_ok_def)
      then show ?thesis
        using assms(1) none by (simp add: history_of_apply history_of_unknown history_legal_new)
    next
      assume "a \<notin> ra_id ` set (t_new t) \<and> auctions d a = Some r'"
      then show ?thesis
        using ledgerD [OF assms(4), of a r'] none by (simp add: history_of_apply)
    qed
  next
    case accept
    then have b: "t_new t = []" "t_bids t = [b]" "r \<in> set (t_locks t)"
      "t_aucs t = [bid_set (rb_amount_cents b) (rb_id b) (ra_version r + 1) r]"
      "rb_auction_id b = ra_id r" "rb_auction_version b = ra_version r + 1"
      "sql_required r \<le> rb_amount_cents b" "W (ra_starts_at r) (ra_ends_at r) (rb_accepted_at b)"
      by (auto simp: accepting_def)
    with assms(2) have r: "auctions d (ra_id r) = Some r" by (auto simp: txn_ok_def)
    show ?thesis
    proof (cases "a = ra_id r")
      case True
      with b r' have "r' = bid_set (rb_amount_cents b) (rb_id b) (ra_version r + 1) r"
        by (auto simp: apply_txn_def)
      with True b ledgerD [OF assms(4) r] history_legal_snoc [OF _ b(6,7)] show ?thesis
        by (auto simp: history_of_apply)
    next
      case False
      with b r' have "auctions d a = Some r'" by (auto simp: apply_txn_def)
      with False b ledgerD [OF assms(4), of a r'] show ?thesis by (simp add: history_of_apply)
    qed
  qed
qed

text \<open>In a legal history the last bid is the only highest one.\<close>

lemma history_legal_highest:
  assumes "history_legal a (map bid_of bs)" "0 < au_minimum_increment_cents a" "b \<in> set bs"
    and "distinct (map rb_id bs)"
  shows "au_current_price_cents a = Some (Max (rb_amount_cents ` set bs))"
    and "au_winning_bid_id a = Some (rb_id b) \<longleftrightarrow> rb_amount_cents b = Max (rb_amount_cents ` set bs)"
proof -
  from assms(1,2) have sorted: "sorted_wrt (<) (map rb_amount_cents bs)"
    by (auto simp: history_legal_def comp_def dest: chain_sorted)
  from assms(3) have ne: "bs \<noteq> []" by auto
  then obtain cs c where bs: "bs = cs @ [c]" by (metis rev_exhaust)
  from sorted have below: "\<forall>x \<in> set cs. rb_amount_cents x < rb_amount_cents c"
    by (auto simp: bs sorted_wrt_append)
  then have m: "Max (rb_amount_cents ` set bs) = rb_amount_cents c"
    by (intro Max_eqI) (auto simp: bs less_imp_le)
  from assms(1) ne show "au_current_price_cents a = Some (Max (rb_amount_cents ` set bs))"
    by (simp add: history_legal_def m) (simp add: bs)
  from assms(1) ne have w: "au_winning_bid_id a = Some (rb_id c)"
    by (simp add: history_legal_def) (simp add: bs)
  show "au_winning_bid_id a = Some (rb_id b) \<longleftrightarrow> rb_amount_cents b = Max (rb_amount_cents ` set bs)"
    using assms(3,4) below unfolding m w by (auto simp: bs)
qed

subsection \<open>What the checker reports on a ledger\<close>

text \<open>The stored order of a legal history is the order the checker's query asks for.\<close>

lemma history_versions_sorted:
  assumes "history_legal a (map bid_of bs)"
  shows "sorted_wrt (<) (map rb_auction_version bs)"
proof -
  from assms have "map rb_auction_version bs = map int [1..<length bs + 1]"
    by (simp add: history_legal_def comp_def)
  then show ?thesis by (simp add: sorted_wrt_map del: upt_Suc)
qed

lemma select_bids_of_legal:
  assumes "history_legal a (map bid_of (filter (\<lambda>b. rb_auction_id b = i) bs))"
  shows "select_bids_of i bs = filter (\<lambda>b. rb_auction_id b = i) bs"
proof -
  let ?h = "filter (\<lambda>b. rb_auction_id b = i) bs"
  from history_versions_sorted [OF assms]
  have "sorted_wrt (\<lambda>x y. history_order x \<le> history_order y) ?h"
    unfolding sorted_wrt_map by (rule sorted_wrt_mono_rel [rotated]) (simp add: history_order_def less_eq_prod_def)
  then show ?thesis
    by (simp add: select_bids_of_def sort_key_id_if_sorted sorted_map)
qed

text \<open>The report on the committed data, as the checker computes it when nothing else runs.\<close>

definition report_on :: "db \<Rightarrow> uuid \<Rightarrow> invariant_report" where
  "report_on d a =
     (case auctions d a of
        None \<Rightarrow> invariant_report_of a None []
      | Some r \<Rightarrow>
          invariant_report_of a (Some (snapshot_of r)) (map bid_of (select_bids_of a (bids d))))"

lemma history_ids_distinct: "db_wf d \<Longrightarrow> distinct (map ab_id (map bid_of (history_of d a)))"
  by (simp add: db_wf_def history_of_def distinct_map_filter comp_def)

lemma report_on_ledger:
  assumes "db_wf d" "titles_clean d" "ledger W d" "auctions d a = Some r"
  shows "report_on d a = invariant_report_of a (Some (snapshot_of r)) (map bid_of (history_of d a))"
    and "valid_snapshot (snapshot_of r)"
  using assms ledgerD(1) [OF assms(3,4)]
  by (auto simp: report_on_def history_of_def select_bids_of_legal titles_clean_def
      intro: snapshot_of_valid dest: db_wfD)

lemma report_on_within:
  assumes "db_wf d" "titles_clean d" "ledger within d" "auctions d a = Some r"
  shows "report_valid (report_on d a)"
proof -
  have "history_in_window (snapshot_of r) (map bid_of (history_of d a))"
    using ledgerD(2) [OF assms(3,4)]
    by (auto simp: history_in_window_def list_all_iff in_window_def within_def)
  with report_on_ledger [OF assms] ledgerD(1) [OF assms(3,4)] history_ids_distinct [OF assms(1)]
  show ?thesis by (simp add: invariant_report_legal_iff)
qed

lemma report_on_not_before:
  assumes "db_wf d" "titles_clean d" "ledger W d" "auctions d a = Some r"
    and "v \<in> set (ir_violations (report_on d a))"
  shows "violation_code v = ''accepted_outside_window''"
  using assms(5) unfolding report_on_ledger(1) [OF assms(1-4)]
  by (rule invariant_report_window_only [OF report_on_ledger(2) [OF assms(1-4)]
        history_ids_distinct [OF assms(1)] ledgerD(1) [OF assms(3,4)]])

end
