(* ===== verification/Interleaving.thy ===== *)
theory Interleaving
  imports Ledger
begin

section \<open>Calls that run at the same time\<close>

text \<open>
  The database under many connections. What the calls rely on is the locale
  \<open>read_committed_service\<close>: a statement of one call has the effect \<open>Read_Committed\<close> gives it,
  touches no other call's transaction, publishes a transaction only when it commits, and has
  to wait while it would lock or insert what another open transaction has locked or inserted.
  Everything about interleavings is proved once, for any such service; \<open>service_step\<close> is one.
\<close>

subsection \<open>Conflicts between open transactions\<close>

definition overlap :: "('a \<Rightarrow> uuid) \<Rightarrow> 'a list \<Rightarrow> 'a list \<Rightarrow> bool" where
  "overlap f xs ys \<longleftrightarrow> list_ex (\<lambda>x. list_ex (\<lambda>y. f x = f y) ys) xs"

definition conflict :: "txn \<Rightarrow> txn \<Rightarrow> bool" where
  "conflict t u \<longleftrightarrow>
     overlap ra_id (t_locks t) (t_locks u) \<or> overlap ra_id (t_new t) (t_new u) \<or>
     overlap rb_id (t_bids t) (t_bids u) \<or> overlap rb_request_id (t_bids t) (t_bids u)"

definition compatible :: "lstate \<Rightarrow> lstate \<Rightarrow> bool" where
  "compatible l l' \<longleftrightarrow>
     (case l_txn l of
        None \<Rightarrow> True
      | Some t \<Rightarrow> (case l_txn l' of None \<Rightarrow> True | Some u \<Rightarrow> \<not> conflict t u))"

lemma overlap_iff: "overlap f xs ys \<longleftrightarrow> f ` set xs \<inter> f ` set ys \<noteq> {}"
  by (auto simp: overlap_def list_ex_iff)

lemma compatible_sym: "compatible l l' \<Longrightarrow> compatible l' l"
  by (auto simp: compatible_def conflict_def overlap_iff split: option.splits)

lemma compatible_idle [simp]: "compatible (idle t) l" "compatible l (idle t)"
  by (simp_all add: compatible_def idle_def split: option.split)

text \<open>A commit of one call keeps what a compatible call relies on.\<close>

lemma txn_ok_after_commit:
  assumes "db_wf d" "txn_ok d u" "txn_ok d t" "\<not> conflict t u"
  shows "txn_ok (apply_txn t d) u"
proof -
  let ?rs = "t_aucs t @ t_new t"
  have ids: "ra_id ` set ?rs \<subseteq> ra_id ` set (t_locks t) \<union> ra_id ` set (t_new t)"
    using txn_ok_auc_id [OF assms(3)] by auto
  have locked: "put_all (auctions d) ?rs (ra_id r) = auctions d (ra_id r)"
    if "r \<in> set (t_locks u)" for r
  proof (rule put_all_other)
    from that assms(2) have "auctions d (ra_id r) \<noteq> None" by (auto simp: txn_ok_def)
    then have "ra_id r \<notin> ra_id ` set (t_new t)" using assms(3) by (auto simp: txn_ok_def)
    moreover have "ra_id r \<notin> ra_id ` set (t_locks t)"
      using that assms(4) by (auto simp: conflict_def overlap_iff)
    ultimately show "ra_id r \<notin> ra_id ` set ?rs" using ids by auto
  qed
  have fresh: "put_all (auctions d) ?rs (ra_id r) = None" if "r \<in> set (t_new u)" for r
  proof -
    from that assms(2) have none: "auctions d (ra_id r) = None" by (auto simp: txn_ok_def)
    then have "ra_id r \<notin> ra_id ` set (t_locks t)" using assms(3) by (auto simp: txn_ok_def)
    moreover have "ra_id r \<notin> ra_id ` set (t_new t)"
      using that assms(4) by (auto simp: conflict_def overlap_iff)
    ultimately have "ra_id r \<notin> ra_id ` set ?rs" using ids by auto
    with none show ?thesis by (simp add: put_all_other)
  qed
  have unique: "bids_unique (bids d @ t_bids t) b" if "b \<in> set (t_bids u)" for b
    using that assms(2,4) by (auto simp: txn_ok_def bids_unique_def list_all_iff conflict_def overlap_iff)
  have fk: "put_all (auctions d) ?rs a \<noteq> None" if "auctions d a \<noteq> None" for a
    using that unfolding put_all_defined by blast
  have L: "\<forall>r \<in> set (t_locks u). put_all (auctions d) ?rs (ra_id r) = Some r"
    using locked assms(2) by (auto simp: txn_ok_def)
  have B: "\<forall>b \<in> set (t_bids u). bids_check b \<and> bids_unique (bids d @ t_bids t) b \<and>
      (put_all (auctions d) ?rs (rb_auction_id b) \<noteq> None \<or> rb_auction_id b \<in> ra_id ` set (t_new u))"
    using unique fk assms(2) unfolding txn_ok_def by blast
  from L B fresh assms(2) show ?thesis
    unfolding txn_ok_def apply_txn_def db.simps by blast
qed

lemma exec1_others:
  assumes "good d l" "good d m" "compatible l m" "exec1 d s l c = Some (r, l')"
  shows "good (db_after d l l') m"
  using assms(4)
proof (cases rule: exec1_cases)
  case (committed t)
  with assms(1) have t: "db_wf d" "txn_ok d t" "deferred_fk_ok d t"
    by (auto simp: good_def)
  have rows: "\<exists>x'. auctions (apply_txn t d) (ra_id x) = Some x' \<and> same_terms x x'"
    if "x \<in> set (l_rows m)" for x
    using that assms(2) apply_txn_terms [OF t(2)] same_terms_trans
    by (fastforce simp: good_def)
  have "txn_ok (apply_txn t d) u" if "l_txn m = Some u" for u
    using that committed assms(2,3) t by (auto simp: good_def compatible_def intro: txn_ok_after_commit)
  with committed rows apply_txn_wf [OF t] show ?thesis by (auto simp: good_def)
qed (use assms(2) in auto)

text \<open>A commit publishes one transaction that has kept its conditions.\<close>

lemma exec1_db:
  assumes "exec1 d s l c = Some (r, l')"
  obtains (same) "db_after d l l' = d" "l_log l' = l_log l"
  | (commit) t where "s = Commit" "l_txn l = Some t" "\<not> t_failed t" "deferred_fk_ok d t"
      "db_after d l l' = apply_txn t d" "l_log l' = l_log l @ [t]"
  using assms by (cases rule: exec1_cases) auto

lemma apply_txn_titles:
  assumes "titles_clean d" "txn_ok d t" "legal_txn W t"
  shows "titles_clean (apply_txn t d)"
  unfolding titles_clean_def
proof (intro allI impI)
  fix a r
  assume "auctions (apply_txn t d) a = Some r"
  then have "put_all (auctions d) (t_aucs t @ t_new t) a = Some r" by (simp add: apply_txn_def)
  from put_all_cases [OF this] consider "r \<in> set (t_aucs t)" | "r \<in> set (t_new t)"
    | "auctions d a = Some r" by auto
  then show "py_strip (ra_title r) = ra_title r"
  proof cases
    case 1
    then obtain x where x: "x \<in> set (t_locks t) \<union> set (t_new t)" "same_terms x r"
      using txn_ok_auc_terms [OF assms(2)] by blast
    then have "py_strip (ra_title x) = ra_title x"
      using assms by (auto simp: txn_ok_def titles_clean_def legal_txn_def)
    with same_termsD(4) [OF x(2)] show ?thesis by simp
  qed (use assms in \<open>auto simp: titles_clean_def legal_txn_def\<close>)
qed

lemma exec1_seen:
  assumes "exec1 d s l c = Some (r, l')"
  shows "set (l_seen l') \<subseteq> set (l_seen l) \<union> set (bids d)"
  using assms by (cases rule: exec1_cases) (auto simp: seen_by_def)

lemma db_after_bids:
  assumes "exec1 d s l c = Some (r, l')"
  shows "\<exists>bs. bids (db_after d l l') = bids d @ bs"
  using assms by (cases rule: exec1_db) (auto simp: apply_txn_def)

lemma db_after_terms:
  assumes "good d l" "exec1 d s l c = Some (r, l')" "auctions d a = Some x"
  shows "\<exists>x'. auctions (db_after d l l') a = Some x' \<and> same_terms x x'"
  using assms(2)
proof (cases rule: exec1_db)
  case (commit t)
  with assms(1) have "txn_ok d t" by (simp add: good_def)
  from apply_txn_terms [OF this assms(3)] commit show ?thesis by simp
qed (use assms(3) in simp)

subsection \<open>Executions\<close>

text \<open>
  \<open>s\<close> is the state of the service and \<open>ps p\<close> what is left of the call on connection \<open>p\<close>. A step
  is one statement of one call, at a moment the service allows it.
\<close>

inductive runs ::
    "('s \<Rightarrow> nat \<Rightarrow> stmt \<Rightarrow> choice \<Rightarrow> (reply \<times> 's) option) \<Rightarrow>
     's \<times> (nat \<Rightarrow> 'a prog) \<Rightarrow> 's \<times> (nat \<Rightarrow> 'a prog) \<Rightarrow> bool"
  for step where
  runs_refl: "runs step x x"
| runs_step: "runs step x (s, ps) \<Longrightarrow> ps p = Exec st k \<Longrightarrow> step s p st c = Some (r, s') \<Longrightarrow>
    runs step x (s', ps(p := k r))"

text \<open>At the start no call has begun and the stored data satisfies the schema.\<close>

definition at_start :: "('s \<Rightarrow> db) \<Rightarrow> ('s \<Rightarrow> nat \<Rightarrow> lstate) \<Rightarrow> 's \<Rightarrow> bool" where
  "at_start store call s \<longleftrightarrow> db_wf (store s) \<and> (\<forall>p. \<exists>t. call s p = idle t)"

locale read_committed_service =
  fixes store :: "'s \<Rightarrow> db"
    and call :: "'s \<Rightarrow> nat \<Rightarrow> lstate"
    and step :: "'s \<Rightarrow> nat \<Rightarrow> stmt \<Rightarrow> choice \<Rightarrow> (reply \<times> 's) option"
  assumes own_effect:
      "step s p st c = Some (r, s') \<Longrightarrow> exec1 (store s) st (call s p) c = Some (r, call s' p)"
    and no_interference: "step s p st c = Some (r, s') \<Longrightarrow> q \<noteq> p \<Longrightarrow> call s' q = call s q"
    and commits_only:
      "step s p st c = Some (r, s') \<Longrightarrow> store s' = db_after (store s) (call s p) (call s' p)"
    and waits_for_conflicts:
      "step s p st c = Some (r, s') \<Longrightarrow> q \<noteq> p \<Longrightarrow> compatible (call s q) (call s p) \<Longrightarrow>
       compatible (call s' q) (call s' p)"
begin

text \<open>The invariant of an execution: isolation, and each call within its weakest precondition.\<close>

definition isolated :: "'s \<Rightarrow> bool" where
  "isolated s \<longleftrightarrow>
     (\<forall>p. good (store s) (call s p)) \<and> (\<forall>p q. p \<noteq> q \<longrightarrow> compatible (call s p) (call s q))"

lemma step_isolated:
  assumes "isolated s" "step s p st c = Some (r, s')"
  shows "isolated s'"
proof -
  note e = own_effect [OF assms(2)] and d = commits_only [OF assms(2)]
    and f = no_interference [OF assms(2)] and w = waits_for_conflicts [OF assms(2)]
  have g: "good (store s) (call s q)" for q using assms(1) by (simp add: isolated_def)
  have "good (store s') (call s' q)" for q
  proof (cases "q = p")
    case True
    with exec1_good [OF g e] d show ?thesis by simp
  next
    case False
    with assms(1) have "compatible (call s p) (call s q)" by (simp add: isolated_def)
    with exec1_others [OF g g _ e] d f [OF False] show ?thesis by simp
  qed
  moreover have "compatible (call s' a) (call s' b)" if ab: "a \<noteq> b" for a b
  proof -
    from assms(1) have old: "a \<noteq> b \<Longrightarrow> compatible (call s a) (call s b)" for a b
      by (simp add: isolated_def)
    consider "a = p" "b \<noteq> p" | "b = p" "a \<noteq> p" | "a \<noteq> p" "b \<noteq> p" using ab by blast
    then show ?thesis
    proof cases
      case 1
      with w [of b] old [of b p] show ?thesis by (auto intro: compatible_sym)
    next
      case 2
      with w [of a] old [of a p] show ?thesis by simp
    next
      case 3
      with f [of a] f [of b] old [OF ab] show ?thesis by simp
    qed
  qed
  ultimately show ?thesis by (simp add: isolated_def)
qed

lemma runs_isolated:
  "runs step x y \<Longrightarrow> isolated (fst x) \<Longrightarrow> isolated (fst y)"
  by (induction rule: runs.induct) (auto intro: step_isolated)

lemma isolated_wf: "isolated s \<Longrightarrow> db_wf (store s)"
  by (auto simp: isolated_def good_def)

text \<open>Each call stays within its weakest precondition, whatever the others do.\<close>

definition on_course ::
    "(nat \<Rightarrow> txn \<Rightarrow> bool) \<Rightarrow> (nat \<Rightarrow> 'a py \<Rightarrow> lstate \<Rightarrow> bool) \<Rightarrow> 's \<times> (nat \<Rightarrow> 'a prog) \<Rightarrow> bool" where
  "on_course C Q x \<longleftrightarrow> (\<forall>p. wp (C p) (snd x p) (Q p) (call (fst x) p))"

lemma step_on_course:
  assumes "isolated s" "on_course C Q (s, ps)" "ps p = Exec st k" "step s p st c = Some (r, s')"
  shows "on_course C Q (s', ps(p := k r))"
proof -
  have "wp (C p) (Exec st k) (Q p) (call s p)"
    using assms(2,3) by (auto simp: on_course_def dest: spec [of _ p])
  moreover have "good (store s) (call s p)" using assms(1) by (simp add: isolated_def)
  ultimately have "wp (C p) (k r) (Q p) (call s' p)"
    using own_effect [OF assms(4)] unfolding wp.simps by blast
  with assms(2) no_interference [OF assms(4)] show ?thesis by (auto simp: on_course_def)
qed

lemma runs_on_course:
  "runs step x y \<Longrightarrow> isolated (fst x) \<Longrightarrow> on_course C Q x \<Longrightarrow> on_course C Q y"
proof (induction rule: runs.induct)
  case (runs_step x s ps p st k c r s')
  from runs_isolated [OF runs_step.hyps(1)] runs_step show ?case
    by (auto intro: step_on_course)
qed

lemma finished_on_course:
  "on_course C Q (s, ps) \<Longrightarrow> ps p = Ret v \<Longrightarrow> Q p (Inr v) (call s p)"
  "on_course C Q (s, ps) \<Longrightarrow> ps p = Raise e \<Longrightarrow> Q p (Inl e) (call s p)"
  unfolding on_course_def by (auto dest: spec [of _ p])

text \<open>What every committed transaction keeps, and every call commits, holds of the store.\<close>

lemma step_store:
  assumes "isolated s" "on_course C Q (s, ps)" "ps p = Exec st k" "step s p st c = Some (r, s')"
    and "P (store s)"
    and keeps: "\<And>t d. C p t \<Longrightarrow> db_wf d \<Longrightarrow> txn_ok d t \<Longrightarrow> P d \<Longrightarrow> P (apply_txn t d)"
  shows "P (store s')"
  using own_effect [OF assms(4)]
proof (cases rule: exec1_db)
  case same
  with commits_only [OF assms(4)] assms(5) show ?thesis by simp
next
  case (commit t)
  have "wp (C p) (Exec st k) (Q p) (call s p)"
    using assms(2,3) by (auto simp: on_course_def dest: spec [of _ p])
  with commit have "C p t" by auto
  moreover have "db_wf (store s)" "txn_ok (store s) t"
    using assms(1) commit(2) by (auto simp: isolated_def good_def)
  ultimately show ?thesis
    using keeps assms(5) commits_only [OF assms(4)] commit(5) by simp
qed

lemma runs_store:
  assumes "runs step x y" "isolated (fst x)" "on_course C Q x" "P (store (fst x))"
    and keeps: "\<And>p t d. C p t \<Longrightarrow> db_wf d \<Longrightarrow> txn_ok d t \<Longrightarrow> P d \<Longrightarrow> P (apply_txn t d)"
  shows "P (store (fst y))"
  using assms(1-4)
proof (induction rule: runs.induct)
  case (runs_step x s ps p st k c r s')
  note x = runs_step.prems(1,2)
  have "isolated s" "on_course C Q (s, ps)"
    using runs_isolated [OF runs_step.hyps(1) x(1)] runs_on_course [OF runs_step.hyps(1) x] by simp_all
  moreover have "P (store s)" using runs_step.IH [OF runs_step.prems] by simp
  ultimately have "P (store s')"
    using step_store [where P = P and s = s and C = C and Q = Q and ps = ps and p = p and st = st
        and k = k and c = c and r = r and s' = s'] runs_step.hyps(2,3) keeps
    by blast
  then show ?case by simp
qed

text \<open>
  The history variables are true: what a call has logged or was shown is in the store, and no
  two calls have logged bids with the same request.
\<close>

definition owned :: "'s \<Rightarrow> bool" where
  "owned s \<longleftrightarrow>
     (\<forall>p. set (log_bids (call s p)) \<union> set (l_seen (call s p)) \<subseteq> set (bids (store s))) \<and>
     (\<forall>p q. p \<noteq> q \<longrightarrow>
        rb_request_id ` set (log_bids (call s p)) \<inter> rb_request_id ` set (log_bids (call s q)) = {})"

lemma step_owned:
  assumes "isolated s" "owned s" "step s p st c = Some (r, s')"
  shows "owned s'"
proof -
  obtain bs where bs: "bids (store s') = bids (store s) @ bs"
    using db_after_bids [OF own_effect [OF assms(3)]] commits_only [OF assms(3)] by auto
  have seen: "set (l_seen (call s' q)) \<subseteq> set (bids (store s'))" for q
    using exec1_seen [OF own_effect [OF assms(3)]] no_interference [OF assms(3), of q] assms(2) bs
    by (cases "q = p") (auto simp: owned_def)
  from own_effect [OF assms(3)] show ?thesis
  proof (cases rule: exec1_db)
    case same
    then have "log_bids (call s' q) = log_bids (call s q)" for q
      using no_interference [OF assms(3), of q] by (cases "q = p") (auto simp: log_bids_def)
    with same assms(2) commits_only [OF assms(3)] seen show ?thesis by (simp add: owned_def)
  next
    case (commit t)
    have t: "txn_ok (store s) t" using assms(1) commit(2) by (auto simp: isolated_def good_def)
    have logs: "log_bids (call s' q) = log_bids (call s q) @ (if q = p then t_bids t else [])" for q
      using no_interference [OF assms(3), of q] commit(6) by (auto simp: log_bids_def)
    have db: "bids (store s') = bids (store s) @ t_bids t"
      using commits_only [OF assms(3)] commit(5) by (simp add: apply_txn_def)
    have new: "rb_request_id ` set (t_bids t) \<inter> rb_request_id ` set (log_bids (call s q)) = {}" for q
      using t assms(2) by (fastforce simp: txn_ok_def bids_unique_def list_all_iff owned_def)
    have sub: "set (log_bids (call s q)) \<subseteq> set (bids (store s))" for q
      using assms(2) by (simp add: owned_def)
    have dis: "a \<noteq> b \<Longrightarrow>
        rb_request_id ` set (log_bids (call s a)) \<inter> rb_request_id ` set (log_bids (call s b)) = {}" for a b
      using assms(2) by (simp add: owned_def)
    have "rb_request_id ` set (log_bids (call s' a)) \<inter> rb_request_id ` set (log_bids (call s' b)) = {}"
      if "a \<noteq> b" for a b
      using dis [OF that] new [of a] new [of b] that by (auto simp: logs image_Un)
    moreover have "set (log_bids (call s' q)) \<subseteq> set (bids (store s'))" for q
      using sub [of q] by (auto simp: logs db)
    ultimately show ?thesis using seen unfolding owned_def by blast
  qed
qed

lemma runs_owned:
  "runs step x y \<Longrightarrow> isolated (fst x) \<Longrightarrow> owned (fst x) \<Longrightarrow> owned (fst y)"
proof (induction rule: runs.induct)
  case (runs_step x s ps p st k c r s')
  from runs_isolated [OF runs_step.hyps(1)] runs_step show ?case by (auto intro: step_owned)
qed

text \<open>Bids are only ever added, auctions stay and keep their terms.\<close>

lemma runs_history:
  "runs step x y \<Longrightarrow> isolated (fst x) \<Longrightarrow> \<exists>bs. bids (store (fst y)) = bids (store (fst x)) @ bs"
proof (induction rule: runs.induct)
  case (runs_step x s ps p st k c r s')
  from db_after_bids [OF own_effect [OF runs_step.hyps(3)]] commits_only [OF runs_step.hyps(3)]
    runs_step.IH [OF runs_step.prems]
  show ?case by auto
qed simp

lemma runs_terms:
  "runs step x y \<Longrightarrow> isolated (fst x) \<Longrightarrow> auctions (store (fst x)) a = Some r \<Longrightarrow>
   \<exists>r'. auctions (store (fst y)) a = Some r' \<and> same_terms r r'"
proof (induction rule: runs.induct)
  case (runs_step x s ps p st k c rep s')
  have "good (store s) (call s p)"
    using runs_isolated [OF runs_step.hyps(1) runs_step.prems(1)] by (simp add: isolated_def)
  from db_after_terms [OF this own_effect [OF runs_step.hyps(3)]] commits_only [OF runs_step.hyps(3)]
    runs_step.IH [OF runs_step.prems]
  show ?case by simp (blast intro: same_terms_trans)
qed simp

subsection \<open>A service under load\<close>

lemma at_start_isolated: "at_start store call s \<Longrightarrow> isolated s"
  unfolding at_start_def isolated_def good_def
  by (metis compatible_idle(1) idle_def empty_iff list.set(1) lstate.select_convs(1,5)
      option.distinct(1))

lemma at_start_owned: "at_start store call s \<Longrightarrow> owned s"
proof -
  assume "at_start store call s"
  then have "log_bids (call s p) = []" "l_seen (call s p) = []" for p
    by (auto simp: at_start_def log_bids_def idle_def dest!: spec [of _ p])
  then show ?thesis by (simp add: owned_def)
qed

text \<open>Any family of calls that starts idle and is specified by triples.\<close>

lemma triples_on_course:
  assumes "at_start store call s" "\<And>p. triple (C p) unbid (prog p) (A p) (F p)"
  shows "on_course C (\<lambda>p. fin (A p) (F p)) (s, prog)"
  unfolding on_course_def fst_conv snd_conv
proof
  fix p
  have "unbid (call s p)" using assms(1) idle_unbid by (metis at_start_def)
  with assms(2) show "wp (C p) (prog p) (fin (A p) (F p)) (call s p)" by (rule tripleD)
qed

lemma load_wf:
  assumes "at_start store call s" "runs step (s, ps) (s', ps')"
  shows "db_wf (store s')"
  using runs_isolated [OF assms(2)] at_start_isolated [OF assms(1)] by (auto intro: isolated_wf)

lemma load_triples:
  assumes "at_start store call s" "\<And>p. triple (C p) unbid (prog p) (A p) (F p)"
    and "runs step (s, prog) (s', ps')"
  shows "ps' p = Ret v \<Longrightarrow> A p v (call s' p)" "ps' p = Raise e \<Longrightarrow> F p e (call s' p)"
  using finished_on_course [OF runs_on_course [OF assms(3) _ triples_on_course [OF assms(1,2)]], of p]
    at_start_isolated [OF assms(1)]
  by auto

lemma load_keeps:
  assumes "at_start store call s" "\<And>p. triple (C p) unbid (prog p) (A p) (F p)"
    and "runs step (s, prog) (s', ps')" "P (store s)"
    and "\<And>p t d. C p t \<Longrightarrow> db_wf d \<Longrightarrow> txn_ok d t \<Longrightarrow> P d \<Longrightarrow> P (apply_txn t d)"
  shows "P (store s')"
  using runs_store [OF assms(3) _ triples_on_course [OF assms(1,2)], of P]
    at_start_isolated [OF assms(1)] assms(4,5)
  by simp

text \<open>The committed bids of every call, and what it was shown, are in the store.\<close>

lemma load_owned:
  assumes "at_start store call s" "runs step (s, ps) (s', ps')"
  shows "set (log_bids (call s' p)) \<union> set (l_seen (call s' p)) \<subseteq> set (bids (store s'))"
  using runs_owned [OF assms(2)] at_start_isolated [OF assms(1)] at_start_owned [OF assms(1)]
  by (simp add: owned_def)

text \<open>Calls of the service.\<close>

lemma load_answer:
  assumes "at_start store call s" "\<And>p. bid_strategy (strat p) (C p)"
    and "runs step (s, \<lambda>p. service_call (strat p) (calls p)) (s', ps')" "ps' p = Ret v"
  shows "answer_ok (calls p) v (call s' p)"
  by (rule load_triples(1) [where A = "\<lambda>p. answer_ok (calls p)", OF assms(1)
        bid_strategy.service_call_triple [OF assms(2)] assms(3,4)])

lemma load_failure:
  assumes "at_start store call s" "\<And>p. bid_strategy (strat p) (C p)"
    and "runs step (s, \<lambda>p. service_call (strat p) (calls p)) (s', ps')" "ps' p = Raise e"
  shows "failure_ok (calls p) e (call s' p)"
  by (rule load_triples(2) [where F = "\<lambda>p. failure_ok (calls p)", OF assms(1)
        bid_strategy.service_call_triple [OF assms(2)] assms(3,4)])

text \<open>Calls whose transactions are legal keep the ledger.\<close>

lemma legal_keeps_ledger:
  assumes "at_start store call s" "\<And>p. triple (legal_txn (V p)) unbid (prog p) (A p) (F p)"
    and "\<And>p starts ends t. V p starts ends t \<Longrightarrow> W starts ends t"
    and "runs step (s, prog) (s', ps')" "ledger W (store s)" "titles_clean (store s)"
  shows "ledger W (store s') \<and> titles_clean (store s')"
proof (rule load_keeps [OF assms(1,2,4), of "\<lambda>d. ledger W d \<and> titles_clean d"])
  fix p t d
  assume "legal_txn (V p) t" "db_wf d" "txn_ok d t" "ledger W d \<and> titles_clean d"
  moreover from this(1) have "legal_txn W t"
    using assms(3) by (fastforce simp: legal_txn_def accepting_def)
  ultimately show "ledger W (apply_txn t d) \<and> titles_clean (apply_txn t d)"
    by (auto intro: apply_txn_ledger apply_txn_titles)
qed (use assms(5,6) in simp)

lemma load_ledger:
  assumes "at_start store call s" "\<And>p. safe_bid_strategy (strat p) (V p)"
    and "\<And>p starts ends t. V p starts ends t \<Longrightarrow> W starts ends t"
    and "runs step (s, \<lambda>p. service_call (strat p) (calls p)) (s', ps')"
    and "ledger W (store s)" "titles_clean (store s)"
  shows "ledger W (store s') \<and> titles_clean (store s')"
proof -
  have "\<And>p. bid_strategy (strat p) (legal_txn (V p))"
    using assms(2) by (simp add: safe_bid_strategy_def)
  note t = bid_strategy.service_call_triple [OF this]
  show ?thesis by (rule legal_keeps_ledger [OF assms(1) t assms(3-6)])
qed

end

subsection \<open>A service\<close>

text \<open>
  An executable service with as many connections as the list has entries. A statement that
  would conflict with another connection's transaction cannot run yet.
\<close>

record service_state =
  sv_store :: db
  sv_calls :: "lstate list"

definition service_of :: "service_state \<Rightarrow> nat \<Rightarrow> lstate" where
  "service_of s p = (if p < length (sv_calls s) then sv_calls s ! p else idle 0)"

definition service_step ::
    "service_state \<Rightarrow> nat \<Rightarrow> stmt \<Rightarrow> choice \<Rightarrow> (reply \<times> service_state) option" where
  "service_step s p st c =
     (if p < length (sv_calls s) then
        (case exec1 (sv_store s) st (sv_calls s ! p) c of
           None \<Rightarrow> None
         | Some (r, l') \<Rightarrow>
             if list_all (\<lambda>q. q = p \<or> compatible (sv_calls s ! q) l') [0..<length (sv_calls s)]
             then Some (r, s\<lparr>sv_store := db_after (sv_store s) (sv_calls s ! p) l',
                            sv_calls := (sv_calls s)[p := l']\<rparr>)
             else None)
      else None)"

lemma service_stepD:
  assumes "service_step s p st c = Some (r, s')"
  obtains l' where "exec1 (sv_store s) st (service_of s p) c = Some (r, l')"
    "service_of s' = (service_of s)(p := l')"
    "sv_store s' = db_after (sv_store s) (service_of s p) l'"
    "\<And>q. q \<noteq> p \<Longrightarrow> compatible (service_of s q) l'"
proof -
  from assms obtain l' where l': "p < length (sv_calls s)"
      "exec1 (sv_store s) st (sv_calls s ! p) c = Some (r, l')"
      "list_all (\<lambda>q. q = p \<or> compatible (sv_calls s ! q) l') [0..<length (sv_calls s)]"
      "s' = s\<lparr>sv_store := db_after (sv_store s) (sv_calls s ! p) l', sv_calls := (sv_calls s)[p := l']\<rparr>"
    by (auto simp: service_step_def split: if_splits option.splits)
  have "service_of s p = sv_calls s ! p" using l'(1) by (simp add: service_of_def)
  moreover have "service_of s' = (service_of s)(p := l')"
    using l'(1,4) by (auto simp: service_of_def fun_eq_iff)
  moreover have "q \<noteq> p \<Longrightarrow> compatible (service_of s q) l'" for q
    using l'(3) by (cases "q < length (sv_calls s)") (auto simp: service_of_def list_all_iff)
  ultimately show ?thesis using l' that by simp
qed

interpretation service: read_committed_service sv_store service_of service_step
proof
  fix s p st c r s' q
  assume step: "service_step s p st c = Some (r, s')"
  then obtain l' where l': "exec1 (sv_store s) st (service_of s p) c = Some (r, l')"
    "service_of s' = (service_of s)(p := l')" "sv_store s' = db_after (sv_store s) (service_of s p) l'"
    "\<And>q. q \<noteq> p \<Longrightarrow> compatible (service_of s q) l'"
    by (rule service_stepD) blast
  then show "exec1 (sv_store s) st (service_of s p) c = Some (r, service_of s' p)"
    and "sv_store s' = db_after (sv_store s) (service_of s p) (service_of s' p)"
    by simp_all
  assume "q \<noteq> p"
  with l' show "service_of s' q = service_of s q" and "compatible (service_of s' q) (service_of s' p)"
    by simp_all
qed

text \<open>A schedule: which connection runs its next statement, and what the environment chooses.\<close>

fun play ::
    "('s \<Rightarrow> nat \<Rightarrow> stmt \<Rightarrow> choice \<Rightarrow> (reply \<times> 's) option) \<Rightarrow> (nat \<times> choice) list \<Rightarrow>
     's \<times> (nat \<Rightarrow> 'a prog) \<Rightarrow> ('s \<times> (nat \<Rightarrow> 'a prog)) option" where
  "play step [] x = Some x"
| "play step ((p, c) # cs) x =
     (case snd x p of
        Exec st k \<Rightarrow>
          (case step (fst x) p st c of
             None \<Rightarrow> None
           | Some (r, s') \<Rightarrow> play step cs (s', (snd x)(p := k r)))
      | _ \<Rightarrow> None)"

lemma play_runs: "play step cs x = Some y \<Longrightarrow> runs step z x \<Longrightarrow> runs step z y"
proof (induction step cs x rule: play.induct)
  case (2 step p c cs x)
  then obtain s ps st k r s' where x: "x = (s, ps)" "ps p = Exec st k" "step s p st c = Some (r, s')"
    and y: "play step cs (s', ps(p := k r)) = Some y"
    by (cases x) (auto split: prog.splits option.splits)
  have "runs step z (s', ps(p := k r))"
    using "2.prems"(2) x by (auto intro: runs_step)
  with "2.IH" [of st k "(r, s')" r s'] x y show ?case by simp
qed simp

end
