(* ===== verification/Websockets.thy ===== *)
theory Websockets
  imports Api Interleaving
begin

section \<open>The server\<close>

text \<open>
  \<^verbatim>\<open>src/src/bidding/api/websockets.py\<close> and the routes around it. A request is one of the HTTP
  requests or a watcher, whose socket is known by the number of the request. A request first
  runs its statements, as in \<open>runs\<close>; what it does afterwards with the connection manager is a
  sequence of turns. A turn is what one task does between two points where the event loop may switch
  to another: the manager's lock makes every access to its dictionary such a turn.
\<close>

subsection \<open>The connection manager\<close>

type_synonym connections = "uuid \<rightharpoonup> nat set"

definition listeners :: "connections \<Rightarrow> uuid \<Rightarrow> nat set" where
  "listeners m a = (case m a of None \<Rightarrow> {} | Some ws \<Rightarrow> ws)"

definition manager_connect :: "uuid \<Rightarrow> nat \<Rightarrow> connections \<Rightarrow> connections" where
  "manager_connect auction_id websocket m =
     m(auction_id \<mapsto> insert websocket (listeners m auction_id))"

definition manager_disconnect :: "uuid \<Rightarrow> nat \<Rightarrow> connections \<Rightarrow> connections" where
  "manager_disconnect auction_id websocket m =
     (case m auction_id of
        None \<Rightarrow> m
      | Some ws \<Rightarrow>
          let ws' = ws - {websocket} in
          if ws' = {} then m(auction_id := None) else m(auction_id \<mapsto> ws'))"

text \<open>No auction without watchers keeps an entry.\<close>

definition no_empty_entry :: "connections \<Rightarrow> bool" where
  "no_empty_entry m \<longleftrightarrow> (\<forall>a. m a \<noteq> Some {})"

text \<open>
  What the routes rely on: the manager is a family of sets of sockets, one for each auction,
  whatever it is made of; and what a broadcast relies on, that a removal leaves nothing behind
  and does not care about the order.
\<close>

locale socket_registry =
  fixes empty :: 'm
    and connect :: "uuid \<Rightarrow> nat \<Rightarrow> 'm \<Rightarrow> 'm"
    and disconnect :: "uuid \<Rightarrow> nat \<Rightarrow> 'm \<Rightarrow> 'm"
    and sockets :: "'m \<Rightarrow> uuid \<Rightarrow> nat set"
    and invar :: "'m \<Rightarrow> bool"
  assumes sockets_empty: "sockets empty b = {}"
    and sockets_connect: "sockets (connect a w m) b = (if b = a then insert w (sockets m a) else sockets m b)"
    and sockets_disconnect: "sockets (disconnect a w m) b = (if b = a then sockets m a - {w} else sockets m b)"
    and invar_empty: "invar empty"
    and invar_connect: "invar m \<Longrightarrow> invar (connect a w m)"
    and invar_disconnect: "invar m \<Longrightarrow> invar (disconnect a w m)"
    and invar_unique: "invar m \<Longrightarrow> invar m' \<Longrightarrow> sockets m = sockets m' \<Longrightarrow> m = m'"
begin

lemmas specs = sockets_empty sockets_connect sockets_disconnect invar_empty invar_connect invar_disconnect

text \<open>The concurrent removals at the end of a broadcast can happen in any order.\<close>

lemma removal_order:
  assumes "invar m" "set vs = set ws"
  shows "fold (disconnect a) vs m = fold (disconnect a) ws m"
proof (rule invar_unique)
  have "invar (fold (disconnect a) us m) \<and>
      sockets (fold (disconnect a) us m) b = (if b = a then sockets m a - set us else sockets m b)" for us b
    using assms(1) by (induction us arbitrary: m) (auto simp: specs)
  with assms(2) show "invar (fold (disconnect a) vs m)" "invar (fold (disconnect a) ws m)"
    "sockets (fold (disconnect a) vs m) = sockets (fold (disconnect a) ws m)"
    by (auto simp: fun_eq_iff)
qed

end

interpretation manager: socket_registry Map.empty manager_connect manager_disconnect listeners no_empty_entry
proof unfold_locales
  fix m m' :: connections
  assume m: "no_empty_entry m" "no_empty_entry m'" "listeners m = listeners m'"
  show "m = m'"
  proof
    fix a
    from m have "m a \<noteq> Some {}" "m' a \<noteq> Some {}" "listeners m a = listeners m' a"
      by (auto simp: no_empty_entry_def)
    then show "m a = m' a" by (auto simp: listeners_def split: option.splits)
  qed
qed (auto simp: listeners_def manager_connect_def manager_disconnect_def no_empty_entry_def Let_def
    split: option.splits if_splits)

declare manager.specs [simp]

subsection \<open>Requests and their phases\<close>

datatype request =
    Bid_Request "bid_command \<Rightarrow> bid_outcome prog" uuid place_bid_request
  | Watch_Request uuid
  | Create_Request create_auction_request
  | Get_Request uuid
  | List_Request uuid
  | Health_Request string

datatype request_result =
    Bid_Answer http_response "state_event option"
  | Watch_Answer "auction_snapshot option"
  | Plain_Answer http_response

primrec request_prog :: "request \<Rightarrow> request_result prog" where
  "request_prog (Bid_Request strategy auction_id body) =
     with_result (\<lambda>(response, event). Bid_Answer response event)
       (place_bid_route strategy auction_id body)"
| "request_prog (Watch_Request auction_id) =
     with_result Watch_Answer (service_get_auction auction_id)"
| "request_prog (Create_Request body) = with_result Plain_Answer (create_auction_route body)"
| "request_prog (Get_Request auction_id) = with_result Plain_Answer (get_auction_route auction_id)"
| "request_prog (List_Request auction_id) = with_result Plain_Answer (list_bids_route auction_id)"
| "request_prog (Health_Request setting) = with_result Plain_Answer (health_route setting)"

text \<open>What is sent over a socket.\<close>

datatype ws_message = Snapshot auction_response | Event state_event | Close nat

text \<open>
  Where a request is: before its continuation; a watcher about to be sent its snapshot,
  listening, or in its \<open>finally\<close> block; a broadcast with the sockets still being sent to and
  the ones that failed, removing the failed ones, or over. The set \<open>ws\<close> of the sockets it took
  from the manager is kept to the end.
\<close>

datatype phase =
    Querying
  | Greeting auction_response
  | Watching
  | Leaving
  | Sending state_event "nat set" "nat set" "nat set"
  | Announced state_event "nat set"
  | Over

record hub =
  hb_connections :: connections
  hb_phase :: "nat \<Rightarrow> phase"
  hb_sent :: "(nat \<times> ws_message) list"

definition idle_hub :: hub where
  "idle_hub = \<lparr>hb_connections = Map.empty, hb_phase = (\<lambda>p. Querying), hb_sent = []\<rparr>"

definition to_phase :: "nat \<Rightarrow> phase \<Rightarrow> hub \<Rightarrow> hub" where
  "to_phase p ph h = h\<lparr>hb_phase := (hb_phase h)(p := ph)\<rparr>"

definition log_sent :: "nat \<Rightarrow> ws_message \<Rightarrow> hub \<Rightarrow> hub" where
  "log_sent w m h = h\<lparr>hb_sent := hb_sent h @ [(w, m)]\<rparr>"

definition connect :: "uuid \<Rightarrow> nat \<Rightarrow> hub \<Rightarrow> hub" where
  "connect a w h = h\<lparr>hb_connections := manager_connect a w (hb_connections h)\<rparr>"

definition disconnect :: "uuid \<Rightarrow> nat \<Rightarrow> hub \<Rightarrow> hub" where
  "disconnect a w h = h\<lparr>hb_connections := manager_disconnect a w (hb_connections h)\<rparr>"

subsection \<open>Turns\<close>

text \<open>
  The environment decides whether the socket operation of a turn succeeds (\<open>ok\<close>) and, in a
  broadcast, which of the concurrent sends or removals is next (\<open>w\<close>). A turn of a watcher:
  \<open>auction_websocket\<close>.
\<close>

fun watch_turn :: "uuid \<Rightarrow> request_result py option \<Rightarrow> nat \<Rightarrow> bool \<Rightarrow> hub \<Rightarrow> hub option" where
  "watch_turn auction_id result p ok h =
     (case hb_phase h p of
        Querying \<Rightarrow>
          (case result of
             Some (Inl e) \<Rightarrow> Some (to_phase p Over h)
           | Some (Inr (Watch_Answer None)) \<Rightarrow> Some (to_phase p Over (log_sent p (Close 4404) h))
           | Some (Inr (Watch_Answer (Some auction))) \<Rightarrow>
               if ok
               then Some (to_phase p (Greeting (auction_response_of auction)) (connect auction_id p h))
               else Some (to_phase p Over h)
           | _ \<Rightarrow> None)
      | Greeting snapshot \<Rightarrow>
          if ok then Some (to_phase p Watching (log_sent p (Snapshot snapshot) h))
          else Some (to_phase p Leaving h)
      | Watching \<Rightarrow> if ok then Some h else Some (to_phase p Leaving h)
      | Leaving \<Rightarrow> Some (to_phase p Over (disconnect auction_id p h))
      | _ \<Rightarrow> None)"

text \<open>A turn of a bid: the end of the handler \<open>place_bid\<close>, and \<open>broadcast\<close>.\<close>

fun bid_turn :: "uuid \<Rightarrow> request_result py option \<Rightarrow> nat \<Rightarrow> bool \<Rightarrow> nat \<Rightarrow> hub \<Rightarrow> hub option" where
  "bid_turn auction_id result p ok w h =
     (case hb_phase h p of
        Querying \<Rightarrow>
          (case result of
             Some (Inl e) \<Rightarrow> Some (to_phase p Over h)
           | Some (Inr (Bid_Answer response None)) \<Rightarrow> Some (to_phase p Over h)
           | Some (Inr (Bid_Answer response (Some event))) \<Rightarrow>
               let ws = listeners (hb_connections h) auction_id in
               if ws = {} then Some (to_phase p (Announced event {}) h)
               else Some (to_phase p (Sending event ws ws {}) h)
           | _ \<Rightarrow> None)
      | Sending event ws pending failed \<Rightarrow>
          if w \<in> pending then
            (if ok then
               Some (to_phase p (Sending event ws (pending - {w}) failed) (log_sent w (Event event) h))
             else Some (to_phase p (Sending event ws (pending - {w}) (insert w failed)) h))
          else if pending \<noteq> {} then None
          else if failed = {} then Some (to_phase p (Announced event ws) h)
          else if w \<in> failed then
            Some (to_phase p (Sending event ws {} (failed - {w})) (disconnect auction_id w h))
          else None
      | _ \<Rightarrow> None)"

text \<open>The other requests are over when they are answered.\<close>

definition answered_turn :: "request_result py option \<Rightarrow> nat \<Rightarrow> hub \<Rightarrow> hub option" where
  "answered_turn result p h =
     (if hb_phase h p = Querying \<and> result \<noteq> None then Some (to_phase p Over h) else None)"

primrec hub_turn ::
    "request \<Rightarrow> request_result py option \<Rightarrow> nat \<Rightarrow> bool \<Rightarrow> nat \<Rightarrow> hub \<Rightarrow> hub option" where
  "hub_turn (Bid_Request strategy auction_id body) result p ok w h =
     bid_turn auction_id result p ok w h"
| "hub_turn (Watch_Request auction_id) result p ok w h = watch_turn auction_id result p ok h"
| "hub_turn (Create_Request body) result p ok w h = answered_turn result p h"
| "hub_turn (Get_Request auction_id) result p ok w h = answered_turn result p h"
| "hub_turn (List_Request auction_id) result p ok w h = answered_turn result p h"
| "hub_turn (Health_Request setting) result p ok w h = answered_turn result p h"

lemma hub_turn_plain:
  assumes "hub_turn req result p ok w h = Some h'"
    and "\<nexists>strat a body. req = Bid_Request strat a body" "\<nexists>a. req = Watch_Request a"
  shows "hb_phase h p = Querying" "h' = to_phase p Over h"
  using assms by (cases req; auto simp: answered_turn_def split: if_splits)+

subsection \<open>The process\<close>

text \<open>
  An execution of the server: statements of the requests on the database and turns of the
  requests on the manager, in any order.
\<close>

inductive served ::
    "('s \<Rightarrow> nat \<Rightarrow> stmt \<Rightarrow> choice \<Rightarrow> (reply \<times> 's) option) \<Rightarrow> (nat \<Rightarrow> request) \<Rightarrow> 's \<Rightarrow>
     's \<Rightarrow> (nat \<Rightarrow> request_result prog) \<Rightarrow> hub \<Rightarrow> bool"
  for step reqs s0 where
  served_start: "served step reqs s0 s0 (\<lambda>p. request_prog (reqs p)) idle_hub"
| served_statement: "served step reqs s0 s ps h \<Longrightarrow> ps p = Exec st k \<Longrightarrow>
    step s p st c = Some (r, s') \<Longrightarrow> served step reqs s0 s' (ps(p := k r)) h"
| served_turn: "served step reqs s0 s ps h \<Longrightarrow> hub_turn (reqs p) (answer (ps p)) p ok w h = Some h' \<Longrightarrow>
    served step reqs s0 s ps h'"

lemma served_runs:
  "served step reqs s0 s ps h \<Longrightarrow> runs step (s0, \<lambda>p. request_prog (reqs p)) (s, ps)"
  by (induction rule: served.induct) (blast intro: runs_refl runs_step)+

text \<open>A schedule of statements and turns.\<close>

datatype move = Statement nat choice | Turn nat bool nat

fun serve ::
    "('s \<Rightarrow> nat \<Rightarrow> stmt \<Rightarrow> choice \<Rightarrow> (reply \<times> 's) option) \<Rightarrow> (nat \<Rightarrow> request) \<Rightarrow> move list \<Rightarrow>
     's \<times> (nat \<Rightarrow> request_result prog) \<times> hub \<Rightarrow> ('s \<times> (nat \<Rightarrow> request_result prog) \<times> hub) option" where
  "serve step reqs [] x = Some x"
| "serve step reqs (Statement p c # ms) (s, ps, h) =
     (case ps p of
        Exec st k \<Rightarrow>
          (case step s p st c of
             None \<Rightarrow> None
           | Some (r, s') \<Rightarrow> serve step reqs ms (s', ps(p := k r), h))
      | _ \<Rightarrow> None)"
| "serve step reqs (Turn p ok w # ms) (s, ps, h) =
     (case hub_turn (reqs p) (answer (ps p)) p ok w h of
        None \<Rightarrow> None
      | Some h' \<Rightarrow> serve step reqs ms (s, ps, h'))"

lemma serve_served:
  "serve step reqs ms (s, ps, h) = Some (s', ps', h') \<Longrightarrow> served step reqs s0 s ps h \<Longrightarrow>
   served step reqs s0 s' ps' h'"
proof (induction ms arbitrary: s ps h)
  case (Cons m ms)
  show ?case
  proof (cases m)
    case (Statement p c)
    with Cons.prems(1) obtain st k r t where m: "ps p = Exec st k" "step s p st c = Some (r, t)"
      "serve step reqs ms (t, ps(p := k r), h) = Some (s', ps', h')"
      by (auto simp del: fun_upd_apply split: prog.splits option.splits)
    from Cons.IH [OF m(3) served_statement [OF Cons.prems(2) m(1,2)]] show ?thesis .
  next
    case (Turn p ok w)
    with Cons.prems show ?thesis
      by (auto split: option.splits intro: Cons.IH served_turn)
  qed
qed simp

subsection \<open>What every execution keeps\<close>

text \<open>The auction a bid or a watcher is about.\<close>

primrec (nonexhaustive) request_auction :: "request \<Rightarrow> uuid" where
  "request_auction (Bid_Request strategy auction_id body) = auction_id"
| "request_auction (Watch_Request auction_id) = auction_id"

text \<open>The event is the one the bid request \<open>p\<close> has answered with.\<close>

definition origin ::
    "(nat \<Rightarrow> request) \<Rightarrow> (nat \<Rightarrow> request_result py option) \<Rightarrow> nat \<Rightarrow> state_event \<Rightarrow> bool" where
  "origin reqs res p ev \<longleftrightarrow>
     (\<exists>strat a body response. reqs p = Bid_Request strat a body \<and>
        res p = Some (Inr (Bid_Answer response (Some ev))))"

text \<open>A socket is registered from its \<open>connect\<close> to its \<open>disconnect\<close>, for its own auction.\<close>

fun registered_phase :: "phase \<Rightarrow> bool" where
  "registered_phase (Greeting snapshot) = True"
| "registered_phase Watching = True"
| "registered_phase Leaving = True"
| "registered_phase ph = False"

definition sockets_ok :: "(nat \<Rightarrow> request) \<Rightarrow> hub \<Rightarrow> bool" where
  "sockets_ok reqs h \<longleftrightarrow>
     no_empty_entry (hb_connections h) \<and>
     (\<forall>a. finite (listeners (hb_connections h) a)) \<and>
     (\<forall>a. \<forall>w \<in> listeners (hb_connections h) a.
        reqs w = Watch_Request a \<and> registered_phase (hb_phase h w))"

text \<open>A broadcast has dealt with a socket once it was sent the event or is not registered.\<close>

definition reached :: "hub \<Rightarrow> uuid \<Rightarrow> state_event \<Rightarrow> nat \<Rightarrow> bool" where
  "reached h a ev w \<longleftrightarrow> (w, Event ev) \<in> set (hb_sent h) \<or> w \<notin> listeners (hb_connections h) a"

definition targets_ok :: "(nat \<Rightarrow> request) \<Rightarrow> hub \<Rightarrow> uuid \<Rightarrow> nat set \<Rightarrow> bool" where
  "targets_ok reqs h a ws \<longleftrightarrow>
     finite ws \<and> (\<forall>w \<in> ws. reqs w = Watch_Request a \<and> hb_phase h w \<noteq> Querying)"

definition phase_ok ::
    "(nat \<Rightarrow> request) \<Rightarrow> (nat \<Rightarrow> request_result py option) \<Rightarrow> hub \<Rightarrow> nat \<Rightarrow> phase \<Rightarrow> bool" where
  "phase_ok reqs res h p ph \<longleftrightarrow>
     (case ph of
        Sending ev ws pending failed \<Rightarrow>
          origin reqs res p ev \<and> targets_ok reqs h (request_auction (reqs p)) ws \<and>
          pending \<union> failed \<subseteq> ws \<and>
          (\<forall>w \<in> ws - pending - failed. reached h (request_auction (reqs p)) ev w)
      | Announced ev ws \<Rightarrow>
          origin reqs res p ev \<and> targets_ok reqs h (request_auction (reqs p)) ws \<and>
          (\<forall>w \<in> ws. reached h (request_auction (reqs p)) ev w)
      | _ \<Rightarrow> True)"

definition sent_ok ::
    "(nat \<Rightarrow> request) \<Rightarrow> (nat \<Rightarrow> request_result py option) \<Rightarrow> hub \<Rightarrow> bool" where
  "sent_ok reqs res h \<longleftrightarrow>
     (\<forall>w ev. (w, Event ev) \<in> set (hb_sent h) \<longrightarrow>
        (\<exists>p. origin reqs res p ev \<and> reqs w = Watch_Request (request_auction (reqs p))))"

definition hub_ok ::
    "(nat \<Rightarrow> request) \<Rightarrow> (nat \<Rightarrow> request_result py option) \<Rightarrow> hub \<Rightarrow> bool" where
  "hub_ok reqs res h \<longleftrightarrow>
     sockets_ok reqs h \<and> sent_ok reqs res h \<and> (\<forall>p. phase_ok reqs res h p (hb_phase h p))"

text \<open>How the manager and the log change from one moment to a later one.\<close>

definition grows :: "hub \<Rightarrow> hub \<Rightarrow> bool" where
  "grows h h' \<longleftrightarrow>
     set (hb_sent h) \<subseteq> set (hb_sent h') \<and>
     (\<forall>w. hb_phase h w \<noteq> Querying \<longrightarrow> hb_phase h' w \<noteq> Querying \<and>
        (\<forall>a. w \<in> listeners (hb_connections h') a \<longrightarrow> w \<in> listeners (hb_connections h) a))"

named_theorems hub_defs \<open>the updates of the manager's state\<close>

declare to_phase_def [hub_defs] log_sent_def [hub_defs] connect_def [hub_defs] disconnect_def [hub_defs]

lemma phase_ok_grows:
  assumes "grows h h'" "phase_ok reqs res h p ph"
  shows "phase_ok reqs res h' p ph"
proof -
  have t: "targets_ok reqs h a ws \<Longrightarrow> targets_ok reqs h' a ws" for a ws
    using assms(1) by (auto simp: targets_ok_def grows_def)
  have "reached h a ev w \<Longrightarrow> hb_phase h w \<noteq> Querying \<Longrightarrow> reached h' a ev w" for a ev w
    using assms(1) by (auto simp: reached_def grows_def)
  then have r: "targets_ok reqs h a ws \<Longrightarrow> w \<in> ws \<Longrightarrow> reached h a ev w \<Longrightarrow> reached h' a ev w" for a ws ev w
    by (auto simp: targets_ok_def)
  from assms(2) t r show ?thesis
    by (auto simp: phase_ok_def split: phase.splits)
qed

text \<open>The turns there are.\<close>

lemma watch_turn_cases:
  assumes "watch_turn a result p ok h = Some h'"
  obtains (over) "hb_phase h p = Querying" "h' = to_phase p Over h"
  | (refused) "hb_phase h p = Querying" "h' = to_phase p Over (log_sent p (Close 4404) h)"
  | (joined) auction where "hb_phase h p = Querying" "result = Some (Inr (Watch_Answer (Some auction)))"
      "h' = to_phase p (Greeting (auction_response_of auction)) (connect a p h)"
  | (greeted) snapshot where "hb_phase h p = Greeting snapshot"
      "h' = to_phase p Watching (log_sent p (Snapshot snapshot) h)"
  | (leaving) "registered_phase (hb_phase h p)" "h' = to_phase p Leaving h"
  | (heartbeat) "hb_phase h p = Watching" "h' = h"
  | (left_) "hb_phase h p = Leaving" "h' = to_phase p Over (disconnect a p h)"
  using assms
  by (cases "hb_phase h p")
    (simp_all split: option.splits sum.splits request_result.splits if_splits)

lemma bid_turn_cases:
  assumes "bid_turn a result p ok w h = Some h'"
  obtains (over) "hb_phase h p = Querying" "h' = to_phase p Over h"
  | (unheard) response event where "hb_phase h p = Querying"
      "result = Some (Inr (Bid_Answer response (Some event)))" "h' = to_phase p (Announced event {}) h"
  | (begun) response event where "hb_phase h p = Querying"
      "result = Some (Inr (Bid_Answer response (Some event)))"
      "h' = to_phase p (Sending event (listeners (hb_connections h) a)
              (listeners (hb_connections h) a) {}) h"
  | (sent) event ws pending failed where "hb_phase h p = Sending event ws pending failed"
      "w \<in> pending"
      "h' = to_phase p (Sending event ws (pending - {w}) failed) (log_sent w (Event event) h)"
  | (missed) event ws pending failed where "hb_phase h p = Sending event ws pending failed"
      "w \<in> pending" "h' = to_phase p (Sending event ws (pending - {w}) (insert w failed)) h"
  | (ended) event ws where "hb_phase h p = Sending event ws {} {}"
      "h' = to_phase p (Announced event ws) h"
  | (removed) event ws failed where "hb_phase h p = Sending event ws {} failed" "w \<in> failed"
      "h' = to_phase p (Sending event ws {} (failed - {w})) (disconnect a w h)"
proof (cases "hb_phase h p")
  case (Sending event ws pending failed)
  show thesis
  proof (cases "w \<in> pending")
    case True
    with assms Sending sent missed show thesis by (simp split: if_splits)
  next
    case False
    with assms Sending ended removed show thesis by (auto split: if_splits)
  qed
qed (use assms over unheard begun in \<open>simp_all add: Let_def
    split: option.splits sum.splits request_result.splits if_splits\<close>)

text \<open>A turn changes the phase of its own request, and nothing a broadcast relies on.\<close>

lemma not_listening:
  "sockets_ok reqs h \<Longrightarrow> \<not> registered_phase (hb_phase h w) \<Longrightarrow> w \<notin> listeners (hb_connections h) b"
  by (auto simp: sockets_ok_def)

lemma watch_turn_ok:
  assumes "watch_turn a result p ok h = Some h'" "sockets_ok reqs h" "reqs p = Watch_Request a"
  shows "grows h h' \<and> sockets_ok reqs h' \<and> (\<forall>q. q \<noteq> p \<longrightarrow> hb_phase h' q = hb_phase h q) \<and>
    phase_ok reqs res h' p (hb_phase h' p) \<and>
    (\<forall>w ev. (w, Event ev) \<in> set (hb_sent h') \<longrightarrow> (w, Event ev) \<in> set (hb_sent h))"
  using assms(1)
proof (cases rule: watch_turn_cases)
  case leaving
  with assms(2,3) show ?thesis
    by (cases "hb_phase h p") (auto simp: hub_defs grows_def sockets_ok_def phase_ok_def)
qed (use assms(2,3) not_listening [OF assms(2), of p] in
    \<open>auto simp: hub_defs grows_def sockets_ok_def phase_ok_def\<close>)

lemma bid_turn_ok:
  assumes "bid_turn a result p ok w h = Some h'" "sockets_ok reqs h"
    and "reqs p = Bid_Request strat a body"
  shows "grows h h' \<and> sockets_ok reqs h' \<and> (\<forall>q. q \<noteq> p \<longrightarrow> hb_phase h' q = hb_phase h q)"
  using assms(1)
  by (cases rule: bid_turn_cases)
    (use assms(2,3) in \<open>auto simp: hub_defs grows_def sockets_ok_def\<close>)

lemma bid_turn_phase_ok:
  assumes "bid_turn a (res p) p ok w h = Some h'" "sockets_ok reqs h"
    and "reqs p = Bid_Request strat a body" "phase_ok reqs res h p (hb_phase h p)"
  shows "phase_ok reqs res h' p (hb_phase h' p)"
proof -
  have req: "request_auction (reqs p) = a" by (simp add: assms(3))
  have grown: "phase_ok reqs res h' p (hb_phase h p)"
    using phase_ok_grows [OF _ assms(4)] bid_turn_ok [OF assms(1-3)] by blast
  have targets: "targets_ok reqs h a (listeners (hb_connections h) a)"
    using assms(2) unfolding targets_ok_def sockets_ok_def by (metis registered_phase.simps(4))
  from assms(1) show ?thesis
  proof (cases rule: bid_turn_cases)
    case (begun response event)
    with targets assms(3) show ?thesis
      by (auto simp: phase_ok_def hub_defs targets_ok_def origin_def)
  next
    case (sent event ws pending failed)
    have "reached h' a event w" by (simp add: reached_def sent hub_defs)
    with grown sent req show ?thesis by (auto simp: phase_ok_def hub_defs)
  next
    case (removed event ws failed)
    have "reached h' a event w" by (simp add: reached_def removed hub_defs)
    with grown removed req show ?thesis by (auto simp: phase_ok_def hub_defs)
  qed (use grown assms(3) in \<open>auto simp: phase_ok_def hub_defs targets_ok_def origin_def\<close>)
qed

lemma bid_turn_sent_ok:
  assumes "bid_turn a (res p) p ok w h = Some h'" "sent_ok reqs res h"
    and "reqs p = Bid_Request strat a body" "phase_ok reqs res h p (hb_phase h p)"
  shows "sent_ok reqs res h'"
  using assms(1)
proof (cases rule: bid_turn_cases)
  case (sent event ws pending failed)
  then have "origin reqs res p event" "reqs w = Watch_Request (request_auction (reqs p))"
    using assms(4) by (auto simp: phase_ok_def targets_ok_def)
  with assms(2) show ?thesis by (auto simp: sent sent_ok_def hub_defs)
qed (use assms(2) in \<open>auto simp: sent_ok_def hub_defs\<close>)

lemma plain_turn_ok:
  assumes "hub_turn (reqs p) (res p) p ok w h = Some h'" "hub_ok reqs res h"
    and "\<nexists>strat a body. reqs p = Bid_Request strat a body" "\<nexists>a. reqs p = Watch_Request a"
  shows "hub_ok reqs res h'"
proof -
  note t = hub_turn_plain [OF assms(1,3,4)]
  have "grows h h'" using t assms(2,4) by (auto simp: grows_def hub_defs)
  then have "phase_ok reqs res h' q (hb_phase h' q)" for q
    using phase_ok_grows assms(2) t by (cases "q = p") (auto simp: hub_ok_def hub_defs phase_ok_def)
  moreover have "sockets_ok reqs h'" "sent_ok reqs res h'"
    using assms(2,4) t by (auto simp: hub_ok_def sockets_ok_def sent_ok_def hub_defs)
  ultimately show ?thesis by (simp add: hub_ok_def)
qed

lemma hub_turn_ok:
  assumes "hub_turn (reqs p) (res p) p ok w h = Some h'" "hub_ok reqs res h"
  shows "hub_ok reqs res h'"
proof -
  have old: "sockets_ok reqs h" "sent_ok reqs res h" "phase_ok reqs res h q (hb_phase h q)" for q
    using assms(2) by (simp_all add: hub_ok_def)
  have others: "phase_ok reqs res h' q (hb_phase h' q)"
    if "grows h h'" "\<forall>q. q \<noteq> p \<longrightarrow> hb_phase h' q = hb_phase h q" "q \<noteq> p" for q
    using phase_ok_grows [OF that(1) old(3)] that(2,3) by simp
  show ?thesis
  proof (cases "reqs p")
    case (Bid_Request strat a body)
    with assms(1) have t: "bid_turn a (res p) p ok w h = Some h'" by simp
    from bid_turn_ok [OF t old(1) Bid_Request] bid_turn_phase_ok [OF t old(1) Bid_Request old(3)]
      bid_turn_sent_ok [OF t old(2) Bid_Request old(3)] others
    show ?thesis unfolding hub_ok_def by metis
  next
    case (Watch_Request a)
    with assms(1) have t: "watch_turn a (res p) p ok h = Some h'" by simp
    note w = watch_turn_ok [OF t old(1) Watch_Request, of res]
    then have "sent_ok reqs res h'" using old(2) unfolding sent_ok_def by blast
    with w others show ?thesis unfolding hub_ok_def by metis
  next
    case (Create_Request body)
    then show ?thesis using plain_turn_ok [OF assms] by simp
  next
    case (Get_Request a)
    then show ?thesis using plain_turn_ok [OF assms] by simp
  next
    case (List_Request a)
    then show ?thesis using plain_turn_ok [OF assms] by simp
  next
    case (Health_Request setting)
    then show ?thesis using plain_turn_ok [OF assms] by simp
  qed
qed

text \<open>A statement changes no answer that has been given.\<close>

lemma hub_ok_answers:
  assumes "hub_ok reqs res h" "\<And>p v. res p = Some v \<Longrightarrow> res' p = Some v"
  shows "hub_ok reqs res' h"
proof -
  have o: "origin reqs res p ev \<Longrightarrow> origin reqs res' p ev" for p ev
    using assms(2) unfolding origin_def by blast
  have "phase_ok reqs res' h p (hb_phase h p)" for p
    using assms(1) o by (auto simp: hub_ok_def phase_ok_def dest!: spec [of _ p] split: phase.splits)
  moreover have "sent_ok reqs res' h" using assms(1) o unfolding hub_ok_def sent_ok_def by blast
  ultimately show ?thesis using assms(1) by (simp add: hub_ok_def)
qed

lemma served_hub_ok:
  "served step reqs s0 s ps h \<Longrightarrow> hub_ok reqs (\<lambda>p. answer (ps p)) h"
proof (induction rule: served.induct)
  case served_start
  show ?case
    by (simp add: hub_ok_def sockets_ok_def sent_ok_def phase_ok_def idle_hub_def listeners_def)
next
  case (served_statement s ps h p st k c r s')
  from served_statement.IH show ?case
    by (rule hub_ok_answers) (use served_statement.hyps(2) in auto)
next
  case (served_turn s ps h p ok w h')
  from hub_turn_ok [OF served_turn.hyps(2) served_turn.IH] show ?case .
qed

subsection \<open>A broadcast ends\<close>

text \<open>What is left of a broadcast, which every turn of it reduces.\<close>

fun work :: "phase \<Rightarrow> nat" where
  "work (Sending event ws pending failed) = Suc (2 * card pending + card failed)"
| "work ph = 0"

fun turns_of :: "nat \<Rightarrow> move list \<Rightarrow> nat" where
  "turns_of p [] = 0"
| "turns_of p (Turn q ok w # ms) = (if q = p then Suc (turns_of p ms) else turns_of p ms)"
| "turns_of p (Statement q c # ms) = turns_of p ms"

fun broadcast_of :: "phase \<Rightarrow> (state_event \<times> nat set) option" where
  "broadcast_of (Sending event ws pending failed) = Some (event, ws)"
| "broadcast_of (Announced event ws) = Some (event, ws)"
| "broadcast_of ph = None"

lemma bid_turn_work:
  assumes "bid_turn a result p ok w h = Some h'" "broadcast_of (hb_phase h p) = Some x"
    and "phase_ok reqs res h p (hb_phase h p)"
  shows "work (hb_phase h' p) < work (hb_phase h p) \<and> broadcast_of (hb_phase h' p) = Some x"
proof -
  have fin: "finite pending \<and> finite failed"
    if "hb_phase h p = Sending ev ws pending failed" for ev ws pending failed
    using assms(3) that by (auto simp: phase_ok_def targets_ok_def intro: finite_subset)
  from assms(1) show ?thesis
  proof (cases rule: bid_turn_cases)
    case (sent event ws pending failed)
    with fin [OF sent(1)] assms(2) show ?thesis
      by (auto simp: hub_defs card_gt_0_iff intro!: diff_less)
  next
    case (missed event ws pending failed)
    with fin [OF missed(1)] have "card pending > 0" "finite failed" by (auto simp: card_gt_0_iff)
    with missed fin [OF missed(1)] assms(2) show ?thesis
      by (auto simp: hub_defs card_insert_if)
  next
    case (removed event ws failed)
    with fin [OF removed(1)] assms(2) show ?thesis
      by (auto simp: hub_defs card_gt_0_iff intro!: diff_less)
  qed (use assms(2) in \<open>auto simp: hub_defs\<close>)
qed

lemma sending_goes_on:
  assumes "hb_phase h p = Sending event ws pending failed" "reqs p = Bid_Request strat a body"
  shows "\<exists>ok w h'. hub_turn (reqs p) result p ok w h = Some h'"
proof -
  consider w where "w \<in> pending" | w where "pending = {}" "w \<in> failed" | "pending = {}" "failed = {}"
    by blast
  then show ?thesis
    by cases (use assms in \<open>force\<close>)+
qed

lemma serve_work:
  assumes "served step reqs s0 s ps h" "serve step reqs ms (s, ps, h) = Some (s', ps', h')"
    and "broadcast_of (hb_phase h p) = Some x" "reqs p = Bid_Request strat a body"
  shows "turns_of p ms + work (hb_phase h' p) \<le> work (hb_phase h p) \<and>
    broadcast_of (hb_phase h' p) = Some x"
  using assms(1-3)
proof (induction ms arbitrary: s ps h)
  case (Cons m ms)
  show ?case
  proof (cases m)
    case (Statement q c)
    with Cons.prems(2) obtain st k r t where m: "ps q = Exec st k" "step s q st c = Some (r, t)"
      "serve step reqs ms (t, ps(q := k r), h) = Some (s', ps', h')"
      by (auto simp del: fun_upd_apply split: prog.splits option.splits)
    from Cons.IH [OF served_statement [OF Cons.prems(1) m(1,2)] m(3) Cons.prems(3)]
    show ?thesis by (simp add: Statement)
  next
    case (Turn q ok w)
    with Cons.prems(2) obtain g where t: "hub_turn (reqs q) (answer (ps q)) q ok w h = Some g"
      "serve step reqs ms (s, ps, g) = Some (s', ps', h')"
      by (auto split: option.splits)
    have ok: "hub_ok reqs (\<lambda>p. answer (ps p)) h" by (rule served_hub_ok [OF Cons.prems(1)])
    note IH = Cons.IH [OF served_turn [OF Cons.prems(1) t(1)] t(2)]
    show ?thesis
    proof (cases "q = p")
      case True
      with t(1) assms(4) have "bid_turn a (answer (ps p)) p ok w h = Some g" by simp
      from bid_turn_work [OF this Cons.prems(3), of reqs "\<lambda>p. answer (ps p)"] ok IH
      show ?thesis by (simp add: Turn True hub_ok_def)
    next
      case False
      have "hb_phase g p = hb_phase h p"
      proof (cases "reqs q")
        case (Bid_Request strat' b body')
        with t(1) bid_turn_ok [of b _ q ok w h g reqs strat' body'] ok False show ?thesis
          by (simp add: hub_ok_def)
      next
        case (Watch_Request b)
        with t(1) watch_turn_ok [of b _ q ok h g reqs] ok False show ?thesis
          by (simp add: hub_ok_def)
      qed (use t(1) False in \<open>auto simp: answered_turn_def hub_defs split: if_splits\<close>)
      with IH Cons.prems(3) False show ?thesis by (simp add: Turn)
    qed
  qed
qed simp

end
