(* ===== verification/Server.thy ===== *)
theory Server
  imports Websockets
begin

section \<open>The requests of the server\<close>

text \<open>
  What the requests of an execution of the server commit and answer, for every strategy that
  implements \<open>bid_strategy\<close>.
\<close>

definition bids_with :: "(bid_command \<Rightarrow> bid_outcome prog) \<Rightarrow> request \<Rightarrow> bool" where
  "bids_with strategy req \<longleftrightarrow> (\<forall>strat a body. req = Bid_Request strat a body \<longrightarrow> strat = strategy)"

definition request_ok :: "request \<Rightarrow> request_result \<Rightarrow> lstate \<Rightarrow> bool" where
  "request_ok req v l \<longleftrightarrow>
     (case v of
        Bid_Answer response event \<Rightarrow> route_ok (request_auction req) (response, event) l
      | Watch_Answer found \<Rightarrow> True
      | Plain_Answer response \<Rightarrow> unbid l)"

lemma health_route_triple:
  assumes "reads_legal C"
  shows "triple C unbid (health_route setting) (\<lambda>x. unbid) (\<lambda>e. unbid)"
  unfolding health_route_def
proof (rule triple_bind [OF triple_reading [where R = "\<lambda>x seen. True"]])
  show "triple C (tx L (\<lambda>t l. t = empty_txn)) (query Select_One reply_unit)
      (\<lambda>x. tx L (\<lambda>t l. clean {} None t l \<and> True)) (\<lambda>e. broken L)" for L
    by (rule triple_clean_query) auto
qed (use assms in \<open>auto intro: reads_legalD\<close>)

lemma triple_plain:
  assumes "triple C unbid p (\<lambda>x. unbid) (\<lambda>e. unbid)"
  shows "triple C unbid (with_result Plain_Answer p) (request_ok req) (\<lambda>e l. True)"
  by (rule triple_conseq [OF triple_with_result [OF assms, where Q' = "\<lambda>v. request_ok req v"]])
    (auto simp: request_ok_def)

lemma triple_found:
  assumes "triple C unbid p (\<lambda>x. unbid) (\<lambda>e. unbid)"
    and "\<And>x. triple C unbid (f x) (\<lambda>x. unbid) (\<lambda>e. unbid)"
  shows "triple C unbid (prog_bind p f) (\<lambda>x. unbid) (\<lambda>e. unbid)"
  by (rule triple_bind [OF assms])

context bid_strategy
begin

lemma request_triple:
  assumes "bids_with place_bid req"
  shows "triple C unbid (request_prog req) (request_ok req) (\<lambda>e l. True)"
proof -
  note get = repo_get_triple [OF reads_are_legal, folded service_get_auction_def]
  note list = repo_list_bids_triple [OF reads_are_legal, folded service_list_bids_def]
  have answered: "triple C unbid (Ret r) (\<lambda>x. unbid) (\<lambda>e. unbid)" for r :: http_response by auto
  show ?thesis
  proof (cases req)
    case (Bid_Request strat a body)
    with assms have "strat = place_bid" by (simp add: bids_with_def)
    then show ?thesis
      unfolding Bid_Request request_prog.simps
      by (auto intro!: triple_with_result [OF place_bid_route_triple]
          simp: request_ok_def split_beta)
  next
    case (Watch_Request a)
    show ?thesis
      unfolding Watch_Request request_prog.simps
      by (rule triple_conseq [OF triple_with_result [OF get, where Q' = "request_ok (Watch_Request a)"]])
        (auto simp: request_ok_def)
  next
    case (Create_Request body)
    show ?thesis
      unfolding Create_Request request_prog.simps create_auction_route_def service_create_auction_def
      by (rule triple_plain, rule triple_found [OF create_triple answered])
  next
    case (Get_Request a)
    show ?thesis
      unfolding Get_Request request_prog.simps get_auction_route_def
      by (rule triple_plain, rule triple_found [OF get]) (auto split: option.split)
  next
    case (List_Request a)
    have "triple C unbid (case found of None \<Rightarrow> Ret not_found_response
         | Some auction \<Rightarrow> prog_bind (service_list_bids a) (\<lambda>bs. Ret (Bid_List_Response (map bid_response_of bs))))
       (\<lambda>x. unbid) (\<lambda>e. unbid)" for found
      by (cases found) (auto intro: triple_found [OF list])
    then show ?thesis
      unfolding List_Request request_prog.simps list_bids_route_def
      by (rule triple_plain [OF triple_found [OF get]])
  next
    case (Health_Request setting)
    show ?thesis
      unfolding Health_Request request_prog.simps
      by (rule triple_plain [OF health_route_triple [OF reads_are_legal]])
  qed
qed

end

text \<open>A server that places every bid with one safe strategy keeps the ledger.\<close>

lemma served_ledger:
  assumes "read_committed_service store call step" "at_start store call s0"
    and "safe_bid_strategy strategy W" "\<forall>p. bids_with strategy (reqs p)"
    and "served step reqs s0 s ps h" "ledger W (store s0)" "titles_clean (store s0)"
  shows "db_wf (store s) \<and> ledger W (store s) \<and> titles_clean (store s)"
proof -
  have "bid_strategy strategy (legal_txn W)" using assms(3) by (simp add: safe_bid_strategy_def)
  then have t: "triple (legal_txn W) unbid (request_prog (reqs p)) (request_ok (reqs p)) (\<lambda>e l. True)" for p
    using assms(4) by (auto intro: bid_strategy.request_triple)
  note runs = served_runs [OF assms(5)]
  from read_committed_service.legal_keeps_ledger [OF assms(1,2) t _ runs assms(6,7)]
    read_committed_service.load_wf [OF assms(1,2) runs]
  show ?thesis by simp
qed

text \<open>What a request has answered is true of what it committed.\<close>

lemma served_answer:
  assumes "read_committed_service store call step" "at_start store call s0"
    and "\<And>p. \<exists>strategy C. bid_strategy strategy C \<and> bids_with strategy (reqs p)"
    and "served step reqs s0 s ps h" "ps p = Ret v"
  shows "request_ok (reqs p) v (call s p)"
    and "set (log_bids (call s p)) \<union> set (l_seen (call s p)) \<subseteq> set (bids (store s))"
proof -
  have "\<exists>C. triple C unbid (request_prog (reqs p)) (request_ok (reqs p)) (\<lambda>e l. True)" for p
    using assms(3) [of p] bid_strategy.request_triple by blast
  then have "\<exists>C. \<forall>p. triple (C p) unbid (request_prog (reqs p)) (request_ok (reqs p)) (\<lambda>e l. True)"
    by (intro choice allI)
  then obtain C where C: "\<forall>p. triple (C p) unbid (request_prog (reqs p)) (request_ok (reqs p)) (\<lambda>e l. True)"
    by blast
  note runs = served_runs [OF assms(4)]
  show "request_ok (reqs p) v (call s p)"
    by (rule read_committed_service.load_triples(1) [OF assms(1,2) spec [OF C] runs assms(5)])
  show "set (log_bids (call s p)) \<union> set (l_seen (call s p)) \<subseteq> set (bids (store s))"
    by (rule read_committed_service.load_owned [OF assms(1,2) runs])
qed

end
