(* ===== verification/Sequential.thy ===== *)
theory Sequential
  imports Ledger
begin

section \<open>The strategies when nothing interferes\<close>

text \<open>
  A call that runs alone, with the clock standing at \<open>now\<close>, no faults, and \<open>u\<close> the value of
  \<open>uuid4()\<close>. In these circumstances the three strategies are one function of the database,
  \<open>place_bid_spec\<close>: replay or reject a known request, reject what the rules reject, and
  otherwise add the bid and advance the auction as \<open>apply_accepted_bid\<close> does.
\<close>

definition run_alone :: "'a prog \<Rightarrow> instant \<Rightarrow> uuid \<Rightarrow> db \<Rightarrow> 'a py option \<times> db" where
  "run_alone p now u d = (case run p (\<lambda>n. Go now u) 0 d (idle now) of (r, d', l) \<Rightarrow> (r, d'))"

definition new_bid :: "bid_command \<Rightarrow> auction_row \<Rightarrow> instant \<Rightarrow> uuid \<Rightarrow> bid_row" where
  "new_bid cmd r now u =
     \<lparr>rb_id = u, rb_request_id = cmd_request_id cmd, rb_auction_id = cmd_auction_id cmd,
      rb_bidder_id = py_strip (cmd_bidder_id cmd), rb_amount_cents = cmd_amount_cents cmd,
      rb_auction_version = ra_version r + 1, rb_accepted_at = now\<rparr>"

definition add_bid :: "bid_row \<Rightarrow> auction_row \<Rightarrow> db \<Rightarrow> db" where
  "add_bid b r d =
     \<lparr>auctions = (auctions d)
        (ra_id r \<mapsto> bid_set (rb_amount_cents b) (rb_id b) (rb_auction_version b) r),
      bids = bids d @ [b]\<rparr>"

definition place_bid_spec :: "db \<Rightarrow> bid_command \<Rightarrow> instant \<Rightarrow> uuid \<Rightarrow> bid_outcome py \<times> db" where
  "place_bid_spec d cmd now u =
     (case find (\<lambda>b. rb_request_id b = cmd_request_id cmd) (bids d) of
        Some b \<Rightarrow> (replay_or_reject (bid_of b) cmd, d)
      | None \<Rightarrow>
          (case auctions d (cmd_auction_id cmd) of
             None \<Rightarrow> (outcome_rejected AUCTION_NOT_FOUND None 1 0, d)
           | Some r \<Rightarrow>
               (case evaluate_bid (snapshot_of r) (PyInt (cmd_amount_cents cmd)) (Aware now) of
                  Inl e \<Rightarrow> (Inl e, d)
                | Inr ev \<Rightarrow>
                    (case ev_rejection_reason ev of
                       Some reason \<Rightarrow>
                         (outcome_rejected reason (Some (ev_minimum_acceptable_cents ev)) 1 0, d)
                     | None \<Rightarrow>
                         (outcome_accepted (bid_of (new_bid cmd r now u)) 1 0,
                          add_bid (new_bid cmd r now u) r d)))))"

text \<open>The circumstances: the command was validated, the identifier is new, and the version
  counter is not at the end of its range.\<close>

definition can_place :: "db \<Rightarrow> bid_command \<Rightarrow> uuid \<Rightarrow> bool" where
  "can_place d cmd u \<longleftrightarrow>
     db_wf d \<and> titles_clean d \<and> valid_command cmd \<and> u \<notin> rb_id ` set (bids d) \<and>
     (\<forall>r. auctions d (cmd_auction_id cmd) = Some r \<longrightarrow> bigint_ok (ra_version r + 1))"

lemma new_bid_check:
  assumes "valid_command cmd" "0 \<le> ra_version r"
  shows "bids_check (new_bid cmd r now u)"
  using assms
  by (auto simp: bids_check_defs new_bid_def valid_command_def money_ok_def limit_defs Suc_le_eq)

lemma bid_set_check:
  assumes "auctions_check r" "sql_required r \<le> amount" "money_ok amount"
  shows "auctions_check (bid_set amount i (ra_version r + 1) r)"
  using assms
  by (auto simp: auctions_check_defs bid_set_def sql_required_def money_ok_def limit_defs
      split: option.splits)

lemma bid_set_winning:
  assumes "ra_id r = rb_auction_id b"
  shows "auctions_winning_bid_fk (bs @ [b]) (bid_set amount (rb_id b) v r)"
  using assms by (simp add: auctions_winning_bid_fk_def bid_set_def)

text \<open>What the accepting branch needs of the database.\<close>

lemma can_place_accept:
  assumes "can_place d cmd u" "auctions d (cmd_auction_id cmd) = Some r"
    and "find (\<lambda>b. rb_request_id b = cmd_request_id cmd) (bids d) = None"
  shows "ra_id r = cmd_auction_id cmd" "auction_from_row r = Inr (snapshot_of r)"
    "valid_snapshot (snapshot_of r)" "bids_check (new_bid cmd r now u)"
    "bids_unique (bids d) (new_bid cmd r now u)" "bigint_ok (ra_version r + 1)"
    "bigint_ok (cmd_amount_cents cmd)" "auctions_check r"
proof -
  from assms(1) have d: "db_wf d" "titles_clean d" "valid_command cmd" "u \<notin> rb_id ` set (bids d)"
    by (simp_all add: can_place_def)
  show id: "ra_id r = cmd_auction_id cmd" and ck: "auctions_check r"
    using db_wfD [OF d(1) assms(2)] by simp_all
  show v: "valid_snapshot (snapshot_of r)"
    using ck d(2) assms(2) by (auto simp: titles_clean_def intro: snapshot_of_valid)
  then show "auction_from_row r = Inr (snapshot_of r)" by (rule auction_from_row_eq)
  show "bids_check (new_bid cmd r now u)"
    using d(3) v by (intro new_bid_check) (simp_all add: valid_snapshot_def)
  show "bids_unique (bids d) (new_bid cmd r now u)"
    using d(4) assms(3) by (auto simp: bids_unique_def new_bid_def list_all_iff find_None_iff)
  show "bigint_ok (ra_version r + 1)" using assms(1,2) by (simp add: can_place_def)
  show "bigint_ok (cmd_amount_cents cmd)"
    using d(3) by (auto simp: valid_command_def money_ok_def limit_defs bigint_ok_def)
qed

lemma stored_bid_mapper:
  assumes "can_place d cmd u" "find P (bids d) = Some b"
  shows "bid_from_row b = Inr (bid_of b)"
  using assms by (auto simp: can_place_def intro!: bid_from_row_eq dest: find_SomeD db_wf_bidD(1))

lemmas alone_defs = run_alone_def in_transaction_def query_def existing_bid_def read_auction_def
  database_time_def insert_bid_def reply_defs go_step_def data_step_def idle_def empty_txn_def
  visible_bids_def find_auction_def reject_evaluation_def

text \<open>The INSERT and the UPDATEs of the accepting branch.\<close>

lemma insert_alone:
  assumes "can_place d cmd u" "auctions d (cmd_auction_id cmd) = Some r"
    and "find (\<lambda>b. rb_request_id b = cmd_request_id cmd) (bids d) = None"
    and "t_bids t = []" "t_new t = []" "t_aucs t = []"
  shows "insert_bid_row d now u (cmd_request_id cmd) (cmd_auction_id cmd) (py_strip (cmd_bidder_id cmd))
      (cmd_amount_cents cmd) (ra_version r + 1) t =
    (R_Bid (Some (new_bid cmd r now u)), t\<lparr>t_bids := [new_bid cmd r now u]\<rparr>)"
  using can_place_accept(4,5) [OF assms(1-3), of now] can_place_accept(6,7) [OF assms(1-3)] assms(2,4-6)
  by (simp add: insert_bid_row_def Let_def new_bid_def visible_bids_def)

lemma new_bid_mapper: "bids_check (new_bid cmd r now u) \<Longrightarrow>
   bid_from_row (new_bid cmd r now u) = Inr (bid_of (new_bid cmd r now u))"
  by (rule bid_from_row_eq)

lemma update_alone:
  assumes "auctions_check r" "sql_required r \<le> amount" "money_ok amount"
    and "bigint_ok (ra_version r + 1)"
  shows "update_row d (bid_set amount i (ra_version r + 1) r) t =
    (R_Version (Some (ra_version r + 1)),
     put_auction (bid_set amount i (ra_version r + 1) r) (lock_auction d (ra_id r) t))"
  using assms bid_set_check [OF assms(1-3)] by (simp add: update_row_def)

lemma commit_alone:
  assumes "ra_id r = cmd_auction_id cmd" "t_bids t = [new_bid cmd r now u]" "t_new t = []"
    "t_aucs t = []" "\<not> t_failed t"
  shows "commit_step d (put_auction (bid_set (cmd_amount_cents cmd) u (ra_version r + 1) r) t) l =
      (R_Unit, l\<lparr>l_txn := None, l_log := l_log l @
        [put_auction (bid_set (cmd_amount_cents cmd) u (ra_version r + 1) r) t]\<rparr>)"
    and "apply_txn (put_auction (bid_set (cmd_amount_cents cmd) u (ra_version r + 1) r) t) d =
      add_bid (new_bid cmd r now u) r d"
proof -
  have "auctions_winning_bid_fk (bids d @ [new_bid cmd r now u])
      (bid_set (cmd_amount_cents cmd) u (ra_version r + 1) r)"
    using bid_set_winning [of r "new_bid cmd r now u"] assms(1) by (simp add: new_bid_def)
  with assms show "commit_step d (put_auction (bid_set (cmd_amount_cents cmd) u (ra_version r + 1) r) t) l =
      (R_Unit, l\<lparr>l_txn := None, l_log := l_log l @
        [put_auction (bid_set (cmd_amount_cents cmd) u (ra_version r + 1) r) t]\<rparr>)"
    by (simp add: commit_step_def deferred_fk_ok_def visible_bids_def put_auction_def)
  from assms show "apply_txn (put_auction (bid_set (cmd_amount_cents cmd) u (ra_version r + 1) r) t) d =
      add_bid (new_bid cmd r now u) r d"
    by (simp add: apply_txn_def put_auction_def add_bid_def new_bid_def)
qed

lemma evaluation_alone:
  assumes "valid_snapshot (snapshot_of r)"
    and "evaluate_bid (snapshot_of r) (PyInt amount) (Aware now) = Inr ev"
    and "ev_rejection_reason ev = None"
  shows "sql_required r \<le> amount" "money_ok amount" "update_guard r amount (ra_version r) now"
    "ev_accepted ev"
proof -
  show a: "ev_accepted ev" using evaluate_bid_minimum(2) [OF assms(1,2)] assms(3) by simp
  from evaluate_bid_accepted [OF assms(1,2) a]
  show "sql_required r \<le> amount" "money_ok amount" "update_guard r amount (ra_version r) now"
    by (auto simp: sql_required_eq update_guard_def in_window_def)
qed

lemma evaluation_error:
  assumes "valid_snapshot (snapshot_of r)" "money_ok amount"
    and "evaluate_bid (snapshot_of r) (PyInt amount) (Aware now) = Inl e"
  shows "e = OverflowError ''minimum acceptable bid exceeds the supported money range''"
  using assms by (auto simp: evaluate_bid_eq split: if_splits)

text \<open>
  The branches of the specification, with what each branch may assume: a method that agrees
  with it on every branch is the specification.
\<close>

lemma place_bid_spec_branches:
  assumes can: "can_place d cmd u"
    and known: "\<And>b. find (\<lambda>b. rb_request_id b = cmd_request_id cmd) (bids d) = Some b \<Longrightarrow>
      bid_from_row b = Inr (bid_of b) \<Longrightarrow> X = (Some (replay_or_reject (bid_of b) cmd), d)"
    and missing: "find (\<lambda>b. rb_request_id b = cmd_request_id cmd) (bids d) = None \<Longrightarrow>
      auctions d (cmd_auction_id cmd) = None \<Longrightarrow>
      X = (Some (outcome_rejected AUCTION_NOT_FOUND None 1 0), d)"
    and overflow: "\<And>r e. find (\<lambda>b. rb_request_id b = cmd_request_id cmd) (bids d) = None \<Longrightarrow>
      auctions d (cmd_auction_id cmd) = Some r \<Longrightarrow> auction_from_row r = Inr (snapshot_of r) \<Longrightarrow>
      e = OverflowError ''minimum acceptable bid exceeds the supported money range'' \<Longrightarrow>
      evaluate_bid (snapshot_of r) (PyInt (cmd_amount_cents cmd)) (Aware now) = Inl e \<Longrightarrow>
      X = (Some (Inl e), d)"
    and rejected: "\<And>r ev reason. find (\<lambda>b. rb_request_id b = cmd_request_id cmd) (bids d) = None \<Longrightarrow>
      auctions d (cmd_auction_id cmd) = Some r \<Longrightarrow> auction_from_row r = Inr (snapshot_of r) \<Longrightarrow>
      evaluate_bid (snapshot_of r) (PyInt (cmd_amount_cents cmd)) (Aware now) = Inr ev \<Longrightarrow>
      \<not> ev_accepted ev \<Longrightarrow> ev_rejection_reason ev = Some reason \<Longrightarrow>
      X = (Some (outcome_rejected reason (Some (ev_minimum_acceptable_cents ev)) 1 0), d)"
    and accepted: "\<And>r ev. find (\<lambda>b. rb_request_id b = cmd_request_id cmd) (bids d) = None \<Longrightarrow>
      auctions d (cmd_auction_id cmd) = Some r \<Longrightarrow> auction_from_row r = Inr (snapshot_of r) \<Longrightarrow>
      evaluate_bid (snapshot_of r) (PyInt (cmd_amount_cents cmd)) (Aware now) = Inr ev \<Longrightarrow>
      ev_accepted ev \<Longrightarrow> ra_id r = cmd_auction_id cmd \<Longrightarrow> auctions_check r \<Longrightarrow>
      sql_required r \<le> cmd_amount_cents cmd \<Longrightarrow> money_ok (cmd_amount_cents cmd) \<Longrightarrow>
      update_guard r (cmd_amount_cents cmd) (ra_version r) now \<Longrightarrow> bigint_ok (ra_version r + 1) \<Longrightarrow>
      bid_from_row (new_bid cmd r now u) = Inr (bid_of (new_bid cmd r now u)) \<Longrightarrow>
      X = (Some (outcome_accepted (bid_of (new_bid cmd r now u)) 1 0),
           add_bid (new_bid cmd r now u) r d)"
  shows "X = (case place_bid_spec d cmd now u of (r, d') \<Rightarrow> (Some r, d'))"
proof (cases "find (\<lambda>b. rb_request_id b = cmd_request_id cmd) (bids d)")
  case (Some b)
  from known [OF this stored_bid_mapper [OF can this]] Some show ?thesis
    by (simp add: place_bid_spec_def)
next
  case none: None
  show ?thesis
  proof (cases "auctions d (cmd_auction_id cmd)")
    case None
    from missing [OF none None] none None show ?thesis by (simp add: place_bid_spec_def)
  next
    case (Some r)
    note c = can_place_accept [OF can Some none]
    have m: "money_ok (cmd_amount_cents cmd)"
      using can by (simp add: can_place_def valid_command_def)
    show ?thesis
    proof (cases "evaluate_bid (snapshot_of r) (PyInt (cmd_amount_cents cmd)) (Aware now)")
      case (Inl e)
      from overflow [OF none Some c(2) evaluation_error [OF c(3) m Inl] Inl] none Some Inl
      show ?thesis by (simp add: place_bid_spec_def)
    next
      case (Inr ev)
      show ?thesis
      proof (cases "ev_rejection_reason ev")
        case rej: (Some reason)
        then have "\<not> ev_accepted ev" using evaluate_bid_minimum(2) [OF c(3) Inr] by simp
        from rejected [OF none Some c(2) Inr this rej] none Some Inr rej
        show ?thesis by (simp add: place_bid_spec_def)
      next
        case acc: None
        note e = evaluation_alone [OF c(3) Inr acc]
        from accepted [OF none Some c(2) Inr e(4) c(1,8) e(1) m e(3) c(6) new_bid_mapper [OF c(4)]]
          none Some Inr acc
        show ?thesis by (simp add: place_bid_spec_def)
      qed
    qed
  qed
qed

lemmas pessimistic_defs = pessimistic_place_bid_def pessimistic_transaction_def
  pessimistic_locked_def pessimistic_accept_def

lemmas unsafe_defs = unsafe_place_bid_def unsafe_transaction_def unsafe_accept_def

lemmas empty_commit = commit_step_def deferred_fk_ok_def apply_txn_def lock_auction_def lock_row_def

lemmas full_commit = update_auction_def update_alone commit_alone lock_auction_def lock_row_def

lemma pessimistic_alone:
  assumes "can_place d cmd u"
  shows "run_alone (pessimistic_place_bid cmd) now u d =
    (case place_bid_spec d cmd now u of (r, d') \<Rightarrow> (Some r, d'))"
proof (rule place_bid_spec_branches [OF assms], goal_cases)
  case (5 r ev)
  then show ?case
    by (simp add: alone_defs pessimistic_defs insert_alone [OF assms 5(2,1)] full_commit)
qed (simp_all add: alone_defs pessimistic_defs empty_commit replay_or_reject_def)

lemma unsafe_alone:
  assumes "can_place d cmd u"
  shows "run_alone (unsafe_place_bid hook cmd) now u d =
    (case place_bid_spec d cmd now u of (r, d') \<Rightarrow> (Some r, d'))"
proof (rule place_bid_spec_branches [OF assms], goal_cases)
  case (5 r ev)
  then show ?case
    by (cases hook) (simp_all add: alone_defs unsafe_defs insert_alone [OF assms 5(2,1)] full_commit)
qed (simp_all add: alone_defs unsafe_defs empty_commit replay_or_reject_def)

lemmas optimistic_defs = optimistic_place_bid_def optimistic_turn_def optimistic_attempt_def
  optimistic_transaction_def optimistic_accept_def

lemma optimistic_alone:
  assumes "can_place d cmd u" "0 < m"
  shows "run_alone (optimistic_place_bid m cmd) now u d =
    (case place_bid_spec d cmd now u of (r, d') \<Rightarrow> (Some r, d'))"
proof -
  obtain left where left: "nat m = Suc left" "m - int left = 1"
    using assms(2) by (cases "nat m") auto
  show ?thesis
  proof (rule place_bid_spec_branches [OF assms(1)], goal_cases)
    case (5 r ev)
    then show ?case
      by (simp add: alone_defs optimistic_defs left insert_alone [OF assms(1) 5(2,1)] full_commit)
  qed (simp_all add: alone_defs optimistic_defs left empty_commit replay_or_reject_def make_bid_outcome_def)
qed

subsection \<open>The specification and the domain rules\<close>

text \<open>The row the accepting branch writes is the one \<open>apply_accepted_bid\<close> computes.\<close>

lemma add_bid_applies:
  assumes "auctions_check r" "valid_snapshot (snapshot_of r)" "update_guard r amount (ra_version r) now"
    "money_ok amount" "evaluate_bid (snapshot_of r) (PyInt amount) (Aware now) = Inr ev" "ev_accepted ev"
  shows "apply_accepted_bid (snapshot_of r) i (PyInt amount) (Aware now) =
    Inr (snapshot_of (bid_set amount i (ra_version r + 1) r))"
proof -
  have low: "ra_starting_price_cents r \<le> amount" and v: "0 < ra_version r + 1"
    using assms(1-3) by (auto simp: update_guard_def sql_required_def valid_snapshot_def money_ok_def
        split: option.splits)
  have "replace_price_state (snapshot_of r) amount i (ra_version r + 1) =
    Inr ((snapshot_of r)\<lparr>au_current_price_cents := Some amount, au_winning_bid_id := Some i,
      au_version := ra_version r + 1\<rparr>)"
    by (rule replace_price_state_valid) (use assms low v in simp_all)
  with assms(4-6) show ?thesis
    by (simp add: apply_accepted_bid_def snapshot_of_def bid_set_def)
qed

subsection \<open>The repository and the checker\<close>

definition new_auction :: "string \<Rightarrow> int \<Rightarrow> int \<Rightarrow> instant \<Rightarrow> instant \<Rightarrow> instant \<Rightarrow> uuid \<Rightarrow> auction_row" where
  "new_auction title starting increment starts ends now u =
     \<lparr>ra_id = u, ra_title = py_strip title, ra_starting_price_cents = starting,
      ra_current_price_cents = None, ra_minimum_increment_cents = increment,
      ra_winning_bid_id = None, ra_version = 0, ra_starts_at = starts, ra_ends_at = ends,
      ra_created_at = now\<rparr>"

definition auction_terms_ok :: "string \<Rightarrow> int \<Rightarrow> int \<Rightarrow> instant \<Rightarrow> instant \<Rightarrow> bool" where
  "auction_terms_ok title starting increment starts ends \<longleftrightarrow>
     py_strip title \<noteq> [] \<and> length (py_strip title) \<le> MAX_TITLE_LENGTH \<and>
     money_ok starting \<and> money_ok increment \<and> starts < ends"

lemma new_auction_check:
  "auctions_check (new_auction title starting increment starts ends now u) \<longleftrightarrow>
   auction_terms_ok title starting increment starts ends"
  by (auto simp: auctions_check_defs new_auction_def auction_terms_ok_def money_ok_def limit_defs
      Suc_le_eq)

lemma new_auction_mapper:
  assumes "auction_terms_ok title starting increment starts ends"
  shows "auction_from_row (new_auction title starting increment starts ends now u) =
    Inr (snapshot_of (new_auction title starting increment starts ends now u))"
  by (rule auction_from_row_eq, rule snapshot_of_valid)
    (use assms in \<open>simp_all add: new_auction_check, simp add: new_auction_def\<close>)

lemma money_bigint: "money_ok v \<Longrightarrow> bigint_ok v"
  by (simp add: money_ok_def limit_defs bigint_ok_def)

lemma create_alone:
  assumes "auction_terms_ok title starting increment starts ends" "auctions d u = None"
  shows "run_alone (service_create_auction title starting increment starts ends) now u d =
    (Some (Inr (snapshot_of (new_auction title starting increment starts ends now u))),
     d\<lparr>auctions := (auctions d)(u \<mapsto> new_auction title starting increment starts ends now u)\<rparr>)"
proof -
  let ?r = "new_auction title starting increment starts ends now u"
  have m: "bigint_ok starting" "bigint_ok increment"
    using assms(1) by (simp_all add: auction_terms_ok_def money_bigint)
  have i: "insert_auction d now u (py_strip title) starting increment starts ends t =
      (R_Auction (Some ?r), t\<lparr>t_new := [?r]\<rparr>)" if "t_new t = []" "t_aucs t = []" for t
    using that assms m new_auction_check [of title starting increment starts ends now u]
    by (simp add: insert_auction_def Let_def new_auction_def find_auction_def)
  have fk: "auctions_winning_bid_fk bs ?r" for bs
    by (simp add: auctions_winning_bid_fk_def new_auction_def)
  have "ra_id ?r = u" by (simp add: new_auction_def)
  with i m fk new_auction_mapper [OF assms(1)] show ?thesis
    by (simp add: alone_defs service_create_auction_def repo_create_def commit_step_def
        deferred_fk_ok_def apply_txn_def)
qed

lemma get_alone:
  assumes "db_wf d" "titles_clean d"
  shows "run_alone (service_get_auction a) now u d =
    (Some (Inr (map_option snapshot_of (auctions d a))), d)"
proof (cases "auctions d a")
  case None
  then show ?thesis
    by (simp add: alone_defs service_get_auction_def repo_get_def empty_commit)
next
  case (Some r)
  have "auction_from_row r = Inr (snapshot_of r)"
    using assms Some by (auto simp: titles_clean_def intro!: auction_from_row_eq snapshot_of_valid dest: db_wfD)
  with Some show ?thesis
    by (simp add: alone_defs service_get_auction_def repo_get_def empty_commit)
qed

lemma list_alone:
  assumes "db_wf d"
  shows "run_alone (service_list_bids a) now u d =
    (Some (Inr (map bid_of (select_bids_of a (bids d)))), d)"
proof -
  have "\<forall>b \<in> set (select_bids_of a (bids d)). bids_check b"
    using assms by (auto simp: select_bids_of_def dest: db_wf_bidD)
  from bids_from_rows_eq [OF this] show ?thesis
    by (simp add: alone_defs service_list_bids_def repo_list_bids_def empty_commit)
qed

lemma check_alone:
  assumes "db_wf d" "\<And>r. auctions d a = Some r \<Longrightarrow> py_strip (ra_title r) = ra_title r"
  shows "run_alone (check_auction_invariants a) now u d = (Some (Inr (report_on d a)), d)"
proof (cases "auctions d a")
  case None
  then show ?thesis
    by (simp add: alone_defs check_auction_invariants_def repo_get_def empty_commit report_on_def)
next
  case (Some r)
  have "\<forall>b \<in> set (select_bids_of a (bids d)). bids_check b"
    using assms(1) by (auto simp: select_bids_of_def dest: db_wf_bidD)
  moreover have "auction_from_row r = Inr (snapshot_of r)"
    using assms Some by (auto intro!: auction_from_row_eq snapshot_of_valid dest: db_wfD)
  ultimately show ?thesis
    using Some
    by (simp add: alone_defs check_auction_invariants_def repo_get_def repo_list_bids_def
        empty_commit report_on_def bids_from_rows_eq)
qed

end
