(* ===== verification/Scenarios.thy ===== *)
theory Scenarios
  imports Interleaving Sequential Program_Results
begin

section \<open>Concrete executions\<close>

text \<open>
  One auction, two connections, and schedules that interleave two calls statement by
  statement. They are the inputs at which the general theorems are applied, and the runs that
  show what the strategies do not prevent.
\<close>

definition lot :: auction_row where
  "lot =
     \<lparr>ra_id = 1, ra_title = ''lot'', ra_starting_price_cents = 100,
      ra_current_price_cents = None, ra_minimum_increment_cents = 10,
      ra_winning_bid_id = None, ra_version = 0, ra_starts_at = 0, ra_ends_at = 1000,
      ra_created_at = 0\<rparr>"

definition lot_db :: db where
  "lot_db = \<lparr>auctions = [1 \<mapsto> lot], bids = []\<rparr>"

definition two_connections :: service_state where
  "two_connections = \<lparr>sv_store = lot_db, sv_calls = [idle 0, idle 0]\<rparr>"

definition bid_on_lot :: "uuid \<Rightarrow> cents \<Rightarrow> bid_command" where
  "bid_on_lot request amount =
     \<lparr>cmd_request_id = request, cmd_auction_id = 1, cmd_bidder_id = ''ann'',
      cmd_amount_cents = amount\<rparr>"

text \<open>Connection 0 bids 200 and connection 1 bids 105.\<close>

definition two_bids :: "nat \<Rightarrow> api_call" where
  "two_bids p = Place_Bid (if p = 0 then bid_on_lot 11 200 else bid_on_lot 12 105)"

text \<open>\<open>n\<close> statements of connection \<open>p\<close>, at the time \<open>t\<close>.\<close>

definition turns :: "nat \<Rightarrow> instant \<Rightarrow> nat \<Rightarrow> (nat \<times> choice) list" where
  "turns p t n = replicate n (p, Go t (100 + p))"

definition status_of :: "call_result py option \<Rightarrow> bid_outcome_status option" where
  "status_of r = (case r of Some (Inr (Bid_Placed x)) \<Rightarrow> Some (out_status x) | _ \<Rightarrow> None)"

text \<open>The state a schedule reaches, and what is observed there.\<close>

definition after_schedule ::
    "(nat \<Rightarrow> bid_command \<Rightarrow> bid_outcome prog) \<Rightarrow> (nat \<Rightarrow> api_call) \<Rightarrow> (nat \<times> choice) list \<Rightarrow>
     (service_state \<times> (nat \<Rightarrow> call_result prog)) option" where
  "after_schedule strat calls cs =
     play service_step cs (two_connections, \<lambda>p. service_call (strat p) (calls p))"

definition observed ::
    "(service_state \<times> (nat \<Rightarrow> call_result prog)) option \<Rightarrow>
     (string list \<times> cents list \<times> bid_outcome_status option \<times> bid_outcome_status option) option" where
  "observed x =
     map_option (\<lambda>(s, ps).
       (map violation_code (ir_violations (report_on (sv_store s) 1)),
        map rb_amount_cents (history_of (sv_store s) 1),
        status_of (answer (ps 0)), status_of (answer (ps 1)))) x"

lemma lot_db_wf: "db_wf lot_db"
proof -
  have "auctions_check lot" by code_simp
  then show ?thesis
    by (simp add: db_wf_def lot_db_def lot_def auctions_winning_bid_fk_def)
qed

lemma lot_db_titles: "titles_clean lot_db"
proof -
  have "py_strip (ra_title lot) = ra_title lot" by code_simp
  then show ?thesis by (simp add: titles_clean_def lot_db_def)
qed

lemma lot_db_ledger: "ledger W lot_db"
  by (simp add: ledger_def lot_db_def lot_def history_of_def history_legal_def)

lemma two_connections_start: "at_start sv_store service_of two_connections"
proof -
  have "service_of two_connections p = idle 0" for p
    by (cases p) (auto simp: service_of_def two_connections_def nth_Cons split: nat.split)
  then show ?thesis
    by (auto simp: at_start_def lot_db_wf) (simp add: two_connections_def lot_db_wf)
qed

lemmas service_axioms = service.read_committed_service_axioms

lemma after_schedule_runs:
  "after_schedule strat calls cs = Some y \<Longrightarrow>
   runs service_step (two_connections, \<lambda>p. service_call (strat p) (calls p)) y"
  unfolding after_schedule_def by (erule play_runs) (rule runs_refl)

lemma observed_reached:
  assumes "observed (after_schedule strat calls cs) = Some (vs, h, a, b)"
  obtains s ps where
    "runs service_step (two_connections, \<lambda>p. service_call (strat p) (calls p)) (s, ps)"
    "map violation_code (ir_violations (report_on (sv_store s) 1)) = vs"
    "map rb_amount_cents (history_of (sv_store s) 1) = h"
    "status_of (answer (ps 0)) = a" "status_of (answer (ps 1)) = b"
proof -
  from assms obtain s ps where y: "after_schedule strat calls cs = Some (s, ps)"
    and o: "vs = map violation_code (ir_violations (report_on (sv_store s) 1))"
      "h = map rb_amount_cents (history_of (sv_store s) 1)"
      "a = status_of (answer (ps 0))" "b = status_of (answer (ps 1))"
    by (auto simp: observed_def)
  from that [OF after_schedule_runs [OF y]] o show ?thesis by simp
qed

lemma lot_stays:
  assumes "runs service_step (two_connections, ps) (s, ps')"
  shows "\<exists>r. auctions (sv_store s) 1 = Some r"
  using service.runs_terms [OF assms service.at_start_isolated, of 1 lot] two_connections_start
  by (auto simp: two_connections_def lot_db_def)

lemma two_connections_store [simp]: "sv_store two_connections = lot_db"
  by (simp add: two_connections_def)

lemma status_of_Some:
  "status_of (answer p) = Some st \<Longrightarrow> \<exists>x. p = Ret (Bid_Placed x) \<and> out_status x = st"
  by (cases p) (auto simp: status_of_def split: call_result.splits)

end
