(* ===== verification/Guarantees.thy ===== *)
theory Guarantees
  imports Scenarios
begin

section \<open>What the platform guarantees under concurrency\<close>

text \<open>
  The properties of the running system, for any service that satisfies
  \<open>read_committed_service\<close>, any number of connections, any calls, and any interleaving and
  faults the environment chooses.
\<close>

definition code_strategies :: "(bid_command \<Rightarrow> bid_outcome prog) set" where
  "code_strategies =
     range unsafe_place_bid \<union> {pessimistic_place_bid} \<union> range optimistic_place_bid"

definition safe_strategies :: "(bid_command \<Rightarrow> bid_outcome prog) set" where
  "safe_strategies = {pessimistic_place_bid} \<union> range optimistic_place_bid"

lemma code_strategy: "strat \<in> code_strategies \<Longrightarrow> \<exists>C. bid_strategy strat C"
  unfolding code_strategies_def
  using unsafe.bid_strategy_axioms pessimistic.bid_strategy_axioms optimistic.bid_strategy_axioms
  by blast

lemma code_strategies_choice:
  "(\<And>p. strat p \<in> code_strategies) \<Longrightarrow> \<exists>C. \<forall>p. bid_strategy (strat p) (C p)"
  by (rule choice) (blast intro: code_strategy)

lemma within_not_before: "within s e t \<Longrightarrow> not_before s e t"
  by (simp add: within_def not_before_def)

lemma safe_strategy:
  "strat \<in> safe_strategies \<Longrightarrow>
   \<exists>V. safe_bid_strategy strat V \<and> (\<forall>s e t. V s e t \<longrightarrow> not_before s e t)"
  unfolding safe_strategies_def
  using pessimistic.safe_bid_strategy_axioms optimistic.safe_bid_strategy_axioms within_not_before
  by blast

lemma safe_is_code: "safe_strategies \<subseteq> code_strategies"
  by (auto simp: safe_strategies_def code_strategies_def)

lemma safe_ledger:
  assumes "read_committed_service store call step" "at_start store call s"
    and "\<And>p. strat p \<in> safe_strategies"
    and "runs step (s, \<lambda>p. service_call (strat p) (calls p)) (s', ps')"
    and "ledger not_before (store s)" "titles_clean (store s)"
  shows "ledger not_before (store s') \<and> titles_clean (store s')"
proof -
  have "\<forall>p. \<exists>V. safe_bid_strategy (strat p) V \<and> (\<forall>s e t. V s e t \<longrightarrow> not_before s e t)"
    using safe_strategy assms(3) by blast
  from choice [OF this] obtain V where V: "\<And>p. safe_bid_strategy (strat p) (V p)"
    "\<And>p s e t. V p s e t \<Longrightarrow> not_before s e t"
    by blast
  show ?thesis
    by (rule read_committed_service.load_ledger [OF assms(1,2) V(1) _ assms(4-6)]) (rule V(2))
qed

subsection \<open>Legal histories\<close>

text \<open>
  C2. With the optimistic strategy on every connection, the invariant checker finds nothing
  to report of any auction, at any moment of any concurrent execution.
\<close>

theorem optimistic_history_valid:
  assumes "read_committed_service store call step" "at_start store call s"
    and "titles_clean (store s)" "ledger within (store s)"
    and "runs step (s, \<lambda>p. service_call (optimistic_place_bid (m p)) (calls p)) (s', ps')"
    and "auctions (store s') a = Some r"
  shows "report_valid (report_on (store s') a)"
proof (rule report_on_within [OF _ _ _ assms(6)])
  show "db_wf (store s')" by (rule read_committed_service.load_wf [OF assms(1,2,5)])
  have "ledger within (store s') \<and> titles_clean (store s')"
    by (rule read_committed_service.load_ledger
        [OF assms(1,2) optimistic.safe_bid_strategy_axioms _ assms(5,4,3)])
  then show "titles_clean (store s')" "ledger within (store s')" by simp_all
qed

text \<open>Two bids that both read version 0: the second one's UPDATE misses, and it is rejected.\<close>

definition optimistic_race :: "(nat \<times> choice) list" where
  "optimistic_race = turns 0 5 4 @ turns 1 5 4 @ turns 0 6 4 @ turns 1 7 3 @ turns 1 8 6"

lemma optimistic_race_observed:
  "observed (after_schedule (\<lambda>p. optimistic_place_bid 3) two_bids optimistic_race) =
     Some ([], [200], Some ACCEPTED, Some REJECTED)"
  by code_simp

theorem optimistic_history_valid_witness:
  "\<exists>s ps. status_of (answer (ps 0)) = Some ACCEPTED \<and> status_of (answer (ps 1)) = Some REJECTED \<and>
    auctions (sv_store s) 1 \<noteq> None \<and> report_valid (report_on (sv_store s) 1) \<and>
    runs service_step
      (two_connections, \<lambda>p. service_call (optimistic_place_bid 3) (two_bids p)) (s, ps)"
proof -
  obtain s ps where r: "runs service_step
      (two_connections, \<lambda>p. service_call (optimistic_place_bid 3) (two_bids p)) (s, ps)"
    and st: "status_of (answer (ps 0)) = Some ACCEPTED" "status_of (answer (ps 1)) = Some REJECTED"
    by (rule observed_reached [OF optimistic_race_observed])
  obtain x where "auctions (sv_store s) 1 = Some x" using lot_stays [OF r] by blast
  with optimistic_history_valid [OF service_axioms two_connections_start _ _ r this] st r
    lot_db_titles lot_db_ledger [of within]
  show ?thesis by auto
qed

text \<open>
  C3. With pessimistic and optimistic strategies in any mixture, every auction's history is
  legal: versions count the bids, each bid clears the one before by the increment, the row
  names the last bid, and no bid was accepted before the opening. The only thing the checker
  can report is a bid accepted after the closing time.
\<close>

theorem safe_strategies_history:
  assumes "read_committed_service store call step" "at_start store call s"
    and "\<And>p. strat p \<in> safe_strategies"
    and "runs step (s, \<lambda>p. service_call (strat p) (calls p)) (s', ps')"
    and "ledger not_before (store s)" "titles_clean (store s)"
    and "auctions (store s') a = Some r"
  shows "history_legal (snapshot_of r) (map bid_of (history_of (store s') a)) \<and>
    (\<forall>b \<in> set (history_of (store s') a). ra_starts_at r \<le> rb_accepted_at b) \<and>
    (\<forall>v \<in> set (ir_violations (report_on (store s') a)).
       violation_code v = ''accepted_outside_window'')"
proof -
  from safe_ledger [OF assms(1-6)] have l: "ledger not_before (store s')" "titles_clean (store s')"
    by simp_all
  have wf: "db_wf (store s')" by (rule read_committed_service.load_wf [OF assms(1,2,4)])
  from ledgerD [OF l(1) assms(7)] report_on_not_before [OF wf l(2,1) assms(7)]
  show ?thesis by (auto simp: not_before_def)
qed

text \<open>The same two bids under the pessimistic strategy on connection 0 and the optimistic one on
  connection 1.\<close>

definition mixed :: "nat \<Rightarrow> bid_command \<Rightarrow> bid_outcome prog" where
  "mixed p = (if p = 0 then pessimistic_place_bid else optimistic_place_bid 3)"

definition mixed_race :: "(nat \<times> choice) list" where
  "mixed_race = turns 1 4 4 @ turns 0 5 9 @ turns 1 7 3 @ turns 1 8 6"

lemma mixed_safe: "mixed p \<in> safe_strategies"
  by (simp add: mixed_def safe_strategies_def)

lemma mixed_race_observed:
  "observed (after_schedule mixed two_bids mixed_race) = Some ([], [200], Some ACCEPTED, Some REJECTED)"
  by code_simp

theorem safe_strategies_history_witness:
  "\<exists>s ps r. status_of (answer (ps 0)) = Some ACCEPTED \<and> auctions (sv_store s) 1 = Some r \<and>
    runs service_step (two_connections, \<lambda>p. service_call (mixed p) (two_bids p)) (s, ps) \<and>
    history_legal (snapshot_of r) (map bid_of (history_of (sv_store s) 1))"
proof -
  obtain s ps where r: "runs service_step
      (two_connections, \<lambda>p. service_call (mixed p) (two_bids p)) (s, ps)"
    and st: "status_of (answer (ps 0)) = Some ACCEPTED"
    by (rule observed_reached [OF mixed_race_observed])
  obtain x where x: "auctions (sv_store s) 1 = Some x" using lot_stays [OF r] by blast
  from safe_strategies_history [OF service_axioms two_connections_start mixed_safe r _ _ x]
    lot_db_titles lot_db_ledger [of not_before] st r x
  show ?thesis by auto
qed

text \<open>
  C4. Under the safe strategies the price of an auction is the greatest amount bid on it, and
  the winner is the one bid with that amount.
\<close>

theorem highest_bid_wins:
  assumes "read_committed_service store call step" "at_start store call s"
    and "\<And>p. strat p \<in> safe_strategies"
    and "runs step (s, \<lambda>p. service_call (strat p) (calls p)) (s', ps')"
    and "ledger not_before (store s)" "titles_clean (store s)"
    and "auctions (store s') a = Some r" "b \<in> set (history_of (store s') a)"
  shows "ra_current_price_cents r = Some (Max (rb_amount_cents ` set (history_of (store s') a))) \<and>
    (ra_winning_bid_id r = Some (rb_id b) \<longleftrightarrow>
      rb_amount_cents b = Max (rb_amount_cents ` set (history_of (store s') a)))"
proof -
  have l: "ledger not_before (store s')" using safe_ledger [OF assms(1-6)] by simp
  have wf: "db_wf (store s')" by (rule read_committed_service.load_wf [OF assms(1,2,4)])
  have "0 < ra_minimum_increment_cents r"
    using db_wfD(2) [OF wf assms(7)] by (simp add: auctions_check_defs)
  moreover have "distinct (map rb_id (history_of (store s') a))"
    using wf by (simp add: db_wf_def history_of_def distinct_map_filter)
  ultimately show ?thesis
    using history_legal_highest [OF ledgerD(1) [OF l assms(7)] _ assms(8)] by auto
qed

theorem highest_bid_wins_witness:
  "\<exists>s ps r b. runs service_step (two_connections, \<lambda>p. service_call (mixed p) (two_bids p)) (s, ps) \<and>
    auctions (sv_store s) 1 = Some r \<and> b \<in> set (history_of (sv_store s) 1) \<and>
    ra_current_price_cents r = Some 200 \<and> ra_winning_bid_id r = Some (rb_id b)"
proof -
  obtain s ps where r: "runs service_step
      (two_connections, \<lambda>p. service_call (mixed p) (two_bids p)) (s, ps)"
    and h: "map rb_amount_cents (history_of (sv_store s) 1) = [200]"
    by (rule observed_reached [OF mixed_race_observed])
  obtain x where x: "auctions (sv_store s) 1 = Some x" using lot_stays [OF r] by blast
  from h obtain b where b: "history_of (sv_store s) 1 = [b]" "rb_amount_cents b = 200" by auto
  from highest_bid_wins [OF service_axioms two_connections_start mixed_safe r _ _ x, of b] b
    lot_db_titles lot_db_ledger [of not_before] r x
  show ?thesis by auto
qed

subsection \<open>Answers\<close>

text \<open>
  C5. Whatever the strategies, the outcome of a bid is true: an accepted outcome carries the
  one bid the call has committed, with the command's data, and it is stored; a replayed one
  carries a stored bid with the command's data, and the call has committed none; a rejection
  has committed none.
\<close>

theorem answers_are_committed:
  assumes "read_committed_service store call step" "at_start store call s"
    and "\<And>p. strat p \<in> code_strategies"
    and "runs step (s, \<lambda>p. service_call (strat p) (calls p)) (s', ps')"
    and "calls p = Place_Bid cmd" "ps' p = Ret (Bid_Placed x)"
  shows "valid_outcome x \<and>
    (case out_status x of
       ACCEPTED \<Rightarrow> \<exists>b \<in> set (bids (store s')). log_bids (call s' p) = [b] \<and>
         out_bid x = Some (bid_of b) \<and> carries cmd b
     | REPLAYED \<Rightarrow> log_bids (call s' p) = [] \<and>
         (\<exists>b \<in> set (bids (store s')). out_bid x = Some (bid_of b) \<and> carries cmd b)
     | REJECTED \<Rightarrow> log_bids (call s' p) = [])"
proof -
  obtain C where C: "\<And>p. bid_strategy (strat p) (C p)"
    using code_strategies_choice [of strat, OF assms(3)] by blast
  have "answer_ok (calls p) (Bid_Placed x) (call s' p)"
    by (rule read_committed_service.load_answer [OF assms(1,2) C assms(4,6)])
  then have ok: "outcome_ok cmd (log_bids (call s' p)) (l_seen (call s' p)) x"
    by (simp add: assms(5) answer_ok_def returns_ok_def)
  have "set (log_bids (call s' p)) \<union> set (l_seen (call s' p)) \<subseteq> set (bids (store s'))"
    by (rule read_committed_service.load_owned [OF assms(1,2,4)])
  with ok show ?thesis
    by (auto simp: outcome_ok_def split: bid_outcome_status.splits)
qed

theorem answers_are_committed_witness:
  "\<exists>s ps x b. runs service_step (two_connections, \<lambda>p. service_call (mixed p) (two_bids p)) (s, ps) \<and>
    ps 0 = Ret (Bid_Placed x) \<and> b \<in> set (bids (sv_store s)) \<and> out_bid x = Some (bid_of b) \<and>
    carries (bid_on_lot 11 200) b"
proof -
  obtain s ps where r: "runs service_step
      (two_connections, \<lambda>p. service_call (mixed p) (two_bids p)) (s, ps)"
    and st: "status_of (answer (ps 0)) = Some ACCEPTED"
    by (rule observed_reached [OF mixed_race_observed])
  from status_of_Some [OF st] obtain x where x: "ps 0 = Ret (Bid_Placed x)" "out_status x = ACCEPTED"
    by blast
  have "mixed p \<in> code_strategies" for p using mixed_safe safe_is_code by blast
  from answers_are_committed [OF service_axioms two_connections_start this r _ x(1)] r x
  show ?thesis by (fastforce simp: two_bids_def)
qed

text \<open>
  C6. A request is accepted at most once: of two calls with the same request identifier, on
  whatever connections and with whatever strategies, at most one is answered \<open>ACCEPTED\<close>.
\<close>

theorem request_accepted_once:
  assumes "read_committed_service store call step" "at_start store call s"
    and "\<And>p. strat p \<in> code_strategies"
    and "runs step (s, \<lambda>p. service_call (strat p) (calls p)) (s', ps')"
    and "p \<noteq> q" "calls p = Place_Bid cmd" "calls q = Place_Bid cmd'"
    and "ps' p = Ret (Bid_Placed x)" "ps' q = Ret (Bid_Placed y)"
    and "out_status x = ACCEPTED" "out_status y = ACCEPTED"
  shows "cmd_request_id cmd \<noteq> cmd_request_id cmd'"
proof -
  obtain C where C: "\<And>p. bid_strategy (strat p) (C p)"
    using code_strategies_choice [of strat, OF assms(3)] by blast
  note ans = read_committed_service.load_answer [OF assms(1,2) C assms(4)]
  from ans [OF assms(8)] obtain b where b: "log_bids (call s' p) = [b]" "carries cmd b"
    by (auto simp: assms(6,10) answer_ok_def returns_ok_def outcome_ok_def)
  from ans [OF assms(9)] obtain c where c: "log_bids (call s' q) = [c]" "carries cmd' c"
    by (auto simp: assms(7,11) answer_ok_def returns_ok_def outcome_ok_def)
  have "read_committed_service.owned store call s'"
    using read_committed_service.runs_owned [OF assms(1,4)]
      read_committed_service.at_start_isolated [OF assms(1,2)]
      read_committed_service.at_start_owned [OF assms(1,2)] by simp
  then have "rb_request_id ` set (log_bids (call s' p)) \<inter> rb_request_id ` set (log_bids (call s' q)) = {}"
    using assms(5) by (simp add: read_committed_service.owned_def [OF assms(1)])
  with b c show ?thesis by (auto simp: carries_def)
qed

text \<open>Two unsafe bids that both read version 0; nothing stops the second one.\<close>

definition unsafe_race :: "(nat \<times> choice) list" where
  "unsafe_race = turns 0 5 4 @ turns 1 5 4 @ turns 0 6 4 @ turns 1 7 4"

lemma unsafe_race_observed:
  "observed (after_schedule (\<lambda>p. unsafe_place_bid False) two_bids unsafe_race) =
     Some ([''version_sequence'', ''auction_version'', ''non_monotonic_bid'', ''winner_not_highest''],
       [200, 105], Some ACCEPTED, Some ACCEPTED)"
  by code_simp

lemma unsafe_is_code: "unsafe_place_bid hook \<in> code_strategies"
  by (simp add: code_strategies_def)

theorem request_accepted_once_witness:
  "\<exists>s ps x y. runs service_step
      (two_connections, \<lambda>p. service_call (unsafe_place_bid False) (two_bids p)) (s, ps) \<and>
    ps 0 = Ret (Bid_Placed x) \<and> ps 1 = Ret (Bid_Placed y) \<and>
    out_status x = ACCEPTED \<and> out_status y = ACCEPTED \<and>
    cmd_request_id (bid_on_lot 11 200) \<noteq> cmd_request_id (bid_on_lot 12 105)"
proof -
  obtain s ps where r: "runs service_step
      (two_connections, \<lambda>p. service_call (unsafe_place_bid False) (two_bids p)) (s, ps)"
    and st: "status_of (answer (ps 0)) = Some ACCEPTED" "status_of (answer (ps 1)) = Some ACCEPTED"
    by (rule observed_reached [OF unsafe_race_observed])
  from status_of_Some [OF st(1)] obtain x where x: "ps 0 = Ret (Bid_Placed x)" "out_status x = ACCEPTED"
    by blast
  from status_of_Some [OF st(2)] obtain y where y: "ps 1 = Ret (Bid_Placed y)" "out_status y = ACCEPTED"
    by blast
  have "cmd_request_id (bid_on_lot 11 200) \<noteq> cmd_request_id (bid_on_lot 12 105)"
    by (rule request_accepted_once [OF service_axioms two_connections_start unsafe_is_code r
          _ _ _ x(1) y(1) x(2) y(2)]) (simp_all add: two_bids_def)
  with r x y show ?thesis by blast
qed

text \<open>
  C7. A call that raises has committed no bid, with one exception: when the confirmation of
  its COMMIT was lost, the one bid it asked for may be stored, and the error is the broken
  connection's.
\<close>

theorem failed_bid_not_committed:
  assumes "read_committed_service store call step" "at_start store call s"
    and "\<And>p. strat p \<in> code_strategies"
    and "runs step (s, \<lambda>p. service_call (strat p) (calls p)) (s', ps')"
    and "calls p = Place_Bid cmd" "ps' p = Raise e"
  shows "l_txn (call s' p) = None \<and>
    (log_bids (call s' p) = [] \<or>
     (e = SqlError OperationalError \<and> (\<exists>b. log_bids (call s' p) = [b] \<and> carries cmd b)))"
proof -
  obtain C where C: "\<And>p. bid_strategy (strat p) (C p)"
    using code_strategies_choice [of strat, OF assms(3)] by blast
  have "failure_ok (calls p) e (call s' p)"
    by (rule read_committed_service.load_failure [OF assms(1,2) C assms(4,6)])
  then show ?thesis by (simp add: assms(5) raises_ok_def)
qed

text \<open>A lock timeout at the UPDATE of connection 0.\<close>

definition lock_timeout :: "(nat \<times> choice) list" where
  "lock_timeout = turns 0 5 6 @ [(0, Fault LockNotAvailable)] @ turns 0 6 1"

definition escaped :: "(service_state \<times> (nat \<Rightarrow> call_result prog)) option \<Rightarrow> py_exn option" where
  "escaped x = (case x of Some (s, ps) \<Rightarrow>
     (case answer (ps 0) of Some (Inl e) \<Rightarrow> Some e | _ \<Rightarrow> None) | None \<Rightarrow> None)"

lemma optimistic_lock_timeout_escaped:
  "escaped (after_schedule (\<lambda>p. optimistic_place_bid 3) two_bids lock_timeout) =
     Some (SqlError LockNotAvailable)"
  by code_simp

lemma escaped_reached:
  assumes "escaped (after_schedule strat calls cs) = Some e"
  obtains s ps where
    "runs service_step (two_connections, \<lambda>p. service_call (strat p) (calls p)) (s, ps)"
    "ps 0 = Raise e"
proof -
  from assms obtain s ps where y: "after_schedule strat calls cs = Some (s, ps)"
    and "answer (ps 0) = Some (Inl e)"
    by (auto simp: escaped_def split: option.splits sum.splits prod.splits)
  with that [OF after_schedule_runs [OF y]] show ?thesis by (simp add: answer_Some)
qed

lemma optimistic_is_code: "optimistic_place_bid m \<in> code_strategies"
  by (simp add: code_strategies_def)

theorem failed_bid_not_committed_witness:
  "\<exists>s ps. runs service_step
      (two_connections, \<lambda>p. service_call (optimistic_place_bid 3) (two_bids p)) (s, ps) \<and>
    ps 0 = Raise (SqlError LockNotAvailable) \<and> log_bids (service_of s 0) = []"
proof -
  obtain s ps where r: "runs service_step
      (two_connections, \<lambda>p. service_call (optimistic_place_bid 3) (two_bids p)) (s, ps)"
    and e: "ps 0 = Raise (SqlError LockNotAvailable)"
    by (rule escaped_reached [OF optimistic_lock_timeout_escaped])
  from failed_bid_not_committed [OF service_axioms two_connections_start optimistic_is_code r _ e]
    r e show ?thesis by (auto simp: two_bids_def)
qed

subsection \<open>Isolation and durability\<close>

text \<open>
  Row locks exclude: two open transactions never hold the same auction, and never have
  pending bids with the same request.
\<close>

theorem locks_exclude:
  assumes "read_committed_service store call step" "at_start store call s"
    and "runs step (s, \<lambda>p. service_call (strat p) (calls p)) (s', ps')"
    and "p \<noteq> q" "l_txn (call s' p) = Some t" "l_txn (call s' q) = Some u"
  shows "ra_id ` set (t_locks t) \<inter> ra_id ` set (t_locks u) = {} \<and>
    rb_request_id ` set (t_bids t) \<inter> rb_request_id ` set (t_bids u) = {}"
proof -
  have "read_committed_service.isolated store call s'"
    using read_committed_service.runs_isolated [OF assms(1,3)]
      read_committed_service.at_start_isolated [OF assms(1,2)] by simp
  then have "compatible (call s' p) (call s' q)"
    using assms(4) by (simp add: read_committed_service.isolated_def [OF assms(1)])
  with assms(5,6) show ?thesis by (simp add: compatible_def conflict_def overlap_iff)
qed

text \<open>Connection 0 has locked the auction; connection 1 has read it and not yet written.\<close>

definition both_open :: "(nat \<times> choice) list" where
  "both_open = turns 0 5 3 @ turns 1 5 4"

definition open_locks :: "(service_state \<times> (nat \<Rightarrow> call_result prog)) option \<Rightarrow> uuid list option list" where
  "open_locks x = (case x of None \<Rightarrow> []
     | Some (s, ps) \<Rightarrow> map (\<lambda>p. map_option (\<lambda>t. map ra_id (t_locks t)) (l_txn (service_of s p))) [0, 1])"

lemma both_open_locks: "open_locks (after_schedule mixed two_bids both_open) = [Some [1], Some []]"
  by code_simp

theorem locks_exclude_witness:
  "\<exists>s ps t u. runs service_step (two_connections, \<lambda>p. service_call (mixed p) (two_bids p)) (s, ps) \<and>
    l_txn (service_of s 0) = Some t \<and> l_txn (service_of s 1) = Some u \<and> t_locks t \<noteq> [] \<and>
    ra_id ` set (t_locks t) \<inter> ra_id ` set (t_locks u) = {}"
proof -
  obtain s ps where y: "after_schedule mixed two_bids both_open = Some (s, ps)"
    using both_open_locks by (auto simp: open_locks_def split: option.splits)
  then obtain t u where t: "l_txn (service_of s 0) = Some t" "l_txn (service_of s 1) = Some u"
    "map ra_id (t_locks t) = [1]"
    using both_open_locks by (auto simp: open_locks_def)
  note r = after_schedule_runs [OF y]
  have "(0 :: nat) \<noteq> 1" by simp
  from locks_exclude [OF service_axioms two_connections_start r this t(1,2)] r t
  show ?thesis by force
qed



subsection \<open>What is not guaranteed\<close>


definition late_insert :: "(nat \<times> choice) list" where
  "late_insert = turns 0 999 5 @ turns 0 1001 4"

lemma late_insert_observed:
  "observed (after_schedule (\<lambda>p. pessimistic_place_bid) two_bids late_insert) =
     Some ([''accepted_outside_window''], [200], Some ACCEPTED, None)"
  by code_simp


definition lock_timeout_pessimistic :: "(nat \<times> choice) list" where
  "lock_timeout_pessimistic = turns 0 5 2 @ [(0, Fault LockNotAvailable)] @ turns 0 6 1"

lemma pessimistic_lock_timeout_escaped:
  "escaped (after_schedule (\<lambda>p. pessimistic_place_bid) two_bids lock_timeout_pessimistic) =
     Some (StrategyBusyError ''database wait timeout expired'')"
  by code_simp


text \<open>The checker next to a bid: connection 0 bids 200, connection 1 checks the auction.\<close>

definition bid_and_check :: "nat \<Rightarrow> api_call" where
  "bid_and_check p = (if p = 0 then Place_Bid (bid_on_lot 11 200) else Check_Invariants 1)"

definition check_found :: "call_result prog \<Rightarrow> string list option" where
  "check_found p =
     (case answer p of
        Some (Inr (Invariants_Checked report)) \<Rightarrow> Some (map violation_code (ir_violations report))
      | _ \<Rightarrow> None)"

lemma check_race_observed:
  "map_option (\<lambda>(s, ps). (ir_violations (report_on (sv_store s) 1), status_of (answer (ps 0)), check_found (ps 1)))
      (after_schedule (\<lambda>p. optimistic_place_bid 3) bid_and_check (turns 1 5 3 @ turns 0 6 8 @ turns 1 7 3)) =
    Some ([], Some ACCEPTED, Some [''auction_version'', ''winner_missing''])"
  by code_simp

text \<open>
  The checker reads an auction and its bids in two transactions, so it needs a service at rest: when an
  optimistic bid commits between the two, it reports violations of a history that is legal and was so
  all the time.
\<close>

theorem audit_needs_quiet:
  "\<exists>s ps. runs service_step
      (two_connections, \<lambda>p. service_call (optimistic_place_bid 3) (bid_and_check p)) (s, ps) \<and>
    ir_violations (report_on (sv_store s) 1) = [] \<and> status_of (answer (ps 0)) = Some ACCEPTED \<and>
    check_found (ps 1) = Some [''auction_version'', ''winner_missing'']"
proof -
  obtain s ps where y: "after_schedule (\<lambda>p. optimistic_place_bid 3) bid_and_check
      (turns 1 5 3 @ turns 0 6 8 @ turns 1 7 3) = Some (s, ps)"
    and o: "ir_violations (report_on (sv_store s) 1) = []" "status_of (answer (ps 0)) = Some ACCEPTED"
      "check_found (ps 1) = Some [''auction_version'', ''winner_missing'']"
    using check_race_observed by auto
  show ?thesis using after_schedule_runs [OF y] o by blast
qed

end
