(* ===== verification/Behaviour.thy ===== *)
theory Behaviour
  imports Scenarios
begin

section \<open>What one call does\<close>

text \<open>
  The properties of single calls: the functional behaviour of the strategies, the repository
  and the checker when nothing interferes, the effect of retries, and the bounds on attempts
  that hold whatever the database replies.
\<close>

subsection \<open>The strategies, alone\<close>

definition working_strategies :: "(bid_command \<Rightarrow> bid_outcome prog) set" where
  "working_strategies =
     range unsafe_place_bid \<union> {pessimistic_place_bid} \<union> optimistic_place_bid ` {m. 0 < m}"

lemma alone_spec:
  assumes "strat \<in> working_strategies" "can_place d cmd u"
  shows "run_alone (strat cmd) now u d =
    (case place_bid_spec d cmd now u of (r, d') \<Rightarrow> (Some r, d'))"
  using assms(1) unsafe_alone [OF assms(2)] pessimistic_alone [OF assms(2)] optimistic_alone [OF assms(2)]
  by (auto simp: working_strategies_def)

lemma known_request_alone:
  assumes "strat \<in> working_strategies" "db_wf d"
    and "find (\<lambda>b. rb_request_id b = cmd_request_id cmd) (bids d) = Some b"
  shows "run_alone (strat cmd) now u d = (Some (replay_or_reject (bid_of b) cmd), d)"
proof -
  have b: "bid_from_row b = Inr (bid_of b)"
    using assms(2,3) by (auto intro!: bid_from_row_eq dest: find_SomeD db_wf_bidD(1))
  from assms(1) consider (unsafe) hook where "strat = unsafe_place_bid hook"
    | (pess) "strat = pessimistic_place_bid" | (opt) m where "strat = optimistic_place_bid m" "0 < m"
    by (auto simp: working_strategies_def)
  then show ?thesis
  proof cases
    case opt
    then obtain left where "nat m = Suc left" "m - int left = 1" by (cases "nat m") auto
    with opt b assms(3) show ?thesis
      by (simp add: alone_defs optimistic_defs empty_commit replay_or_reject_def make_bid_outcome_def)
  qed (use b assms(3) in \<open>simp_all add: alone_defs unsafe_defs pessimistic_defs empty_commit replay_or_reject_def\<close>)
qed

lemma run_good:
  "good d l \<Longrightarrow> run p ch n d l = (r, d', l') \<Longrightarrow> good d' l'"
proof (induction p arbitrary: n d l)
  case (Exec s k)
  show ?case
  proof (cases "exec1 d s l (ch n)")
    case (Some x)
    then obtain rep m where e: "exec1 d s l (ch n) = Some (rep, m)" by (cases x) simp
    with Exec.prems(2) have "run (k rep) ch (Suc n) (db_after d l m) m = (r, d', l')" by simp
    from Exec.IH [OF rangeI exec1_good [OF Exec.prems(1) e] this] show ?thesis .
  qed (use Exec.prems in simp)
qed auto

lemma run_alone_wf: "db_wf d \<Longrightarrow> run_alone p now u d = (r, d') \<Longrightarrow> db_wf d'"
proof -
  assume d: "db_wf d" and r: "run_alone p now u d = (r, d')"
  have "good d (idle now)" using d by (simp add: good_def idle_def)
  moreover from r obtain l' where "run p (\<lambda>n. Go now u) 0 d (idle now) = (r, d', l')"
    by (auto simp: run_alone_def split: prod.splits)
  ultimately have "good d' l'" by (rule run_good)
  then show "db_wf d'" by (simp add: good_def)
qed


lemma lot_can_place: "can_place lot_db (bid_on_lot 11 200) 100"
proof -
  have "valid_command (bid_on_lot 11 200)" by code_simp
  then show ?thesis
    using lot_db_wf lot_db_titles by (simp add: can_place_def lot_db_def lot_def bid_on_lot_def bigint_ok_def)
qed



lemma pessimistic_working: "pessimistic_place_bid \<in> working_strategies"
  by (simp add: working_strategies_def)

definition lot_after_bid :: "bid_outcome py option \<times> db" where
  "lot_after_bid = run_alone (pessimistic_place_bid (bid_on_lot 11 200)) 7 100 lot_db"

lemma lot_bid_accepted:
  "(case fst lot_after_bid of Some (Inr x) \<Rightarrow> out_status x | _ \<Rightarrow> REJECTED) = ACCEPTED"
  by code_simp

lemma lot_after_bid_cases:
  obtains x d' where "run_alone (pessimistic_place_bid (bid_on_lot 11 200)) 7 100 lot_db = (Some (Inr x), d')"
    "out_status x = ACCEPTED"
  using lot_bid_accepted
  by (cases lot_after_bid) (auto simp: lot_after_bid_def split: option.splits sum.splits)


text \<open>
  A request identifier that is already stored is never bid with again: the same data is
  answered with the stored bid, other data with \<open>REQUEST_ID_REUSED\<close>, and nothing is written.
\<close>

theorem known_request_answered:
  assumes "strat \<in> working_strategies" "db_wf d"
    and "b \<in> set (bids d)" "rb_request_id b = cmd_request_id cmd"
  shows "run_alone (strat cmd) now u d =
    (Some (if same_payload (bid_of b) cmd then outcome_replayed (bid_of b) 1 0
           else outcome_rejected REQUEST_ID_REUSED None 1 0), d)"
proof -
  have "distinct (map rb_request_id (bids d))" using assms(2) by (simp add: db_wf_def)
  from find_unique [OF this assms(3)] assms(4)
  have "find (\<lambda>x. rb_request_id x = cmd_request_id cmd) (bids d) = Some b" by simp
  from known_request_alone [OF assms(1,2) this] show ?thesis
    by (simp only: replay_or_reject_def)
qed



definition lot_bid :: bid_row where
  "lot_bid =
     \<lparr>rb_id = 100, rb_request_id = 11, rb_auction_id = 1, rb_bidder_id = ''ann'',
      rb_amount_cents = 200, rb_auction_version = 1, rb_accepted_at = 7\<rparr>"

definition lot_sold_db :: db where
  "lot_sold_db = add_bid lot_bid lot lot_db"

lemma lot_sold_wf: "db_wf lot_sold_db"
proof -
  have "auctions_check (bid_set 200 100 1 lot)" "bids_check lot_bid" by code_simp+
  then show ?thesis
    by (simp add: db_wf_def lot_sold_db_def lot_db_def add_bid_def lot_bid_def lot_def bid_set_def
        auctions_winning_bid_fk_def bids_auction_fk_def)
qed

theorem known_request_answered_witness:
  "run_alone (pessimistic_place_bid (bid_on_lot 11 200)) 5000 101 lot_sold_db =
     (Some (outcome_replayed (bid_of lot_bid) 1 0), lot_sold_db) \<and>
   run_alone (pessimistic_place_bid (bid_on_lot 11 300)) 500 101 lot_sold_db =
     (Some (outcome_rejected REQUEST_ID_REUSED None 1 0), lot_sold_db)"
proof -
  have b: "lot_bid \<in> set (bids lot_sold_db)"
    by (simp add: lot_sold_db_def add_bid_def)
  have q: "rb_request_id lot_bid = cmd_request_id (bid_on_lot 11 200)"
    "rb_request_id lot_bid = cmd_request_id (bid_on_lot 11 300)"
    by (simp_all add: lot_bid_def bid_on_lot_def)
  have p: "same_payload (bid_of lot_bid) (bid_on_lot 11 200)"
    "\<not> same_payload (bid_of lot_bid) (bid_on_lot 11 300)"
    by code_simp+
  from known_request_answered [OF pessimistic_working lot_sold_wf b q(1), of 5000 101]
    known_request_answered [OF pessimistic_working lot_sold_wf b q(2), of 500 101] p
  show ?thesis by (simp del: outcome_classmethods)
qed

subsection \<open>Bounds on attempts\<close>

text \<open>
  C15. Whatever the database replies, an outcome of the optimistic strategy reports between
  one and \<open>max_attempts\<close> attempts and at most as many conflicts, the other strategies report
  one attempt, and the internal exception \<open>_OptimisticMiss\<close> never reaches the caller.
\<close>

theorem attempts_bounded:
  assumes "0 < m"
  shows "results (counters_within m) no_miss (optimistic_place_bid m cmd) \<and>
    results (counters_within 1) no_miss (pessimistic_place_bid cmd) \<and>
    results (counters_within 1) no_miss (unsafe_place_bid hook cmd)"
  using optimistic_loop_results [of m "nat m" cmd] assms pessimistic_results unsafe_results
  by (simp add: optimistic_place_bid_def)

theorem attempts_bounded_witness:
  "results (counters_within 3) no_miss (optimistic_place_bid 3 (bid_on_lot 11 200))"
  using attempts_bounded [of 3] by simp

text \<open>
  C16. The loop of the optimistic strategy ends by itself: the last attempt always returns or
  raises, so the statement after the loop is never reached, whatever it is.
\<close>

theorem loop_never_exhausted:
  assumes "0 < m"
  shows "optimistic_loop_else after m cmd (nat m) = optimistic_place_bid m cmd"
proof -
  obtain left where "nat m = Suc left" using assms by (cases "nat m") auto
  then show ?thesis by (simp only: optimistic_place_bid_def loop_else_eq)
qed

theorem loop_never_exhausted_witness:
  "optimistic_loop_else (Raise AssertionError) 2 (bid_on_lot 11 200) (nat 2) =
   optimistic_place_bid 2 (bid_on_lot 11 200)"
  by (rule loop_never_exhausted) simp

subsection \<open>The repository and the checker, alone\<close>

text \<open>
  \<open>create_auction\<close> with terms the schema accepts stores one row, and \<open>get_auction\<close> then
  returns the snapshot that was returned by the creation: the stripped title, no price, no
  winner, version 0.
\<close>

theorem created_auction_is_found:
  assumes "auction_terms_ok title starting increment starts ends" "auctions d u = None"
    and "db_wf d" "titles_clean d"
  shows "\<exists>a d'. run_alone (service_create_auction title starting increment starts ends) now u d =
      (Some (Inr a), d') \<and>
    run_alone (service_get_auction u) now' u' d' = (Some (Inr (Some a)), d') \<and>
    au_title a = py_strip title \<and> au_current_price_cents a = None \<and> au_winning_bid_id a = None \<and>
    au_version a = 0 \<and> valid_snapshot a \<and> bids d' = bids d"
proof -
  let ?r = "new_auction title starting increment starts ends now u"
  let ?d = "d\<lparr>auctions := (auctions d)(u \<mapsto> ?r)\<rparr>"
  note c = create_alone [OF assms(1,2), of now]
  have "db_wf ?d" by (rule run_alone_wf [OF assms(3) c])
  moreover have "titles_clean ?d"
    using assms(4) by (simp add: titles_clean_def new_auction_def)
  ultimately have g: "run_alone (service_get_auction u) now' u' ?d = (Some (Inr (Some (snapshot_of ?r))), ?d)"
    by (simp add: get_alone)
  have "valid_snapshot (snapshot_of ?r)"
    using new_auction_mapper [OF assms(1)] by (auto dest: auction_from_row_Inr)
  with c g show ?thesis by (auto simp: new_auction_def)
qed

theorem created_auction_is_found_witness:
  "\<exists>a d'. run_alone (service_create_auction '' vase '' 100 10 0 50) 3 9 empty_db = (Some (Inr a), d') \<and>
    run_alone (service_get_auction 9) 4 10 d' = (Some (Inr (Some a)), d') \<and> au_title a = ''vase''"
proof -
  have t: "auction_terms_ok '' vase '' 100 10 0 50" "py_strip '' vase '' = ''vase''" by code_simp+
  have e: "auctions empty_db 9 = None" by (simp add: empty_db_def)
  from created_auction_is_found [OF t(1) e empty_db_wf empty_db_titles] t(2)
  show ?thesis by metis
qed

text \<open>
  \<open>list_bids\<close> returns exactly the bids stored for the auction, in the order of version,
  time of acceptance and identifier, and writes nothing.
\<close>

theorem listed_bids:
  assumes "db_wf d"
  shows "\<exists>bs. run_alone (service_list_bids a) now u d = (Some (Inr (map bid_of bs)), d) \<and>
    set bs = {b \<in> set (bids d). rb_auction_id b = a} \<and> distinct bs \<and>
    sorted (map history_order bs)"
proof -
  have "distinct (bids d)" using assms by (auto simp: db_wf_def distinct_map)
  then have "set (select_bids_of a (bids d)) = {b \<in> set (bids d). rb_auction_id b = a}"
    "distinct (select_bids_of a (bids d))" "sorted (map history_order (select_bids_of a (bids d)))"
    by (auto simp: select_bids_of_def)
  with list_alone [OF assms] show ?thesis by blast
qed

theorem listed_bids_witness:
  "\<exists>bs. run_alone (service_list_bids 1) 9 9 lot_sold_db = (Some (Inr (map bid_of bs)), lot_sold_db) \<and>
    set bs = {lot_bid}"
proof -
  have "{b \<in> set (bids lot_sold_db). rb_auction_id b = 1} = {lot_bid}"
    by (auto simp: lot_sold_db_def add_bid_def lot_db_def lot_bid_def)
  with listed_bids [OF lot_sold_wf, of 1 9 9] show ?thesis by auto
qed

text \<open>What the checker says of one auction whose title is stripped.\<close>

lemma report_decides:
  assumes "db_wf d" "\<And>r. auctions d a = Some r \<Longrightarrow> py_strip (ra_title r) = ra_title r"
  shows "case auctions d a of
       None \<Rightarrow> ir_violations (report_on d a) = [Auction_Missing]
     | Some r \<Rightarrow> report_valid (report_on d a) \<longleftrightarrow>
         history_legal (snapshot_of r) (map bid_of (select_bids_of a (bids d))) \<and>
         history_in_window (snapshot_of r) (map bid_of (select_bids_of a (bids d)))"
proof (cases "auctions d a")
  case (Some r)
  have v: "valid_snapshot (snapshot_of r)"
    using assms Some by (auto intro: snapshot_of_valid dest: db_wfD)
  have "distinct (map rb_id (filter (\<lambda>b. rb_auction_id b = a) (bids d)))"
    using assms(1) by (simp add: db_wf_def distinct_map_filter)
  then have "distinct (map ab_id (map bid_of (select_bids_of a (bids d))))"
    by (simp add: select_bids_of_def comp_def distinct_map)
  from invariant_report_legal_iff [OF v this] Some show ?thesis by (simp add: report_on_def)
qed (simp add: report_on_def invariant_report_of_def)

text \<open>
  C17. The checker, run alone, reports \<open>auction_missing\<close> for an unknown auction, and of a
  known one nothing exactly when the stored history is legal and every bid was accepted
  inside the bidding window.
\<close>

theorem checker_decides_legality:
  assumes "db_wf d" "titles_clean d"
  shows "\<exists>rep. run_alone (check_auction_invariants a) now u d = (Some (Inr rep), d) \<and>
    (case auctions d a of
       None \<Rightarrow> ir_violations rep = [Auction_Missing]
     | Some r \<Rightarrow> report_valid rep \<longleftrightarrow>
         history_legal (snapshot_of r) (map bid_of (select_bids_of a (bids d))) \<and>
         history_in_window (snapshot_of r) (map bid_of (select_bids_of a (bids d))))"
proof -
  have "\<And>r. auctions d a = Some r \<Longrightarrow> py_strip (ra_title r) = ra_title r"
    using assms(2) by (simp add: titles_clean_def)
  from check_alone [OF assms(1) this] report_decides [OF assms(1) this] show ?thesis by blast
qed

theorem checker_decides_legality_witness:
  "\<exists>rep. run_alone (check_auction_invariants 1) 9 9 lot_sold_db = (Some (Inr rep), lot_sold_db) \<and>
    report_valid rep"
proof -
  have "py_strip ''lot'' = ''lot''" by code_simp
  then have "titles_clean lot_sold_db"
    by (simp add: titles_clean_def lot_sold_db_def lot_db_def add_bid_def lot_def)
  moreover have "auctions lot_sold_db 1 = Some (bid_set 200 100 1 lot)"
    by (simp add: lot_sold_db_def add_bid_def lot_bid_def lot_def)
  moreover have "history_legal (snapshot_of (bid_set 200 100 1 lot)) (map bid_of (select_bids_of 1 (bids lot_sold_db)))"
    "history_in_window (snapshot_of (bid_set 200 100 1 lot)) (map bid_of (select_bids_of 1 (bids lot_sold_db)))"
    by code_simp+
  ultimately show ?thesis
    using checker_decides_legality [OF lot_sold_wf, of 1 9 9] by auto
qed

end
