(* ===== verification/Data_Properties.thy ===== *)
theory Data_Properties
  imports Behaviour
begin

section \<open>Properties of the domain values and the schema\<close>

subsection \<open>Construction\<close>

text \<open>
  The constructor of \<open>AuctionSnapshot\<close> succeeds exactly on the arguments of a valid
  snapshot and then holds them unchanged: the title as given, the amounts as integers within
  the money range, aware times in order, price, winner and version in agreement.
\<close>

theorem snapshot_constructor:
  "make_auction_snapshot i title starting current increment winner version starts ends created = Inr a
   \<longleftrightarrow> valid_snapshot a \<and> au_id a = i \<and> au_title a = title \<and>
     starting = PyInt (au_starting_price_cents a) \<and>
     current = map_option PyInt (au_current_price_cents a) \<and>
     increment = PyInt (au_minimum_increment_cents a) \<and> au_winning_bid_id a = winner \<and>
     version = PyInt (au_version a) \<and> starts = Aware (au_starts_at a) \<and>
     ends = Aware (au_ends_at a) \<and> created = Aware (au_created_at a)"
  by (auto simp: make_auction_snapshot_eq_Inr)

text \<open>
  Outcomes are consistent: \<open>BidOutcome\<close> can only be built with positive attempts,
  non-negative conflicts, a bid and no reason when accepted or replayed, a reason and no bid
  when rejected.
\<close>

theorem outcome_constructor:
  "(\<exists>r. make_bid_outcome status bid reason least attempts conflicts = Inr r) \<longleftrightarrow>
   0 < attempts \<and> 0 \<le> conflicts \<and>
   (if status = REJECTED then bid = None \<and> reason \<noteq> None else bid \<noteq> None \<and> reason = None)"
  by (cases status) (auto simp: make_bid_outcome_def)

subsection \<open>The rules\<close>


definition lot_snapshot :: auction_snapshot where
  "lot_snapshot = snapshot_of lot"

lemma lot_snapshot_valid: "valid_snapshot lot_snapshot"
  by code_simp


text \<open>
  The range check comes before the state: once an auction's price is so high that the
  next bid would leave the money range, every bid raises \<open>OverflowError\<close>, also one on an
  auction that is closed or has not started.
\<close>

theorem overflow_before_state:
  assumes "valid_snapshot a" "money_ok amount" "MAX_MONEY_CENTS < required_amount a"
    and "\<not> in_window a t"
  shows "evaluate_bid a (PyInt amount) (Aware t) =
    Inl (OverflowError ''minimum acceptable bid exceeds the supported money range'')"
  using assms by (simp add: evaluate_bid_eq)

definition top_lot :: auction_snapshot where
  "top_lot = lot_snapshot\<lparr>au_current_price_cents := Some 9000000000000000,
     au_winning_bid_id := Some 5, au_version := 1\<rparr>"

theorem overflow_before_state_witness:
  "evaluate_bid top_lot (PyInt 1) (Aware 1001) =
    Inl (OverflowError ''minimum acceptable bid exceeds the supported money range'')"
proof (rule overflow_before_state)
  show "valid_snapshot top_lot" "money_ok 1" "MAX_MONEY_CENTS < required_amount top_lot"
    "\<not> in_window top_lot 1001"
    by code_simp+
qed

text \<open>
  \<open>apply_accepted_bid\<close> keeps auctions valid: whenever it returns, the bid was inside the
  window and high enough, the new snapshot is valid with the version one higher, the price and
  the winner those of the bid, and the next required amount at least an increment higher.
\<close>

theorem apply_accepted_bid_valid:
  assumes "valid_snapshot a" "apply_accepted_bid a i (PyInt amount) (Aware t) = Inr a'"
  shows "valid_snapshot a' \<and> in_window a t \<and> required_amount a \<le> amount \<and>
    a' = a\<lparr>au_current_price_cents := Some amount, au_winning_bid_id := Some i,
           au_version := au_version a + 1\<rparr> \<and>
    required_amount a + au_minimum_increment_cents a \<le> required_amount a'"
proof -
  from assms(2) obtain ev where ev: "evaluate_bid a (PyInt amount) (Aware t) = Inr ev" "ev_accepted ev"
    and a': "replace_price_state a amount i (au_version a + 1) = Inr a'"
    by (auto simp: apply_accepted_bid_def split: if_splits)
  from evaluate_bid_accepted [OF assms(1) ev]
  have w: "in_window a t" "required_amount a \<le> amount" "money_ok amount" by auto
  have "au_starting_price_cents a \<le> amount" "0 < au_version a + 1"
    using w assms(1)
    by (auto simp: required_amount_def valid_snapshot_def money_ok_def split: option.splits)
  from replace_price_state_valid [OF assms(1) w(3) this, of i] a'
  have eq: "a' = a\<lparr>au_current_price_cents := Some amount, au_winning_bid_id := Some i,
      au_version := au_version a + 1\<rparr>" by simp
  moreover from a' have "valid_snapshot a'"
    by (simp add: replace_price_state_def make_auction_snapshot_eq_Inr)
  ultimately show ?thesis using w by (simp add: required_amount_def)
qed

theorem apply_accepted_bid_valid_witness:
  "\<exists>a'. apply_accepted_bid lot_snapshot 7 (PyInt 150) (Aware 5) = Inr a' \<and> valid_snapshot a' \<and>
    required_amount a' = 160"
proof -
  have "(case apply_accepted_bid lot_snapshot 7 (PyInt 150) (Aware 5) of Inr a' \<Rightarrow> True | _ \<Rightarrow> False)"
    by code_simp
  then obtain a' where a': "apply_accepted_bid lot_snapshot 7 (PyInt 150) (Aware 5) = Inr a'"
    by (auto split: sum.splits)
  from apply_accepted_bid_valid [OF lot_snapshot_valid this] a' show ?thesis
    by (auto simp: required_amount_def lot_snapshot_def lot_def)
qed

subsection \<open>Rows\<close>

text \<open>
  The schema is at least as strict as the dataclasses: a row that satisfies the CHECK
  constraints, with a title stored stripped, is read back without an exception and with every
  column unchanged; so is every bid row.
\<close>

theorem stored_rows_read_back:
  assumes "db_wf d" "titles_clean d"
  shows "(\<forall>a r. auctions d a = Some r \<longrightarrow>
      auction_from_row r = Inr (snapshot_of r) \<and> valid_snapshot (snapshot_of r)) \<and>
    (\<forall>b \<in> set (bids d). bid_from_row b = Inr (bid_of b))"
proof -
  have "auction_from_row r = Inr (snapshot_of r) \<and> valid_snapshot (snapshot_of r)"
    if "auctions d a = Some r" for a r
  proof -
    have "valid_snapshot (snapshot_of r)"
      using that assms by (auto simp: titles_clean_def intro: snapshot_of_valid dest: db_wfD)
    then show ?thesis by (simp add: auction_from_row_eq)
  qed
  moreover have "bid_from_row b = Inr (bid_of b)" if "b \<in> set (bids d)" for b
    using that assms(1) by (auto intro: bid_from_row_eq dest: db_wf_bidD)
  ultimately show ?thesis by blast
qed

theorem stored_rows_read_back_witness:
  "auction_from_row lot = Inr (snapshot_of lot)"
  using stored_rows_read_back [OF lot_db_wf lot_db_titles] by (simp add: lot_db_def)

text \<open>
  C19. The WHERE clause of the optimistic UPDATE decides as the Python rule does: on a row
  with the observed version, it is satisfied exactly when \<open>evaluate_bid\<close> accepts the amount at
  that time, for every row whose next price is in range.
\<close>

theorem sql_guard_is_rule:
  assumes "auctions_check r" "py_strip (ra_title r) = ra_title r" "money_ok amount"
    and "required_amount (snapshot_of r) \<le> MAX_MONEY_CENTS"
  shows "update_guard r amount v now \<longleftrightarrow>
    ra_version r = v \<and>
    (\<exists>ev. evaluate_bid (snapshot_of r) (PyInt amount) (Aware now) = Inr ev \<and> ev_accepted ev)"
  using evaluate_bid_eq [OF snapshot_of_valid [OF assms(1,2)] assms(3), of now] assms(4)
  by (auto simp: update_guard_def sql_required_eq rejection_of_None in_window_def)

theorem sql_guard_is_rule_witness:
  "update_guard lot 150 0 5"
proof -
  have c: "auctions_check lot" "py_strip (ra_title lot) = ra_title lot" "money_ok 150"
    "required_amount (snapshot_of lot) \<le> MAX_MONEY_CENTS"
    by code_simp+
  have "\<exists>ev. evaluate_bid (snapshot_of lot) (PyInt 150) (Aware 5) = Inr ev \<and> ev_accepted ev"
    using evaluate_bid_eq [OF snapshot_of_valid [OF c(1,2)] c(3), of 5] c(4)
    by (simp add: rejection_of_None in_window_def) (simp add: lot_def required_amount_def)
  with sql_guard_is_rule [OF c, of 0 5] show ?thesis by (simp add: lot_def)
qed

text \<open>
  The sum in the guard cannot overflow \<open>bigint\<close>: for every stored auction the next price
  fits the column type, so the comparison is the one over the integers.
\<close>

theorem guard_sum_in_range:
  assumes "db_wf d" "auctions d a = Some r"
  shows "bigint_ok (sql_required r) \<and> 0 < sql_required r"
proof -
  have c: "auctions_check r" using db_wfD [OF assms] by simp
  from required_amount_bigint [OF c] have "bigint_ok (sql_required r)" by (simp add: sql_required_eq)
  moreover from c have "0 < sql_required r"
    by (auto simp: sql_required_def auctions_check_defs split: option.splits)
  ultimately show ?thesis by simp
qed

theorem guard_sum_in_range_witness: "bigint_ok (sql_required lot) \<and> 0 < sql_required lot"
  using guard_sum_in_range [OF lot_db_wf, of 1 lot] by (simp add: lot_db_def)

end
