(* ===== verification/Api_Properties.thy ===== *)
theory Api_Properties
  imports Api Guarantees Data_Properties
begin

section \<open>Properties of the HTTP interface\<close>

subsection \<open>Placing a bid\<close>


text \<open>One request, run to the end by the pessimistic strategy.\<close>

definition lot_request :: place_bid_request where
  "lot_request = \<lparr>br_request_id = 11, br_bidder_id = ''ann'', br_amount_cents = 200\<rparr>"

definition routed :: "(service_state \<times> (nat \<Rightarrow> (http_response \<times> state_event option) prog)) option" where
  "routed = play service_step (turns 0 5 9)
     (two_connections, \<lambda>p. place_bid_route pessimistic_place_bid 1 lot_request)"

definition route_summary ::
    "(service_state \<times> (nat \<Rightarrow> (http_response \<times> state_event option) prog)) option \<Rightarrow> (nat \<times> int) option" where
  "route_summary x =
     (case x of
        None \<Rightarrow> None
      | Some (s, ps) \<Rightarrow>
          (case answer (ps 0) of
             Some (Inr (response, Some ev)) \<Rightarrow> Some (response_status response, ev_version ev)
           | _ \<Rightarrow> None))"

lemma routed_summary: "route_summary routed = Some (200, 1)"
  by code_simp


text \<open>
  C21. Every outcome has an answer: a consistent outcome is turned into a response without an
  assertion failing, 200 exactly when the bid was accepted or replayed, and otherwise the
  reason with 404 for a missing auction, 503 for exhausted retries and 409 for the rest; an
  event goes with acceptance only.
\<close>

theorem outcome_answers:
  assumes "valid_outcome x"
  shows "\<exists>response event. placement_answer auction_id x = Inr (response, event) \<and>
    (event \<noteq> None \<longleftrightarrow> out_status x = ACCEPTED) \<and>
    (if out_status x = REJECTED
     then (\<exists>reason. out_rejection_reason x = Some reason \<and>
       response = Error_Response
         (case reason of AUCTION_NOT_FOUND \<Rightarrow> 404 | CONFLICT_RETRY_EXHAUSTED \<Rightarrow> 503 | _ \<Rightarrow> 409)
         (rejection_value reason) (out_minimum_acceptable_cents x) None)
     else (\<exists>r. response = Placement_Response r \<and> pr_status r = out_status x \<and>
       Some (pr_bid r) = map_option bid_response_of (out_bid x) \<and>
       pr_attempts r = out_attempts x \<and> pr_conflicts r = out_conflicts x))"
proof (cases "out_status x = REJECTED")
  case True
  with assms obtain reason where "out_rejection_reason x = Some reason"
    by (auto simp: valid_outcome_def)
  with True show ?thesis
    by (cases reason) (simp_all add: placement_answer_def rejection_status_def)
next
  case False
  with assms obtain b where "out_bid x = Some b" by (auto simp: valid_outcome_def)
  with False show ?thesis
    by (cases "out_status x") (simp_all add: placement_answer_def placement_response_of_def)
qed

theorem outcome_answers_witness:
  "\<exists>x response. make_bid_outcome REJECTED None (Some CONFLICT_RETRY_EXHAUSTED) None 5 5 = Inr x \<and>
    placement_answer 1 x = Inr (response, None) \<and> response_status response = 503"
proof -
  obtain x where x: "make_bid_outcome REJECTED None (Some CONFLICT_RETRY_EXHAUSTED) None 5 5 = Inr x"
    by (simp add: make_bid_outcome_def)
  then have v: "valid_outcome x" unfolding make_bid_outcome_eq_Inr by (rule conjunct1)
  have "x = \<lparr>out_status = REJECTED, out_bid = None,
      out_rejection_reason = Some CONFLICT_RETRY_EXHAUSTED, out_minimum_acceptable_cents = None,
      out_attempts = 5, out_conflicts = 5\<rparr>"
    using x by (simp add: make_bid_outcome_eq_Inr)
  with x outcome_answers [OF v, of 1] show ?thesis by auto
qed

lemma run_handled:
  "fst (run p ch n d l) = Some (Inl e) \<Longrightarrow> h e = Ret y \<Longrightarrow> g y = Ret z \<Longrightarrow>
   run (prog_bind (prog_try (prog_bind p (\<lambda>x. Ret (f x))) h) g) ch n d l =
     (Some (Inr z), snd (run p ch n d l))"
  by (induction p arbitrary: n d l) (auto split: option.splits)

lemma placement_answer_raises: "placement_answer a x = Inl e \<Longrightarrow> e \<noteq> StrategyBusyError m"
  by (auto simp: placement_answer_def placement_response_of_def split: if_splits option.splits)

lemma make_bid_command_raises: "make_bid_command q a b (PyInt v) = Inl e \<Longrightarrow> e \<noteq> StrategyBusyError m"
  by (auto simp: make_bid_command_def Let_def require_money.simps split: if_splits)

lemma place_bid_route_raises:
  "results (\<lambda>ans. True) (\<lambda>e. \<forall>m. e \<noteq> StrategyBusyError m) (place_bid_route strategy auction_id body)"
proof -
  have h: "results (\<lambda>x. True) (\<lambda>e. \<forall>m. e \<noteq> StrategyBusyError m)
      (case e of StrategyBusyError message \<Rightarrow> Ret (Inl busy_response) | _ \<Rightarrow> Raise e)" for e
    by (cases e) auto
  have s: "results (\<lambda>x. True) (\<lambda>e. \<forall>m. e \<noteq> StrategyBusyError m)
      (prog_try q (\<lambda>e. case e of StrategyBusyError message \<Rightarrow> Ret (Inl busy_response) | _ \<Rightarrow> Raise e))"
    for q
    unfolding results_try by (rule results_mono [OF results_True]) (use h in auto)
  show ?thesis
    unfolding place_bid_route_def
    by (rule results_bindI [where R = "\<lambda>x. True"], use make_bid_command_raises in force,
        rule results_bindI [OF s])
      (use placement_answer_raises in \<open>auto split: sum.split\<close>)
qed

text \<open>
  C22. A busy database is not an error of the server: with any strategy \<open>StrategyBusyError\<close>
  never leaves the handler, and whenever the strategy raises it the handler answers 503 with a
  \<open>Retry-After\<close> of one second and broadcasts nothing.
\<close>

theorem busy_is_answered:
  assumes "valid_command cmd"
    and "body = \<lparr>br_request_id = cmd_request_id cmd, br_bidder_id = cmd_bidder_id cmd,
      br_amount_cents = cmd_amount_cents cmd\<rparr>"
    and "fst (run (strategy cmd) ch n d l) = Some (Inl (StrategyBusyError m))"
  shows "run (place_bid_route strategy (cmd_auction_id cmd) body) ch n d l =
      (Some (Inr (Error_Response 503 ''database_busy'' None (Some 1), None)),
       snd (run (strategy cmd) ch n d l)) \<and>
    results (\<lambda>ans. True) (\<lambda>e. \<forall>m. e \<noteq> StrategyBusyError m)
      (place_bid_route strategy (cmd_auction_id cmd) body)"
proof -
  have c: "make_bid_command (cmd_request_id cmd) (cmd_auction_id cmd) (cmd_bidder_id cmd)
      (PyInt (cmd_amount_cents cmd)) = Inr cmd"
    using assms(1) by (simp add: make_bid_command_eq_Inr)
  have "run (place_bid_route strategy (cmd_auction_id cmd) body) ch n d l =
      (Some (Inr (busy_response, None)), snd (run (strategy cmd) ch n d l))"
    unfolding place_bid_route_def service_place_bid_def
    by (simp add: assms(2) c)
      (rule run_handled [OF assms(3), where y = "Inl busy_response" and z = "(busy_response, None)"], simp_all)
  with place_bid_route_raises show ?thesis by (simp add: busy_response_def)
qed

theorem busy_is_answered_witness:
  "fst (run (place_bid_route pessimistic_place_bid 1 lot_request)
      (\<lambda>n. if n = 2 then Fault LockNotAvailable else Go 5 100) 0 lot_db (idle 0)) =
    Some (Inr (Error_Response 503 ''database_busy'' None (Some 1), None))"
proof -
  have v: "valid_command (bid_on_lot 11 200)" by code_simp
  have r: "fst (run (pessimistic_place_bid (bid_on_lot 11 200))
      (\<lambda>n. if n = 2 then Fault LockNotAvailable else Go 5 100) 0 lot_db (idle 0)) =
    Some (Inl (StrategyBusyError ''database wait timeout expired''))"
    by code_simp
  have b: "lot_request = \<lparr>br_request_id = cmd_request_id (bid_on_lot 11 200),
      br_bidder_id = cmd_bidder_id (bid_on_lot 11 200),
      br_amount_cents = cmd_amount_cents (bid_on_lot 11 200)\<rparr>"
    by code_simp
  have a: "cmd_auction_id (bid_on_lot 11 200) = 1" by code_simp
  from busy_is_answered [where strategy = pessimistic_place_bid, OF v b r] show ?thesis
    unfolding a by simp
qed

subsection \<open>Validation\<close>

text \<open>
  What the schema of a bid accepts, the domain accepts: a validated body always makes a
  \<open>BidCommand\<close>, already stripped, for the auction of the path.
\<close>

theorem validated_bid_makes_command:
  assumes "parse_place_bid request bidder amount = Inr body"
  shows "\<exists>cmd. make_bid_command (br_request_id body) auction_id (br_bidder_id body)
      (PyInt (br_amount_cents body)) = Inr cmd \<and> valid_command cmd \<and>
    cmd_bidder_id cmd = py_strip (cmd_bidder_id cmd) \<and> cmd_auction_id cmd = auction_id \<and>
    cmd_request_id cmd = request"
  using assms by (rule parse_place_bid_command)

theorem validated_bid_makes_command_witness:
  "\<exists>body cmd. parse_place_bid 11 (PyText '' ann '') (PyInt 200) = Inr body \<and>
    make_bid_command 11 1 ''ann'' (PyInt 200) = Inr cmd \<and> valid_command cmd"
proof -
  have p: "parse_place_bid 11 (PyText '' ann '') (PyInt 200) = Inr lot_request" by code_simp
  from validated_bid_makes_command [OF p, of 1] p show ?thesis
    by (auto simp: lot_request_def)
qed

lemma run_alone_then:
  assumes "run_alone p now u d = (Some (Inr x), d')" "\<And>x. f x = Ret (g x)"
  shows "run_alone (prog_bind p f) now u d = (Some (Inr (g x)), d')"
proof -
  have "run (prog_bind p f) ch n d l = (Some (Inr (g x)), snd (run p ch n d l))"
    if "fst (run p ch n d l) = Some (Inr x)" for ch n l
    using that assms(2) by (induction p arbitrary: n d l) (auto split: option.splits)
  with assms(1) show ?thesis
    by (auto simp: run_alone_def split: prod.splits)
qed

lemma parse_create_auction_terms:
  assumes "parse_create_auction (PyText t) starting increment starts ends = Inr body"
  shows "auction_terms_ok (cr_title body) (cr_starting_price_cents body)
      (cr_minimum_increment_cents body) (cr_starts_at body) (cr_ends_at body)"
    and "cr_title body = py_strip t" "starting = PyInt (cr_starting_price_cents body)"
    and "increment = PyInt (cr_minimum_increment_cents body)"
    and "starts = Aware (cr_starts_at body)" "ends = Aware (cr_ends_at body)"
  using assms length_strip [of t]
  by (auto simp: parse_create_auction_def validate_values_def Let_def auction_terms_ok_def split: if_splits)

text \<open>
  From creation to retrieval over HTTP: a validated body is stored and answered with 201,
  and a GET of the new identifier is then answered with 200 and the same resource, under the
  stripped title, with the terms of the request, without a price, at version 0.
\<close>

theorem created_auction_is_served:
  assumes "parse_create_auction (PyText t) starting increment starts ends = Inr body"
    and "db_wf d" "titles_clean d" "auctions d u = None"
  shows "\<exists>a d'. run_alone (create_auction_route body) now u d = (Some (Inr (Auction_Response 201 a)), d') \<and>
    run_alone (get_auction_route u) now' u' d' = (Some (Inr (Auction_Response 200 a)), d') \<and>
    rs_id a = u \<and> rs_title a = py_strip t \<and> starting = PyInt (rs_starting_price_cents a) \<and>
    increment = PyInt (rs_minimum_increment_cents a) \<and> starts = Aware (rs_starts_at a) \<and>
    ends = Aware (rs_ends_at a) \<and> rs_current_price_cents a = None \<and> rs_winning_bid_id a = None \<and> rs_version a = 0"
proof -
  note b = parse_create_auction_terms [OF assms(1)]
  let ?r = "new_auction (cr_title body) (cr_starting_price_cents body)
    (cr_minimum_increment_cents body) (cr_starts_at body) (cr_ends_at body) now u"
  let ?d = "d\<lparr>auctions := (auctions d)(u \<mapsto> ?r)\<rparr>"
  let ?a = "auction_response_of (snapshot_of ?r)"
  note c = create_alone [OF b(1) assms(4), of now]
  have created: "run_alone (create_auction_route body) now u d = (Some (Inr (Auction_Response 201 ?a)), ?d)"
    unfolding create_auction_route_def by (rule run_alone_then [OF c]) simp
  have "db_wf ?d" by (rule run_alone_wf [OF assms(2) c])
  moreover have "titles_clean ?d" using assms(3) by (simp add: titles_clean_def new_auction_def)
  ultimately have "run_alone (service_get_auction u) now' u' ?d = (Some (Inr (Some (snapshot_of ?r))), ?d)"
    by (simp add: get_alone)
  from run_alone_then [OF this, of _ "\<lambda>found. case found of None \<Rightarrow> not_found_response
      | Some auction \<Rightarrow> Auction_Response 200 (auction_response_of auction)"]
  have served: "run_alone (get_auction_route u) now' u' ?d = (Some (Inr (Auction_Response 200 ?a)), ?d)"
    unfolding get_auction_route_def by (simp split: option.split)
  have "rs_id ?a = u" "rs_title ?a = py_strip t" "starting = PyInt (rs_starting_price_cents ?a)"
    "increment = PyInt (rs_minimum_increment_cents ?a)" "starts = Aware (rs_starts_at ?a)"
    "ends = Aware (rs_ends_at ?a)" "rs_current_price_cents ?a = None" "rs_winning_bid_id ?a = None"
    "rs_version ?a = 0"
    using b(2-) by (simp_all add: auction_response_of_def new_auction_def)
  with created served show ?thesis by blast
qed

theorem created_auction_is_served_witness:
  "\<exists>body a d'. parse_create_auction (PyText '' vase '') (PyInt 100) (PyInt 10) (Aware 0) (Aware 50) =
      Inr body \<and>
    run_alone (create_auction_route body) 3 9 empty_db = (Some (Inr (Auction_Response 201 a)), d') \<and>
    run_alone (get_auction_route 9) 4 10 d' = (Some (Inr (Auction_Response 200 a)), d')"
proof -
  have "parse_create_auction (PyText '' vase '') (PyInt 100) (PyInt 10) (Aware 0) (Aware 50) =
      Inr \<lparr>cr_title = ''vase'', cr_starting_price_cents = 100, cr_minimum_increment_cents = 10,
        cr_starts_at = 0, cr_ends_at = 50\<rparr>"
    by code_simp
  moreover have "auctions empty_db 9 = None" by (simp add: empty_db_def)
  ultimately show ?thesis
    using created_auction_is_served [OF _ empty_db_wf empty_db_titles] by metis
qed

end
