(* ===== verification/Websocket_Properties.thy ===== *)
theory Websocket_Properties
  imports Server Api_Properties
begin

section \<open>Properties of the notifications\<close>

subsection \<open>What is announced\<close>

text \<open>Every bid goes through one of the strategies of the code.\<close>

definition code_requests :: "(nat \<Rightarrow> request) \<Rightarrow> bool" where
  "code_requests reqs \<longleftrightarrow>
     (\<forall>p strat a body. reqs p = Bid_Request strat a body \<longrightarrow> strat \<in> code_strategies)"

lemma code_requests_strategy:
  assumes "code_requests reqs"
  shows "\<exists>strategy C. bid_strategy strategy C \<and> bids_with strategy (reqs p)"
proof (cases "\<exists>strat a body. reqs p = Bid_Request strat a body")
  case True
  then obtain strat a body where r: "reqs p = Bid_Request strat a body" by blast
  with assms have "strat \<in> code_strategies" unfolding code_requests_def by blast
  then obtain C where "bid_strategy strat C" using code_strategy by blast
  with r show ?thesis by (auto simp: bids_with_def)
next
  case False
  with unsafe.bid_strategy_axioms show ?thesis unfolding bids_with_def by blast
qed

lemma answered_event_committed:
  assumes "read_committed_service store call step" "at_start store call s0"
    and "code_requests reqs"
    and "served step reqs s0 s ps h" "origin reqs (\<lambda>p. answer (ps p)) p ev"
  shows "\<exists>b \<in> set (bids (store s)). log_bids (call s p) = [b] \<and>
    rb_auction_id b = request_auction (reqs p) \<and> ev_auction_id ev = rb_auction_id b \<and>
    ev_version ev = rb_auction_version b \<and> ev_bid ev = bid_response_of (bid_of b)"
proof -
  obtain response where v: "ps p = Ret (Bid_Answer response (Some ev))"
    using assms(5) by (auto simp: origin_def answer_Some)
  from served_answer [OF assms(1,2) code_requests_strategy [OF assms(3)] assms(4) v]
  show ?thesis by (auto simp: request_ok_def route_ok_def)
qed

lemma sent_events_stored:
  assumes "read_committed_service store call step" "at_start store call s0"
    and "code_requests reqs"
    and "served step reqs s0 s ps h" "(w, Event ev) \<in> set (hb_sent h)"
  shows "reqs w = Watch_Request (ev_auction_id ev) \<and>
    (\<exists>b \<in> set (bids (store s)). rb_auction_id b = ev_auction_id ev \<and>
       ev_version ev = rb_auction_version b \<and> ev_bid ev = bid_response_of (bid_of b))"
proof -
  have "sent_ok reqs (\<lambda>p. answer (ps p)) h"
    using served_hub_ok [OF assms(4)] by (simp add: hub_ok_def)
  with assms(5) obtain p where p: "origin reqs (\<lambda>p. answer (ps p)) p ev"
    "reqs w = Watch_Request (request_auction (reqs p))"
    by (auto simp: sent_ok_def)
  from answered_event_committed [OF assms(1-4) p(1)] p(2) show ?thesis by auto
qed

text \<open>
  C25. No phantom notifications: under any interleaving of requests, statements, turns of the
  event loop and failures of sockets, an event that a watcher was sent describes a bid that is
  stored in the database, for the auction this watcher asked for, with the bid's version.
\<close>

theorem events_are_committed:
  assumes "read_committed_service store call step" "at_start store call s0"
    and "code_requests reqs"
    and "served step reqs s0 s ps h" "(w, Event ev) \<in> set (hb_sent h)"
  shows "reqs w = Watch_Request (ev_auction_id ev) \<and>
    (\<exists>b \<in> set (bids (store s)). rb_auction_id b = ev_auction_id ev \<and>
       ev_version ev = rb_auction_version b \<and> ev_bid ev = bid_response_of (bid_of b))"
  by (rule sent_events_stored [OF assms])

text \<open>One bid on connection 0 and one watcher on connection 1, in four schedules.\<close>

definition bid_and_watch :: "nat \<Rightarrow> request" where
  "bid_and_watch p = (if p = 0 then Bid_Request pessimistic_place_bid 1 lot_request else Watch_Request 1)"

definition bidding :: "move list" where
  "bidding = map (\<lambda>(p, c). Statement p c) (turns 0 5 9)"

definition looking_up :: "move list" where
  "looking_up = map (\<lambda>(p, c). Statement p c) (turns 1 4 3)"

definition watched :: "move list \<Rightarrow> (service_state \<times> (nat \<Rightarrow> request_result prog) \<times> hub) option" where
  "watched ms =
     serve service_step bid_and_watch ms
       (two_connections, \<lambda>p. request_prog (bid_and_watch p), idle_hub)"

text \<open>Who was sent what: the kind of the message and its version.\<close>

fun message_summary :: "ws_message \<Rightarrow> string \<times> int" where
  "message_summary (Snapshot a) = (''snapshot'', rs_version a)"
| "message_summary (Event ev) = (''event'', ev_version ev)"
| "message_summary (Close code) = (''close'', int code)"

definition hub_summary ::
    "(service_state \<times> (nat \<Rightarrow> request_result prog) \<times> hub) option \<Rightarrow>
     ((nat \<times> string \<times> int) list \<times> (uuid \<times> bool) list \<times> bool \<times> bool \<times> int list) option" where
  "hub_summary x =
     map_option (\<lambda>(s, ps, h).
       (map (\<lambda>(w, m). (w, message_summary m)) (hb_sent h),
        [(1, hb_connections h 1 \<noteq> None)],
        hb_phase h 1 = Watching,
        (case hb_phase h 0 of Announced ev ws \<Rightarrow> True | _ \<Rightarrow> False),
        map rb_auction_version (bids (sv_store s)))) x"

lemma watched_served:
  "watched ms = Some (s, ps, h) \<Longrightarrow> served service_step bid_and_watch two_connections s ps h"
  unfolding watched_def by (erule serve_served) (rule served_start)

lemma bid_and_watch_requests: "code_requests bid_and_watch"
  by (auto simp: code_requests_def bid_and_watch_def code_strategies_def)

lemma summary_reached:
  assumes "hub_summary (watched ms) = Some (sent, [(a, reg)], listening, done, vs)"
  obtains s ps h where "watched ms = Some (s, ps, h)"
    "served service_step bid_and_watch two_connections s ps h"
    "map (\<lambda>(w, m). (w, message_summary m)) (hb_sent h) = sent"
    "reg \<longleftrightarrow> hb_connections h 1 \<noteq> None" "listening \<longleftrightarrow> hb_phase h 1 = Watching"
    "done \<longleftrightarrow> (\<exists>ev ws. hb_phase h 0 = Announced ev ws)" "map rb_auction_version (bids (sv_store s)) = vs"
proof -
  from assms obtain s ps h where w: "watched ms = Some (s, ps, h)" by (auto simp: hub_summary_def)
  from that [OF w watched_served [OF w]] assms w show thesis
    by (auto simp: hub_summary_def split: phase.splits)
qed

lemma summary_event:
  "map (\<lambda>(w, m). (w, message_summary m)) ms = xs \<Longrightarrow> (w, ''event'', v) \<in> set xs \<Longrightarrow>
   \<exists>ev. (w, Event ev) \<in> set ms \<and> ev_version ev = v"
proof -
  assume "map (\<lambda>(w, m). (w, message_summary m)) ms = xs" "(w, ''event'', v) \<in> set xs"
  then obtain m where "(w, m) \<in> set ms" "message_summary m = (''event'', v)" by force
  then show ?thesis by (cases m) auto
qed

definition heard :: "move list" where
  "heard = looking_up @ [Turn 1 True 0, Turn 1 True 0] @ bidding @
     [Turn 0 True 0, Turn 0 True 1, Turn 0 True 0]"

lemma heard_summary:
  "hub_summary (watched heard) =
     Some ([(1, ''snapshot'', 0), (1, ''event'', 1)], [(1, True)], True, True, [1])"
  by code_simp

theorem events_are_committed_witness:
  "\<exists>s ps h ev. served service_step bid_and_watch two_connections s ps h \<and>
    (1, Event ev) \<in> set (hb_sent h) \<and> ev_version ev = 1 \<and>
    (\<exists>b \<in> set (bids (sv_store s)). rb_auction_id b = 1 \<and> ev_bid ev = bid_response_of (bid_of b))"
proof -
  obtain s ps h where h: "served service_step bid_and_watch two_connections s ps h"
    "map (\<lambda>(w, m). (w, message_summary m)) (hb_sent h) = [(1, ''snapshot'', 0), (1, ''event'', 1)]"
    using summary_reached [OF heard_summary] by metis
  obtain ev where ev: "(1, Event ev) \<in> set (hb_sent h)" "ev_version ev = 1"
    using summary_event [OF h(2), of 1 1] by auto
  note e = events_are_committed [OF service_axioms two_connections_start bid_and_watch_requests h(1) ev(1)]
  then have "ev_auction_id ev = 1" by (simp add: bid_and_watch_def)
  with e h(1) ev show ?thesis by metis
qed

subsection \<open>The manager's dictionary\<close>

text \<open>
  C26. The manager leaks nothing: at every moment its dictionary has no empty entry, each
  auction's set is finite and holds only sockets of watchers of that auction that have
  connected and have not finished, so a request that is over is registered nowhere.
\<close>

theorem registry_is_exact:
  assumes "served step reqs s0 s ps h"
  shows "(\<forall>a. hb_connections h a \<noteq> Some {}) \<and>
    (\<forall>a ws. hb_connections h a = Some ws \<longrightarrow> finite ws \<and>
      (\<forall>w \<in> ws. reqs w = Watch_Request a \<and>
        (hb_phase h w = Watching \<or> hb_phase h w = Leaving \<or> (\<exists>x. hb_phase h w = Greeting x))))"
proof -
  have ok: "sockets_ok reqs h" using served_hub_ok [OF assms] by (simp add: hub_ok_def)
  have live: "registered_phase ph \<Longrightarrow> ph = Watching \<or> ph = Leaving \<or> (\<exists>x. ph = Greeting x)" for ph
    by (cases ph) auto
  have "finite ws \<and> (\<forall>w \<in> ws. reqs w = Watch_Request a \<and> registered_phase (hb_phase h w))"
    if "hb_connections h a = Some ws" for a ws
    using ok that unfolding sockets_ok_def listeners_def
    by (metis (mono_tags, lifting) option.simps(5))
  with ok live show ?thesis unfolding sockets_ok_def no_empty_entry_def by blast
qed

theorem registry_is_exact_witness:
  "\<exists>s ps h ws. served service_step bid_and_watch two_connections s ps h \<and>
    hb_connections h 1 = Some ws \<and> ws \<noteq> {} \<and> (\<forall>w \<in> ws. bid_and_watch w = Watch_Request 1)"
proof -
  obtain s ps h where h: "served service_step bid_and_watch two_connections s ps h"
    "hb_connections h 1 \<noteq> None"
    using summary_reached [OF heard_summary] by metis
  then obtain ws where "hb_connections h 1 = Some ws" by auto
  with registry_is_exact [OF h(1)] h(1) show ?thesis by metis
qed

subsection \<open>A broadcast\<close>

text \<open>
  C27. A broadcast always ends, whatever its sockets do: from any moment at which it sends, it
  takes at most two turns for every socket of its snapshot and one more, in any schedule;
  until it is over one of its turns is possible; and once it is over every socket of the
  snapshot was sent the event or is no longer registered.
\<close>

theorem broadcast_ends:
  assumes "served step reqs s0 s ps h" "reqs p = Bid_Request strat a body"
    and "hb_phase h p = Sending ev ws ws {}"
    and "serve step reqs ms (s, ps, h) = Some (s', ps', h')"
  shows "turns_of p ms \<le> Suc (2 * card ws) \<and>
    (case hb_phase h' p of
       Announced ev' ws' \<Rightarrow> ev' = ev \<and> ws' = ws \<and>
         (\<forall>w \<in> ws. (w, Event ev) \<in> set (hb_sent h') \<or> w \<notin> listeners (hb_connections h') a)
     | _ \<Rightarrow> \<exists>ok w h''. hub_turn (reqs p) (answer (ps' p)) p ok w h' = Some h'')"
proof -
  have w: "turns_of p ms + work (hb_phase h' p) \<le> work (hb_phase h p)"
    "broadcast_of (hb_phase h' p) = Some (ev, ws)"
    using serve_work [OF assms(1,4) _ assms(2), of "(ev, ws)"] assms(3) by auto
  have "phase_ok reqs (\<lambda>p. answer (ps' p)) h' p (hb_phase h' p)"
    using served_hub_ok [OF serve_served [OF assms(4,1)]] by (simp add: hub_ok_def)
  with w assms(2,3) sending_goes_on [of h' p _ _ _ _ reqs strat a body "answer (ps' p)"]
  show ?thesis
    by (cases "hb_phase h' p") (auto simp: phase_ok_def reached_def)
qed

definition begun :: "move list" where
  "begun = looking_up @ [Turn 1 True 0, Turn 1 True 0] @ bidding @ [Turn 0 True 0]"

definition sending_to :: "phase \<Rightarrow> nat list option" where
  "sending_to ph =
     (case ph of
        Sending ev ws pending failed \<Rightarrow>
          if ws = {1} \<and> pending = {1} \<and> failed = {} then Some [1] else None
      | _ \<Rightarrow> None)"

lemma begun_sending:
  "(case watched begun of
      Some (s, ps, h) \<Rightarrow> (sending_to (hb_phase h 0),
        hub_summary (serve service_step bid_and_watch [Turn 0 False 1, Turn 0 True 1, Turn 0 True 0] (s, ps, h)))
    | None \<Rightarrow> (None, None)) =
   (Some [1], Some ([(1, ''snapshot'', 0)], [(1, False)], True, True, [1]))"
  by code_simp

theorem broadcast_ends_witness:
  "\<exists>s ps h s' ps' h' ev. served service_step bid_and_watch two_connections s ps h \<and>
    serve service_step bid_and_watch [Turn 0 False 1, Turn 0 True 1, Turn 0 True 0] (s, ps, h) =
      Some (s', ps', h') \<and>
    hb_phase h' 0 = Announced ev {1} \<and> 1 \<notin> listeners (hb_connections h') 1"
proof -
  obtain s ps h where w: "watched begun = Some (s, ps, h)"
    using begun_sending by (cases "watched begun") auto
  with begun_sending obtain s' ps' h' where m: "sending_to (hb_phase h 0) = Some [1]"
    "serve service_step bid_and_watch [Turn 0 False 1, Turn 0 True 1, Turn 0 True 0] (s, ps, h) =
      Some (s', ps', h')"
    "hub_summary (Some (s', ps', h')) = Some ([(1, ''snapshot'', 0)], [(1, False)], True, True, [1])"
    by (auto simp: hub_summary_def)
  obtain ev where ev: "hb_phase h 0 = Sending ev {1} {1} {}"
    using m(1) by (auto simp: sending_to_def split: phase.splits if_splits)
  have "bid_and_watch 0 = Bid_Request pessimistic_place_bid 1 lot_request"
    by (simp add: bid_and_watch_def)
  note e = broadcast_ends [OF watched_served [OF w] this ev m(2)]
  obtain ev' ws' where "hb_phase h' 0 = Announced ev' ws'"
    using m(3) by (auto simp: hub_summary_def split: phase.splits)
  with e have "hb_phase h' 0 = Announced ev {1}" by simp
  moreover have "1 \<notin> listeners (hb_connections h') 1"
    using m(3) by (simp add: hub_summary_def listeners_def)
  ultimately show ?thesis using watched_served [OF w] m(2) by blast
qed

subsection \<open>What a watcher may miss\<close>

definition overtaken :: "move list" where
  "overtaken = looking_up @ [Turn 1 True 0] @ bidding @
     [Turn 0 True 0, Turn 0 True 1, Turn 0 True 0, Turn 1 True 0]"

definition unheard_of :: "move list" where
  "unheard_of = looking_up @ bidding @ [Turn 0 True 0, Turn 1 True 0, Turn 1 True 0]"

definition forgotten :: "move list" where
  "forgotten = begun @ [Turn 0 False 1, Turn 0 True 1, Turn 0 True 0]"


end
