(* ===== verification/Py_Numbers.thy ===== *)
theory Py_Numbers
  imports Bid_Prelude
begin

section \<open>Numbers as text\<close>

text \<open>
  The built-in functions \<open>int\<close>, \<open>float\<close>, \<open>str\<close> and \<open>str.lower\<close> of Python on the texts the
  configuration and the migrations hand to them: \<open>int\<close> and \<open>float\<close> strip white space, allow
  an underscore between two digits, and raise \<open>ValueError\<close> (here \<open>None\<close>) on anything else;
  \<open>int\<close> refuses more than 4300 digits; \<open>float\<close> rounds to the nearest double, ties to even,
  and overflows to infinity. A finite double is \<open>m * 2 ^ e\<close>; the two zeros are one.
\<close>

definition is_digit :: "char \<Rightarrow> bool" where
  "is_digit c \<longleftrightarrow> 48 \<le> (of_char c :: nat) \<and> (of_char c :: nat) \<le> 57"

definition digit_value :: "char \<Rightarrow> int" where
  "digit_value c = int (of_char c) - 48"

definition digit_char :: "nat \<Rightarrow> char" where
  "digit_char n = char_of (48 + n)"

definition numeric_space :: "char \<Rightarrow> bool" where
  "numeric_space c = (let n = (of_char c :: nat) in 9 \<le> n \<and> n \<le> 13 \<or> n = 32 \<or> n = 133 \<or> n = 160)"

definition digits_value :: "string \<Rightarrow> int" where
  "digits_value s = foldl (\<lambda>v c. 10 * v + digit_value c) 0 s"

text \<open>Without its underscores, each of which must stand between two digits.\<close>

fun drop_underscores :: "bool \<Rightarrow> string \<Rightarrow> string option" where
  "drop_underscores after_digit [] = Some []"
| "drop_underscores after_digit (c # cs) =
     (if c = CHR ''_'' then
        (if after_digit \<and> cs \<noteq> [] \<and> is_digit (hd cs) then drop_underscores False cs else None)
      else map_option ((#) c) (drop_underscores (is_digit c) cs))"

fun take_sign :: "string \<Rightarrow> bool \<times> string" where
  "take_sign [] = (False, [])"
| "take_sign (c # cs) =
     (if c = CHR ''-'' then (True, cs) else if c = CHR ''+'' then (False, cs) else (False, c # cs))"

definition numeric_text :: "string \<Rightarrow> (bool \<times> string) option" where
  "numeric_text s = map_option take_sign (drop_underscores False (trim_by numeric_space s))"

definition MAX_STR_DIGITS :: nat where
  "MAX_STR_DIGITS = 4300"

definition py_int :: "string \<Rightarrow> int option" where
  "py_int s =
     (case numeric_text s of
        None \<Rightarrow> None
      | Some (negative, ds) \<Rightarrow>
          if ds = [] \<or> \<not> list_all is_digit ds \<or> MAX_STR_DIGITS < length ds then None
          else Some (if negative then - digits_value ds else digits_value ds))"

subsection \<open>Doubles\<close>

datatype py_float = NaN | Infinite bool | Finite int int

text \<open>
  Comparison: with a number that is not one it is false, infinities are beyond every number,
  and two finite doubles are compared over the smaller of their exponents.
\<close>

instantiation py_float :: "{zero, ord}"
begin

definition zero_py_float :: py_float where
  "zero_py_float = Finite 0 0"

definition finite_le :: "bool \<Rightarrow> int \<Rightarrow> int \<Rightarrow> int \<Rightarrow> int \<Rightarrow> bool" where
  "finite_le strict m e n f =
     (let x = m * 2 ^ nat (e - min e f); y = n * 2 ^ nat (f - min e f) in
      if strict then x < y else x \<le> y)"

fun float_compare :: "bool \<Rightarrow> py_float \<Rightarrow> py_float \<Rightarrow> bool" where
  "float_compare strict NaN y = False"
| "float_compare strict x NaN = False"
| "float_compare strict (Infinite n) (Infinite m) = (if strict then n \<and> \<not> m else n \<or> \<not> m)"
| "float_compare strict (Infinite n) (Finite m e) = n"
| "float_compare strict (Finite m e) (Infinite n) = (\<not> n)"
| "float_compare strict (Finite m e) (Finite n f) = finite_le strict m e n f"

definition less_eq_py_float :: "py_float \<Rightarrow> py_float \<Rightarrow> bool" where
  "less_eq_py_float = float_compare False"

definition less_py_float :: "py_float \<Rightarrow> py_float \<Rightarrow> bool" where
  "less_py_float = float_compare True"

instance ..

end

lemma py_float_le_zero [simp]:
  "\<not> NaN \<le> 0"
  "Infinite n \<le> 0 \<longleftrightarrow> n"
  "Finite m e \<le> 0 \<longleftrightarrow> m \<le> 0"
  by (simp_all add: less_eq_py_float_def zero_py_float_def finite_le_def Let_def mult_le_0_iff)

lemma py_float_zero_less [simp]:
  "\<not> 0 < NaN"
  "0 < Infinite n \<longleftrightarrow> \<not> n"
  "0 < Finite m e \<longleftrightarrow> 0 < m"
  by (simp_all add: less_py_float_def zero_py_float_def finite_le_def Let_def zero_less_mult_iff)

text \<open>Not being at most zero is not being above it: a number that is not one is neither.\<close>

lemma not_le_zero: "\<not> x \<le> 0 \<longleftrightarrow> x = NaN \<or> (0::py_float) < x"
  by (cases x) auto

fun negated :: "py_float \<Rightarrow> py_float" where
  "negated NaN = NaN"
| "negated (Infinite negative) = Infinite (\<not> negative)"
| "negated (Finite m e) = Finite (- m) e"

fun bit_count :: "int \<Rightarrow> int" where
  "bit_count n = (if n \<le> 0 then 0 else 1 + bit_count (n div 2))"

declare bit_count.simps [simp del]

text \<open>\<open>n / d\<close> to the nearest integer, ties to even.\<close>

definition nearest :: "int \<Rightarrow> int \<Rightarrow> int" where
  "nearest n d =
     (let q = n div d; r = n mod d in
      if 2 * r < d \<or> 2 * r = d \<and> q mod 2 = 0 then q else q + 1)"

text \<open>
  The nearest double of \<open>n / d\<close>: 53 bits of precision and exponents from -1074 to 971. The
  quotient of the bit counts is the binary logarithm or one above it.
\<close>

definition nearest_double :: "int \<Rightarrow> int \<Rightarrow> py_float" where
  "nearest_double n d =
     (if n = 0 then Finite 0 0
      else
        let a = bit_count n - bit_count d;
            k = (if n * 2 ^ nat (- a) \<ge> d * 2 ^ nat a then a else a - 1);
            e = max (k - 52) (- 1074);
            m = nearest (n * 2 ^ nat (- e)) (d * 2 ^ nat e) in
        if e > 971 \<or> e = 971 \<and> m \<ge> 2 ^ 53 then Infinite False else Finite m e)"

text \<open>\<open>digits [. digits] [e sign digits]\<close>, with a digit before or after the point.\<close>

definition exponent_of :: "string \<Rightarrow> int option" where
  "exponent_of s =
     (case s of
        [] \<Rightarrow> Some 0
      | c # cs \<Rightarrow>
          let (negative, ds) = take_sign cs in
          if (c = CHR ''e'' \<or> c = CHR ''E'') \<and> ds \<noteq> [] \<and> list_all is_digit ds
          then Some (if negative then - digits_value ds else digits_value ds)
          else None)"

definition decimal_of :: "string \<Rightarrow> py_float option" where
  "decimal_of s =
     (let whole = takeWhile is_digit s; rest = dropWhile is_digit s;
          point = (rest \<noteq> [] \<and> hd rest = CHR ''.'');
          fraction = (if point then takeWhile is_digit (tl rest) else []);
          tail = (if point then dropWhile is_digit (tl rest) else rest) in
      if whole = [] \<and> fraction = [] then None
      else map_option
             (\<lambda>x. let e = x - int (length fraction); v = digits_value (whole @ fraction) in
                   nearest_double (v * 10 ^ nat e) (10 ^ nat (- e)))
             (exponent_of tail))"

definition lower_char :: "char \<Rightarrow> char" where
  "lower_char c =
     (let n = (of_char c :: nat) in
      if 65 \<le> n \<and> n \<le> 90 \<or> 192 \<le> n \<and> n \<le> 222 \<and> n \<noteq> 215 then char_of (n + 32) else c)"

definition py_lower :: "string \<Rightarrow> string" where
  "py_lower s = List.map lower_char s"

definition py_float_of :: "string \<Rightarrow> py_float option" where
  "py_float_of s =
     (case numeric_text s of
        None \<Rightarrow> None
      | Some (negative, t) \<Rightarrow>
          map_option (\<lambda>x. if negative then negated x else x)
            (if py_lower t = ''nan'' then Some NaN
             else if py_lower t = ''inf'' \<or> py_lower t = ''infinity'' then Some (Infinite False)
             else decimal_of t))"

subsection \<open>Printing\<close>

fun py_str_nat :: "nat \<Rightarrow> string" where
  "py_str_nat n =
     (if n < 10 then [digit_char n] else py_str_nat (n div 10) @ [digit_char (n mod 10)])"

declare py_str_nat.simps [simp del]

definition py_str_int :: "int \<Rightarrow> string" where
  "py_str_int i = (if i < 0 then CHR ''-'' # py_str_nat (nat (- i)) else py_str_nat (nat i))"

text \<open>\<open>sep.join(items)\<close>\<close>

fun py_join :: "string \<Rightarrow> string list \<Rightarrow> string" where
  "py_join sep [] = []"
| "py_join sep [s] = s"
| "py_join sep (s # ss) = s @ sep @ py_join sep ss"

lemma digit_char [simp]:
  "n < 10 \<Longrightarrow> is_digit (digit_char n)"
  "n < 10 \<Longrightarrow> digit_value (digit_char n) = int n"
  by (simp_all add: is_digit_def digit_char_def digit_value_def)

lemma digits_value_snoc [simp]: "digits_value (s @ [c]) = 10 * digits_value s + digit_value c"
  by (simp add: digits_value_def)

lemma digits_value_Nil [simp]: "digits_value [] = 0"
  by (simp add: digits_value_def)

lemma py_str_nat_digits: "list_all is_digit (py_str_nat n) \<and> py_str_nat n \<noteq> []"
proof (induction n rule: py_str_nat.induct)
  case (1 n)
  then show ?case using py_str_nat.simps [of n] by (cases "n < 10") simp_all
qed

lemma py_str_nat_value: "digits_value (py_str_nat n) = int n"
proof (induction n rule: py_str_nat.induct)
  case (1 n)
  show ?case
  proof (cases "n < 10")
    case True
    then show ?thesis by (subst py_str_nat.simps) (simp add: digits_value_def)
  next
    case False
    moreover have "10 * int (n div 10) + int (n mod 10) = int n" by presburger
    ultimately show ?thesis by (subst py_str_nat.simps) (simp add: "1.IH")
  qed
qed

lemma digit_cases:
  "is_digit c \<Longrightarrow> c \<noteq> CHR ''_'' \<and> c \<noteq> CHR ''-'' \<and> c \<noteq> CHR ''+'' \<and> \<not> numeric_space c"
  by (auto simp: is_digit_def numeric_space_def)

lemma drop_underscores_digits: "list_all is_digit s \<Longrightarrow> drop_underscores b s = Some s"
  by (induction s arbitrary: b) (auto dest: digit_cases)

lemma take_sign_digits: "list_all is_digit s \<Longrightarrow> take_sign s = (False, s)"
  by (cases s) (auto dest: digit_cases)

lemma drop_underscores_minus:
  "drop_underscores b (CHR ''-'' # s) = map_option ((#) CHR ''-'') (drop_underscores False s)"
  by (simp add: is_digit_def)

text \<open>What \<open>str\<close> prints, \<open>int\<close> reads back.\<close>

lemma py_int_str:
  assumes "length (py_str_nat (nat \<bar>i\<bar>)) \<le> MAX_STR_DIGITS"
  shows "py_int (py_str_int i) = Some i"
proof -
  let ?d = "py_str_nat (nat \<bar>i\<bar>)"
  have d: "list_all is_digit ?d" "?d \<noteq> []" using py_str_nat_digits by auto
  then have ends: "is_digit (hd ?d)" "is_digit (last ?d)" by (auto simp: list_all_iff)
  have minus: "\<not> numeric_space CHR ''-''" by (simp add: numeric_space_def)
  show ?thesis
  proof (cases "i < 0")
    case True
    have "trim_by numeric_space (CHR ''-'' # ?d) = CHR ''-'' # ?d"
      by (rule trim_by_fixed) (use d ends minus in \<open>auto dest: digit_cases\<close>)
    moreover have "drop_underscores False (CHR ''-'' # ?d) = Some (CHR ''-'' # ?d)"
      unfolding drop_underscores_minus drop_underscores_digits [OF d(1)] by simp
    ultimately show ?thesis
      using True d assms by (simp add: py_int_def py_str_int_def numeric_text_def py_str_nat_value)
  next
    case False
    have "trim_by numeric_space ?d = ?d"
      by (rule trim_by_fixed) (use ends in \<open>auto dest: digit_cases\<close>)
    with False d assms show ?thesis
      by (simp add: py_int_def py_str_int_def numeric_text_def py_str_nat_value
          drop_underscores_digits take_sign_digits)
  qed
qed

text \<open>A number below \<open>10 ^ k\<close> has at most \<open>k\<close> digits.\<close>

lemma length_py_str_nat: "0 < k \<Longrightarrow> n < 10 ^ k \<Longrightarrow> length (py_str_nat n) \<le> k"
proof (induction n arbitrary: k rule: py_str_nat.induct)
  case (1 n)
  show ?case
  proof (cases "n < 10")
    case True
    with "1.prems"(1) show ?thesis using py_str_nat.simps [of n] by simp
  next
    case False
    obtain j where j: "k = Suc j" using "1.prems"(1) by (cases k) auto
    with False "1.prems"(2) have k: "k = Suc j" "0 < j" by (cases j; simp)+
    with "1.prems"(2) have "n div 10 < 10 ^ j" by (simp add: less_mult_imp_div_less mult.commute)
    with "1.IH" [OF False, of j] k False show ?thesis using py_str_nat.simps [of n] by simp
  qed
qed

lemma py_int_printed:
  assumes "0 \<le> i" "i < 10 ^ MAX_STR_DIGITS"
  shows "py_int (py_str_int i) = Some i"
proof -
  have "nat \<bar>i\<bar> < 10 ^ MAX_STR_DIGITS"
    using assms by (metis abs_of_nonneg nat_less_iff of_nat_numeral of_nat_power)
  moreover have "0 < MAX_STR_DIGITS" by (simp add: MAX_STR_DIGITS_def)
  ultimately show ?thesis by (intro py_int_str length_py_str_nat)
qed

end
