(* ===== verification/Migrations.thy ===== *)
theory Migrations
  imports Py_Numbers "HOL-Library.List_Lexorder" "HOL-Library.Char_ord"
begin

section \<open>Migrations\<close>

text \<open>
  \<^verbatim>\<open>src/src/bidding/db/migrations.py\<close>. The directory of scripts is a list of names and texts.
  Two things the code relies on are parameters: \<open>digest\<close>, the SHA-256 of a text in
  hexadecimal, and \<open>run_sql\<close>, what PostgreSQL makes of a script, as a function of the state
  of the schema that can fail. Nothing is assumed of either.
\<close>

record migration =
  mg_version :: int
  mg_name :: string
  mg_sql :: string
  mg_checksum :: string

definition name_char :: "char \<Rightarrow> bool" where
  "name_char c \<longleftrightarrow> 97 \<le> (of_char c :: nat) \<and> (of_char c :: nat) \<le> 122 \<or> is_digit c \<or> c = CHR ''_''"

text \<open>\<open>MIGRATION_NAME.fullmatch\<close>: three digits, an underscore, the name, \<open>.sql\<close>.\<close>

definition match_migration_name :: "string \<Rightarrow> (string \<times> string) option" where
  "match_migration_name s =
     (let version = take 3 s; rest = drop 3 s; name = take (length rest - 5) (drop 1 rest) in
      if length version = 3 \<and> list_all is_digit version \<and> take 1 rest = ''_'' \<and>
         name \<noteq> [] \<and> list_all name_char name \<and> drop (Suc (length name)) rest = ''.sql''
      then Some (version, name) else None)"

definition migration_from_path :: "(string \<Rightarrow> string) \<Rightarrow> string \<times> string \<Rightarrow> migration py" where
  "migration_from_path digest path =
     (case match_migration_name (fst path) of
        None \<Rightarrow> Inl (ValueError (''invalid migration filename: '' @ fst path))
      | Some (version, name) \<Rightarrow>
          Inr \<lparr>mg_version = digits_value version, mg_name = name, mg_sql = snd path,
               mg_checksum = digest (snd path)\<rparr>)"

definition endswith :: "string \<Rightarrow> string \<Rightarrow> bool" where
  "endswith s suffix \<longleftrightarrow> length suffix \<le> length s \<and> drop (length s - length suffix) s = suffix"

definition discover_migrations ::
    "(string \<Rightarrow> string) \<Rightarrow> (string \<times> string) list \<Rightarrow> migration list py" where
  "discover_migrations digest directory =
     (let paths = sort_key fst (filter (\<lambda>item. endswith (fst item) ''.sql'') directory) in
      py_bind (py_map (migration_from_path digest) paths) (\<lambda>migrations.
      py_bind
        (raise_if (\<not> distinct (map mg_version migrations))
          (ValueError ''migration versions must be unique'')) (\<lambda>_.
      Inr migrations)))"

text \<open>
  The database a migration meets: the rows of \<open>schema_migrations\<close>, if the table exists, and
  the rest of the schema.
\<close>

record 's versioned =
  vs_applied :: "(int \<times> string \<times> string) list option"
  vs_schema :: 's

definition applied_rows :: "'s versioned \<Rightarrow> (int \<times> string \<times> string) list" where
  "applied_rows d = (case vs_applied d of None \<Rightarrow> [] | Some rows \<Rightarrow> rows)"

definition three_digits :: "int \<Rightarrow> string" where
  "three_digits v = (let s = py_str_int v in replicate (3 - length s) CHR ''0'' @ s)"

text \<open>\<open>INSERT INTO schema_migrations\<close>, whose version is the primary key.\<close>

definition insert_applied :: "migration \<Rightarrow> 's versioned \<Rightarrow> 's versioned py" where
  "insert_applied m d =
     (if list_ex (\<lambda>row. fst row = mg_version m) (applied_rows d) then Inl (SqlError UniqueViolation)
      else Inr (d\<lparr>vs_applied := Some (applied_rows d @ [(mg_version m, mg_name m, mg_checksum m)])\<rparr>))"

text \<open>The loop, over what \<open>schema_migrations\<close> held before it.\<close>

primrec apply_pending ::
    "(string \<Rightarrow> 's \<Rightarrow> 's py) \<Rightarrow> (int \<rightharpoonup> string \<times> string) \<Rightarrow> migration list \<Rightarrow> 's versioned \<Rightarrow>
     int list \<Rightarrow> (int list \<times> 's versioned) py" where
  "apply_pending run_sql existing [] d applied_now = Inr (applied_now, d)"
| "apply_pending run_sql existing (m # ms) d applied_now =
     (case existing (mg_version m) of
        Some previous \<Rightarrow>
          if previous \<noteq> (mg_name m, mg_checksum m)
          then Inl (RuntimeError (''applied migration '' @ three_digits (mg_version m) @ '' has changed''))
          else apply_pending run_sql existing ms d applied_now
      | None \<Rightarrow>
          py_bind (run_sql (mg_sql m) (vs_schema d)) (\<lambda>schema.
          py_bind (insert_applied m (d\<lparr>vs_schema := schema\<rparr>)) (\<lambda>d'.
          apply_pending run_sql existing ms d' (applied_now @ [mg_version m]))))"

text \<open>
  \<open>migrate\<close>: one transaction under an advisory lock that other migrators wait for, so that no
  two of them interleave; an exception rolls everything back.
\<close>

definition migrate ::
    "(string \<Rightarrow> string) \<Rightarrow> (string \<Rightarrow> 's \<Rightarrow> 's py) \<Rightarrow> (string \<times> string) list \<Rightarrow> 's versioned \<Rightarrow>
     int list py \<times> 's versioned" where
  "migrate digest run_sql directory d =
     (let opened = d\<lparr>vs_applied := Some (applied_rows d)\<rparr>;
          existing = map_of (applied_rows opened) in
      case py_bind (discover_migrations digest directory) (\<lambda>ms.
             apply_pending run_sql existing ms opened []) of
        Inl e \<Rightarrow> (Inl e, d)
      | Inr (applied_now, d') \<Rightarrow> (Inr applied_now, d'))"

subsection \<open>Scripts in the order of their versions\<close>

lemma match_version:
  "match_migration_name s = Some (version, name) \<Longrightarrow>
   version = take 3 s \<and> length version = 3 \<and> list_all is_digit version"
  by (auto simp: match_migration_name_def Let_def split: if_splits)

lemma take_mono_lex:
  fixes s t :: "'a::linorder list"
  shows "s \<le> t \<Longrightarrow> take n s \<le> take n t"
proof (induction n arbitrary: s t)
  case (Suc n)
  then show ?case by (cases s; cases t) auto
qed simp

lemma digit_bounds: "is_digit c \<Longrightarrow> 0 \<le> digit_value c \<and> digit_value c \<le> 9"
  by (auto simp: is_digit_def digit_value_def)

lemma foldl_digits_less:
  "length s = length t \<Longrightarrow> list_all is_digit s \<Longrightarrow> list_all is_digit t \<Longrightarrow> a < b \<Longrightarrow>
   foldl (\<lambda>v c. 10 * v + digit_value c) a s < foldl (\<lambda>v c. 10 * v + digit_value c) b t"
proof (induction s t arbitrary: a b rule: list_induct2)
  case (Cons c s d t)
  from Cons.prems digit_bounds [of c] digit_bounds [of d]
  have "10 * a + digit_value c < 10 * b + digit_value d" by simp
  with Cons show ?case by simp
qed simp

lemma digit_value_less: "is_digit c \<Longrightarrow> is_digit d \<Longrightarrow> c < d \<Longrightarrow> digit_value c < digit_value d"
  by (simp add: digit_value_def less_char_def)

lemma digits_value_mono:
  assumes "length s = length t" "list_all is_digit s" "list_all is_digit t" "s \<le> t"
  shows "digits_value s \<le> digits_value t"
proof -
  have "foldl (\<lambda>v c. 10 * v + digit_value c) a s \<le> foldl (\<lambda>v c. 10 * v + digit_value c) a t" for a
    using assms
  proof (induction s t arbitrary: a rule: list_induct2)
    case (Cons c s d t)
    show ?case
    proof (cases "c = d")
      case False
      with Cons.prems have "digit_value c < digit_value d" by (auto intro: digit_value_less)
      with Cons show ?thesis
        using foldl_digits_less [of s t "10 * a + digit_value c" "10 * a + digit_value d"] by simp
    qed (use Cons in auto)
  qed simp
  then show ?thesis by (simp add: digits_value_def)
qed

lemma discovered_sorted:
  assumes "discover_migrations digest directory = Inr ms"
  shows "sorted (map mg_version ms)" "distinct (map mg_version ms)"
proof -
  let ?paths = "sort_key fst (filter (\<lambda>item. endswith (fst item) ''.sql'') directory)"
  have ms: "list_all2 (\<lambda>x y. migration_from_path digest x = Inr y) ?paths ms"
    using assms by (auto simp: discover_migrations_def Let_def py_map_eq_Inr)
  have mono: "mg_version m \<le> mg_version m'"
    if "migration_from_path digest x = Inr m" "migration_from_path digest y = Inr m'" "fst x \<le> fst y"
    for x y m m'
    using that match_version [of "fst x"] match_version [of "fst y"] take_mono_lex [OF that(3), of 3]
    by (auto simp: migration_from_path_def intro!: digits_value_mono split: option.splits)
  have "sorted (map fst ?paths)" by simp
  with ms have "sorted_wrt (\<lambda>m m'. mg_version m \<le> mg_version m') ms"
    unfolding sorted_map
  proof (induction rule: list_all2_induct)
    case (Cons x xs m ms)
    have "mg_version m \<le> mg_version m'" if "m' \<in> set ms" for m'
    proof -
      from Cons.hyps(2) that have "\<exists>y \<in> set xs. migration_from_path digest y = Inr m'"
        by (induction rule: list_all2_induct) auto
      then obtain y where "y \<in> set xs" "migration_from_path digest y = Inr m'" ..
      with mono [OF Cons.hyps(1)] Cons.prems show ?thesis by simp
    qed
    with Cons show ?case by simp
  qed simp
  then show "sorted (map mg_version ms)" by (simp add: sorted_map)
  show "distinct (map mg_version ms)"
    using assms by (auto simp: discover_migrations_def Let_def)
qed

subsection \<open>The loop\<close>

lemma applied_rows_simps [simp]:
  "applied_rows (d\<lparr>vs_schema := schema\<rparr>) = applied_rows d"
  "applied_rows (d\<lparr>vs_applied := Some rows\<rparr>) = rows"
  by (simp_all add: applied_rows_def)

lemma recorded_iff: "list_ex (\<lambda>row. fst row = v) rows \<longleftrightarrow> v \<in> fst ` set rows"
  by (auto simp: list_ex_iff rev_image_eqI)

definition pending :: "(int \<rightharpoonup> string \<times> string) \<Rightarrow> migration list \<Rightarrow> migration list" where
  "pending existing ms = filter (\<lambda>m. existing (mg_version m) = None) ms"

definition drifted :: "(int \<rightharpoonup> string \<times> string) \<Rightarrow> migration \<Rightarrow> bool" where
  "drifted existing m \<longleftrightarrow>
     existing (mg_version m) \<noteq> None \<and> existing (mg_version m) \<noteq> Some (mg_name m, mg_checksum m)"

definition row_of :: "migration \<Rightarrow> int \<times> string \<times> string" where
  "row_of m = (mg_version m, mg_name m, mg_checksum m)"

primrec run_scripts :: "(string \<Rightarrow> 's \<Rightarrow> 's py) \<Rightarrow> migration list \<Rightarrow> 's \<Rightarrow> 's py" where
  "run_scripts run_sql [] schema = Inr schema"
| "run_scripts run_sql (m # ms) schema =
     py_bind (run_sql (mg_sql m) schema) (run_scripts run_sql ms)"

definition changed_error :: "migration \<Rightarrow> py_exn" where
  "changed_error m =
     RuntimeError (''applied migration '' @ three_digits (mg_version m) @ '' has changed'')"

lemma pending_Cons:
  "pending existing (m # ms) =
     (if existing (mg_version m) = None then m # pending existing ms else pending existing ms)"
  by (simp add: pending_def)

lemma apply_pending_Inr:
  assumes "apply_pending run_sql existing ms d acc = Inr (now, d')"
  shows "now = acc @ map mg_version (pending existing ms) \<and>
    vs_applied d' = (if pending existing ms = [] then vs_applied d
      else Some (applied_rows d @ map row_of (pending existing ms))) \<and>
    run_scripts run_sql (pending existing ms) (vs_schema d) = Inr (vs_schema d') \<and>
    (\<forall>m \<in> set ms. \<not> drifted existing m)"
  using assms
proof (induction ms arbitrary: d acc)
  case (Cons m ms)
  show ?case
  proof (cases "existing (mg_version m)")
    case None
    with Cons.prems obtain schema where s: "run_sql (mg_sql m) (vs_schema d) = Inr schema"
      "apply_pending run_sql existing ms
        (d\<lparr>vs_schema := schema, vs_applied := Some (applied_rows d @ [row_of m])\<rparr>)
        (acc @ [mg_version m]) = Inr (now, d')"
      by (auto simp: insert_applied_def row_of_def split: if_splits)
    from Cons.IH [OF s(2)] s(1) None show ?thesis
      by (auto simp: pending_Cons drifted_def)
  next
    case (Some previous)
    with Cons.prems have "previous = (mg_name m, mg_checksum m)"
      "apply_pending run_sql existing ms d acc = Inr (now, d')"
      by (auto split: if_splits)
    with Cons.IH Some show ?thesis by (auto simp: pending_Cons drifted_def)
  qed
qed (simp add: pending_def)

lemma apply_pending_Inl:
  assumes "apply_pending run_sql existing ms d acc = Inl e" "distinct (map mg_version ms)"
    and "\<forall>m \<in> set ms. existing (mg_version m) = None \<longrightarrow> mg_version m \<notin> fst ` set (applied_rows d)"
  shows "(\<exists>m \<in> set ms. drifted existing m \<and> e = changed_error m) \<or>
    (\<exists>m \<in> set (pending existing ms). \<exists>schema. run_sql (mg_sql m) schema = Inl e)"
  using assms
proof (induction ms arbitrary: d acc)
  case (Cons m ms)
  show ?case
  proof (cases "existing (mg_version m)")
    case None
    show ?thesis
    proof (cases "run_sql (mg_sql m) (vs_schema d)")
      case (Inr schema)
      let ?d = "d\<lparr>vs_schema := schema, vs_applied := Some (applied_rows d @ [row_of m])\<rparr>"
      have "insert_applied m (d\<lparr>vs_schema := schema\<rparr>) = Inr ?d"
        using Cons.prems(3) None by (simp add: insert_applied_def row_of_def recorded_iff)
      with Cons.prems(1) None Inr
      have loop: "apply_pending run_sql existing ms ?d (acc @ [mg_version m]) = Inl e" by simp
      have "\<forall>m' \<in> set ms. existing (mg_version m') = None \<longrightarrow> mg_version m' \<notin> fst ` set (applied_rows ?d)"
        using Cons.prems(2,3) by (auto simp: row_of_def image_iff)
      from Cons.IH [OF loop _ this] Cons.prems(2) None show ?thesis
        by (auto simp: pending_Cons)
    qed (use Cons.prems(1) None in \<open>auto simp: pending_Cons\<close>)
  next
    case (Some previous)
    show ?thesis
    proof (cases "drifted existing m")
      case True
      with Cons.prems(1) Some show ?thesis by (auto simp: drifted_def changed_error_def)
    next
      case False
      with Cons Some show ?thesis by (auto simp: pending_Cons drifted_def)
    qed
  qed
qed simp

lemma apply_pending_current:
  "\<forall>m \<in> set ms. existing (mg_version m) = Some (mg_name m, mg_checksum m) \<Longrightarrow>
   apply_pending run_sql existing ms d acc = Inr (acc, d)"
  by (induction ms) auto

subsection \<open>Migrating\<close>

text \<open>What \<open>schema_migrations\<close> holds, by version.\<close>

definition recorded :: "'s versioned \<Rightarrow> int \<rightharpoonup> string \<times> string" where
  "recorded d = map_of (applied_rows d)"

lemma migrate_cases:
  assumes "migrate digest run_sql directory d = (res, d')"
  obtains (failed) e where "res = Inl e" "d' = d" "discover_migrations digest directory = Inl e"
  | (refused) e ms where "res = Inl e" "d' = d" "discover_migrations digest directory = Inr ms"
      "apply_pending run_sql (recorded d) ms (d\<lparr>vs_applied := Some (applied_rows d)\<rparr>) [] = Inl e"
  | (done_) now ms where "res = Inr now" "discover_migrations digest directory = Inr ms"
      "apply_pending run_sql (recorded d) ms (d\<lparr>vs_applied := Some (applied_rows d)\<rparr>) [] = Inr (now, d')"
proof (cases "discover_migrations digest directory")
  case (Inl e)
  with assms failed show thesis by (auto simp: migrate_def Let_def)
next
  case (Inr ms)
  let ?o = "d\<lparr>vs_applied := Some (applied_rows d)\<rparr>"
  show thesis
  proof (cases "apply_pending run_sql (recorded d) ms ?o []")
    case (Inl e)
    with assms Inr refused show thesis by (auto simp: migrate_def Let_def recorded_def)
  next
    case (Inr x)
    with assms \<open>discover_migrations digest directory = Inr ms\<close> done_ show thesis
      by (cases x) (auto simp: migrate_def Let_def recorded_def)
  qed
qed

lemma migrated:
  assumes "migrate digest run_sql directory d = (Inr now, d')"
  obtains ms where "discover_migrations digest directory = Inr ms"
    "now = map mg_version (pending (recorded d) ms)"
    "vs_applied d' = Some (applied_rows d @ map row_of (pending (recorded d) ms))"
    "run_scripts run_sql (pending (recorded d) ms) (vs_schema d) = Inr (vs_schema d')"
    "\<forall>m \<in> set ms. \<not> drifted (recorded d) m"
  using assms
proof (cases rule: migrate_cases)
  case (done_ now' ms)
  from that [OF done_(2)] apply_pending_Inr [OF done_(3)] done_(1) show thesis
    by (auto split: if_splits)
qed auto

text \<open>After a migration every discovered script is recorded with its checksum.\<close>

lemma recorded_after:
  assumes "vs_applied d' = Some (applied_rows d @ map row_of (pending (recorded d) ms))"
    and "\<forall>m \<in> set ms. \<not> drifted (recorded d) m" "distinct (map mg_version ms)" "m \<in> set ms"
  shows "recorded d' (mg_version m) = Some (mg_name m, mg_checksum m)"
proof (cases "recorded d (mg_version m)")
  case None
  have "map_of (map row_of xs) (mg_version m) = Some (mg_name m, mg_checksum m)"
    if "m \<in> set xs" "distinct (map mg_version xs)" for xs
    using that by (induction xs) (auto simp: row_of_def image_iff)
  moreover have "m \<in> set (pending (recorded d) ms)" "distinct (map mg_version (pending (recorded d) ms))"
    using assms(3,4) None by (auto simp: pending_def distinct_map inj_on_def)
  ultimately have "map_of (map row_of (pending (recorded d) ms)) (mg_version m) = Some (mg_name m, mg_checksum m)"
    by blast
  with None assms(1) show ?thesis by (simp add: recorded_def applied_rows_def map_add_Some_iff)
next
  case (Some p)
  have "\<not> drifted (recorded d) m" using assms(2,4) by blast
  with Some have "p = (mg_name m, mg_checksum m)" by (simp add: drifted_def)
  with Some assms(1) show ?thesis
    by (simp add: recorded_def applied_rows_def [of d'] map_add_def)
qed

end
