(* ===== verification/App.thy ===== *)
theory App
  imports Config Migrations
begin

section \<open>The application\<close>

text \<open>
  \<^verbatim>\<open>src/src/bidding/api/app.py\<close>: what the lifespan of the application does, as the list of its
  effects and the way it ends. \<open>opening\<close> is the outcome of opening the pool, \<open>serving\<close> that of
  the time the application runs at the \<open>yield\<close>. Then the command line of the migrations.
\<close>

datatype lifecycle =
    Pool_Opened
  | Pool_Closed
  | Schema_Migrated "int list"
  | Serving "bid_command \<Rightarrow> bid_outcome prog"

definition application_strategy :: "settings \<Rightarrow> (bid_command \<Rightarrow> bid_outcome prog) py" where
  "application_strategy s = strategy_from_name (st_bid_strategy s) (st_optimistic_max_attempts s)"

text \<open>The \<open>try\<close> block.\<close>

definition lifespan_body ::
    "settings \<Rightarrow> int list py \<Rightarrow> unit py \<Rightarrow> lifecycle list \<times> unit py" where
  "lifespan_body s migrated serving =
     (case migrated of
        Inl e \<Rightarrow> ([], Inl e)
      | Inr now \<Rightarrow>
          (case application_strategy s of
             Inl e \<Rightarrow> ([Schema_Migrated now], Inl e)
           | Inr strategy \<Rightarrow> ([Schema_Migrated now, Serving strategy], serving)))"

definition lifespan ::
    "settings \<Rightarrow> bool \<Rightarrow> unit py \<Rightarrow> int list py \<Rightarrow> unit py \<Rightarrow> lifecycle list \<times> unit py" where
  "lifespan s owns_pool opening migrated serving =
     (if owns_pool then
        (case opening of
           Inl e \<Rightarrow> ([], Inl e)
         | Inr _ \<Rightarrow>
             let (effects, result) = lifespan_body s migrated serving in
             (Pool_Opened # effects @ [Pool_Closed], result))
      else lifespan_body s migrated serving)"

text \<open>
  \<open>main\<close> of \<^verbatim>\<open>db/migrations.py\<close>: \<open>given\<close> is \<open>--database-url\<close>, and \<open>migrated url\<close> how \<open>migrate\<close> ends on the
  database with that URL; the result is the line that is printed.
\<close>

definition migrations_main ::
    "string option \<Rightarrow> environment \<Rightarrow> (string \<Rightarrow> int list py) \<Rightarrow> string py" where
  "migrations_main given env migrated =
     py_bind (settings_from_env env) (\<lambda>s.
     let database_url =
           (case given of
              Some url \<Rightarrow> if url = [] then st_database_url s else url
            | None \<Rightarrow> st_database_url s) in
     py_bind (migrated database_url) (\<lambda>versions.
     Inr (if versions = [] then ''Database schema is already current''
          else ''Applied migrations: '' @ py_join '', '' (map three_digits versions))))"

text \<open>The settings of \<open>create_app\<close>: those it is given, or those of the environment.\<close>

definition resolved_settings :: "settings option \<Rightarrow> environment \<Rightarrow> settings py" where
  "resolved_settings given env = (case given of Some s \<Rightarrow> Inr s | None \<Rightarrow> settings_from_env env)"

end
