(* ===== verification/Server_Properties.thy ===== *)
theory Server_Properties
  imports Websocket_Properties Deployment_Properties
begin

section \<open>The platform as a whole\<close>

text \<open>Configuration, strategy, HTTP handlers, notifications and database in one statement.\<close>

lemma configured_strategy:
  assumes "settings_from_env env = Inr cfg" "application_strategy cfg = Inr strategy"
  shows "strategy \<in> code_strategies"
    and "st_bid_strategy cfg = ''optimistic'' \<Longrightarrow> safe_bid_strategy strategy within"
    and "st_bid_strategy cfg = ''pessimistic'' \<Longrightarrow> safe_bid_strategy strategy not_before"
proof -
  have "settings_ok cfg" using assms(1) by (simp add: settings_from_env_eq_Inr)
  then show "strategy \<in> code_strategies" using valid_strategy_resolves assms(2) by fastforce
  show "st_bid_strategy cfg = ''pessimistic'' \<Longrightarrow> safe_bid_strategy strategy not_before"
    using assms(2) pessimistic.safe_bid_strategy_axioms
    by (auto simp: application_strategy_def strategy_from_name_def)
  show "st_bid_strategy cfg = ''optimistic'' \<Longrightarrow> safe_bid_strategy strategy within"
    using assms(2) optimistic.safe_bid_strategy_axioms
    by (auto simp: application_strategy_def strategy_from_name_def make_optimistic_def split: if_splits)
qed

lemma ledger_mono: "ledger V d \<Longrightarrow> (\<And>s e t. V s e t \<Longrightarrow> W s e t) \<Longrightarrow> ledger W d"
  unfolding ledger_def by blast

text \<open>
  C1. The platform keeps its promise from end to end. With settings read from an environment
  and the strategy they name behind every bid, in any interleaving of all HTTP requests,
  watchers, statements, event-loop turns, database faults and socket failures: under the
  optimistic strategy the checker never finds anything to report of any auction, under the
  pessimistic one never anything but a bid accepted after the closing time; every bid request
  that was answered with a success shows a bid that is stored for the auction of its URL; and
  so does every event a watcher was sent, for the auction it watches.
\<close>

theorem platform_is_fair:
  assumes "read_committed_service store call step" "at_start store call s0"
    and "ledger within (store s0)" "titles_clean (store s0)"
    and "settings_from_env env = Inr cfg" "application_strategy cfg = Inr strategy"
    and "\<forall>p. bids_with strategy (reqs p)" "served step reqs s0 s ps h"
  shows "(\<forall>a r v. auctions (store s) a = Some r \<longrightarrow> v \<in> set (ir_violations (report_on (store s) a)) \<longrightarrow>
      st_bid_strategy cfg \<noteq> ''optimistic'' \<and>
      (st_bid_strategy cfg = ''pessimistic'' \<longrightarrow> violation_code v = ''accepted_outside_window'')) \<and>
    (\<forall>p strat a body r ev. reqs p = Bid_Request strat a body \<longrightarrow>
      ps p = Ret (Bid_Answer (Placement_Response r) ev) \<longrightarrow>
      (\<exists>b \<in> set (bids (store s)). rb_auction_id b = a \<and> pr_bid r = bid_response_of (bid_of b))) \<and>
    (\<forall>w ev. (w, Event ev) \<in> set (hb_sent h) \<longrightarrow> reqs w = Watch_Request (ev_auction_id ev) \<and>
      (\<exists>b \<in> set (bids (store s)). rb_auction_id b = ev_auction_id ev \<and> ev_bid ev = bid_response_of (bid_of b)))"
    (is "?checked \<and> ?answered \<and> ?announced")
proof (intro conjI)
  note served = served_ledger [OF assms(1,2) _ assms(7,8)]
  have start: "ledger not_before (store s0)"
    using assms(3) within_not_before by (rule ledger_mono)
  show ?checked
  proof (intro allI impI)
    fix a r v
    assume r: "auctions (store s) a = Some r" and v: "v \<in> set (ir_violations (report_on (store s) a))"
    have "report_valid (report_on (store s) a)" if "st_bid_strategy cfg = ''optimistic''"
      using served [OF configured_strategy(2) [OF assms(5,6) that] assms(3,4)]
      by (intro report_on_within [OF _ _ _ r]) simp_all
    moreover have "violation_code v = ''accepted_outside_window''"
      if "st_bid_strategy cfg = ''pessimistic''"
      using served [OF configured_strategy(3) [OF assms(5,6) that] start assms(4)]
      by (auto intro: report_on_not_before [OF _ _ _ r v])
    ultimately show "st_bid_strategy cfg \<noteq> ''optimistic'' \<and>
        (st_bid_strategy cfg = ''pessimistic'' \<longrightarrow> violation_code v = ''accepted_outside_window'')"
      using v by (auto simp: report_valid_def)
  qed
  have code: "code_requests reqs"
    using assms(7) configured_strategy(1) [OF assms(5,6)] unfolding code_requests_def bids_with_def by metis
  show ?answered
    using served_answer [OF assms(1,2) code_requests_strategy [OF code] assms(8)]
    by (fastforce simp: request_ok_def route_ok_def)
  show ?announced
    using sent_events_stored [OF assms(1,2) code assms(8)] by blast
qed

text \<open>The default settings, a bid and a watcher: the bid is stored, answered and announced.\<close>

theorem platform_is_fair_witness:
  "\<exists>s ps h b ev. served service_step bid_and_watch two_connections s ps h \<and>
    (1, Event ev) \<in> set (hb_sent h) \<and> b \<in> set (bids (sv_store s)) \<and> rb_auction_id b = 1 \<and>
    ev_bid ev = bid_response_of (bid_of b)"
proof -
  obtain s ps h where h: "served service_step bid_and_watch two_connections s ps h"
    "map (\<lambda>(w, m). (w, message_summary m)) (hb_sent h) = [(1, ''snapshot'', 0), (1, ''event'', 1)]"
    using summary_reached [OF heard_summary] by metis
  obtain ev where ev: "(1, Event ev) \<in> set (hb_sent h)" using summary_event [OF h(2), of 1 1] by auto
  have "application_strategy default_settings = Inr pessimistic_place_bid"
    by (simp add: application_strategy_def strategy_from_name_def default_settings_def)
  moreover have "\<forall>p. bids_with pessimistic_place_bid (bid_and_watch p)"
    by (simp add: bids_with_def bid_and_watch_def)
  moreover have "ledger within (sv_store two_connections)" "titles_clean (sv_store two_connections)"
    using lot_db_ledger lot_db_titles by simp_all
  ultimately have "bid_and_watch 1 = Watch_Request (ev_auction_id ev) \<and>
      (\<exists>b \<in> set (bids (sv_store s)). rb_auction_id b = ev_auction_id ev \<and> ev_bid ev = bid_response_of (bid_of b))"
    using platform_is_fair [OF service_axioms two_connections_start _ _ default_environment _ _ h(1)] ev
    by blast
  moreover from this have "ev_auction_id ev = 1" by (simp add: bid_and_watch_def)
  ultimately show ?thesis using h(1) ev by metis
qed

end
