(* ===== verification/Measures.thy ===== *)
theory Measures
  imports Py_Numbers "HOL-Library.List_Lexorder" "HOL-Library.Char_ord"
begin

section \<open>Benchmark measures\<close>

text \<open>
  \<^verbatim>\<open>src/src/bidding/benchmark/models.py\<close>: latencies and counts of one trial. The arithmetic on
  floats is that of doubles: every operation rounds to the nearest one.
\<close>

subsection \<open>Arithmetic of doubles\<close>

text \<open>\<open>a / b\<close> on two integers, which Python rounds once.\<close>

definition true_divide :: "int \<Rightarrow> int \<Rightarrow> py_float py" where
  "true_divide a b =
     (if b = 0 then Inl ZeroDivisionError
      else Inr ((if (a < 0) = (b < 0) then id else negated) (nearest_double \<bar>a\<bar> \<bar>b\<bar>)))"

text \<open>A double as a quotient of integers.\<close>

definition numerator :: "int \<Rightarrow> int \<Rightarrow> int" where
  "numerator m e = m * 2 ^ nat e"

definition denominator :: "int \<Rightarrow> int" where
  "denominator e = 2 ^ nat (- e)"

definition float_of_int :: "int \<Rightarrow> py_float" where
  "float_of_int n = (if n < 0 then negated (nearest_double (- n) 1) else nearest_double n 1)"

text \<open>Products and quotients of finite doubles; the sources form no others.\<close>

fun float_times :: "py_float \<Rightarrow> py_float \<Rightarrow> py_float" where
  "float_times (Finite m e) (Finite n f) =
     (if (m < 0) = (n < 0) then id else negated)
       (nearest_double (numerator \<bar>m * n\<bar> (e + f)) (denominator (e + f)))"
| "float_times x y = NaN"

fun float_divide :: "py_float \<Rightarrow> py_float \<Rightarrow> py_float py" where
  "float_divide (Finite m e) (Finite n f) =
     (if n = 0 then Inl ZeroDivisionError
      else Inr ((if (m < 0) = (n < 0) then id else negated)
        (nearest_double (numerator \<bar>m\<bar> (e - f)) (\<bar>n\<bar> * denominator (e - f)))))"
| "float_divide x y = Inr NaN"

fun float_ceil :: "py_float \<Rightarrow> int py" where
  "float_ceil NaN = Inl (ValueError ''cannot convert float NaN to integer'')"
| "float_ceil (Infinite n) = Inl (OverflowError ''cannot convert float infinity to integer'')"
| "float_ceil (Finite m e) = Inr (- ((- numerator m e) div denominator e))"

subsection \<open>Percentiles\<close>

text \<open>\<open>max(0, math.ceil(percentile / 100 * len(ordered)) - 1)\<close>\<close>

definition percentile_index :: "int \<Rightarrow> nat \<Rightarrow> int py" where
  "percentile_index percentile n =
     py_bind (true_divide percentile 100) (\<lambda>share.
     py_bind (float_ceil (float_times share (float_of_int (int n)))) (\<lambda>rank.
     Inr (max 0 (rank - 1))))"

definition percentile_ns :: "int list \<Rightarrow> int \<Rightarrow> int py" where
  "percentile_ns samples percentile =
     (if samples = [] then Inl (ValueError ''at least one latency sample is required'')
      else if \<not> (0 < percentile \<and> percentile \<le> 100)
      then Inl (ValueError ''percentile must be in (0, 100]'')
      else
        let ordered = sort samples in
        py_bind (percentile_index percentile (length ordered)) (\<lambda>index.
        if index < int (length ordered) then Inr (ordered ! nat index)
        else Inl (IndexError ''list index out of range'')))"

subsection \<open>Rounding and ceilings\<close>

lemma bit_count_bounds:
  "0 < n \<Longrightarrow> 1 \<le> bit_count n \<and> 2 ^ nat (bit_count n - 1) \<le> n \<and> n < 2 ^ nat (bit_count n)"
proof (induction n rule: bit_count.induct)
  case (1 n)
  have b: "bit_count n = 1 + bit_count (n div 2)" using "1.prems" by (subst bit_count.simps) simp
  show ?case
  proof (cases "n = 1")
    case True
    then show ?thesis by (simp add: bit_count.simps)
  next
    case False
    with "1.prems" have half: "0 < n div 2" by linarith
    note IH = "1.IH" [OF _ half]
    then have c: "1 \<le> bit_count (n div 2)" using "1.prems" by simp
    then have "nat (bit_count n - 1) = Suc (nat (bit_count (n div 2) - 1))"
      "nat (bit_count n) = Suc (nat (bit_count (n div 2)))"
      using b by linarith+
    moreover define x :: int where "x = 2 ^ nat (bit_count (n div 2) - 1)"
    moreover have "nat (bit_count (n div 2)) = Suc (nat (bit_count (n div 2) - 1))" using c by linarith
    ultimately have x: "2 ^ nat (bit_count n - 1) = 2 * x" "2 ^ nat (bit_count n) = 4 * x"
      "x \<le> n div 2" "n div 2 < 2 * x"
      using IH "1.prems" by simp_all
    from x(3,4) have "2 * x \<le> n" "n < 4 * x" by presburger+
    with b c x(1,2) show ?thesis by simp
  qed
qed

lemma nearest_le:
  assumes "0 < d" "n \<le> k * d"
  shows "nearest n d \<le> k"
proof -
  have q: "n = d * (n div d) + n mod d" "0 \<le> n mod d" "n mod d < d" using assms(1) by simp_all
  have "n div d \<le> k" using assms by (metis div_by_0 div_le_mono2 less_irrefl nonzero_mult_div_cancel_right order_less_le zdiv_mono1)
  show ?thesis
  proof (cases "n div d = k")
    case True
    with q assms(2) have "n mod d = 0" by (simp add: mult.commute)
    with True assms(1) show ?thesis by (simp add: nearest_def)
  next
    case False
    with \<open>n div d \<le> k\<close> show ?thesis by (simp add: nearest_def Let_def)
  qed
qed

lemma nearest_ge:
  assumes "0 < d" "2 * k * d < 2 * n + d"
  shows "k \<le> nearest n d"
proof -
  define q r where "q = n div d" and "r = n mod d"
  have n: "n = d * q + r" "0 \<le> r" "r < d" using assms(1) by (simp_all add: q_def r_def)
  have "2 * (k * d) < 2 * ((q + 1) * d) + d" using assms(2) n by (simp add: algebra_simps)
  then have "2 * ((k - (q + 1)) * d) < 1 * d" by (simp add: algebra_simps)
  then have "2 * (k - (q + 1)) < 1"
    using assms(1) by (metis mult.assoc mult_less_cancel_right_disj not_less_iff_gr_or_eq)
  then have "k \<le> q + 1" by simp
  show ?thesis
  proof (cases "k = q + 1")
    case True
    with assms(2) n have "d < 2 * r" by (simp add: algebra_simps)
    with True show ?thesis by (simp add: nearest_def q_def [symmetric] r_def [symmetric])
  next
    case False
    with \<open>k \<le> q + 1\<close> show ?thesis by (simp add: nearest_def q_def [symmetric] Let_def)
  qed
qed

text \<open>Up to \<open>2 ^ 44\<close> a double has at least eight binary places.\<close>

lemma nearest_double_fine:
  assumes "0 < n" "0 < d" "n < 2 ^ 44 * d"
  obtains e where "e \<le> - 8" "nearest_double n d = Finite (nearest (n * 2 ^ nat (- e)) d) e"
proof -
  define a where "a = bit_count n - bit_count d"
  define k where "k = (if n * 2 ^ nat (- a) \<ge> d * 2 ^ nat a then a else a - 1)"
  note bn = bit_count_bounds [OF assms(1)] and bd = bit_count_bounds [OF assms(2)]
  have "k \<le> 44"
  proof (rule ccontr)
    assume "\<not> k \<le> 44"
    then have big: "45 \<le> k" by simp
    have "d * 2 ^ 44 \<le> n"
    proof (cases "n * 2 ^ nat (- a) \<ge> d * 2 ^ nat a")
      case True
      with big have "45 \<le> a" by (simp add: k_def)
      then have "(2::int) ^ 44 \<le> 2 ^ nat a" by (intro power_increasing) auto
      with assms(2) have "d * 2 ^ 44 \<le> d * 2 ^ nat a" by (simp only: mult_le_cancel_left_pos)
      with True \<open>45 \<le> a\<close> show ?thesis by simp
    next
      case False
      with big have "46 \<le> a" by (simp add: k_def)
      then have e: "44 + nat (bit_count d) \<le> nat (bit_count n - 1)"
        using bd unfolding a_def by arith
      have "d * 2 ^ 44 \<le> 2 ^ nat (bit_count d) * 2 ^ 44" using bd by simp
      also have "\<dots> = 2 ^ (44 + nat (bit_count d))" by (simp only: power_add mult.commute)
      also have "\<dots> \<le> 2 ^ nat (bit_count n - 1)" using e by (intro power_increasing) auto
      finally show ?thesis using bn by linarith
    qed
    with assms(3) show False by (simp add: mult.commute)
  qed
  define e where "e = max (k - 52) (- 1074)"
  have "e \<le> - 8" using \<open>k \<le> 44\<close> by (simp add: e_def)
  then have "nearest_double n d = Finite (nearest (n * 2 ^ nat (- e)) (d * 2 ^ nat e)) e"
    using assms(1) by (simp add: nearest_double_def Let_def a_def [symmetric] k_def [symmetric]
        e_def [symmetric])
  with that [OF \<open>e \<le> - 8\<close>] \<open>e \<le> - 8\<close> show thesis by simp
qed

text \<open>A quotient that is a little above \<open>k - 1\<close> and at most \<open>k\<close> has the rounded ceiling \<open>k\<close>.\<close>

lemma ceil_nearest_double:
  assumes "0 < n" "0 < d" "n < 2 ^ 44 * d"
    and "n \<le> k * d" "(128 * (k - 1) + 1) * d \<le> 128 * n"
  shows "float_ceil (nearest_double n d) = Inr k"
proof -
  obtain e where e: "e \<le> - 8" "nearest_double n d = Finite (nearest (n * 2 ^ nat (- e)) d) e"
    using nearest_double_fine [OF assms(1-3)] by blast
  define s :: int where "s = 2 ^ nat (- e)"
  have "(2::int) ^ 8 \<le> s" unfolding s_def using e(1) by (intro power_increasing) auto
  then have s: "256 \<le> s" by simp
  let ?m = "nearest (n * s) d"
  have "n * s \<le> (k * d) * s" using assms(4) s by (intro mult_right_mono) auto
  then have upper: "?m \<le> k * s" by (intro nearest_le [OF assms(2)]) (simp add: algebra_simps)
  have "(128 * (k - 1) + 1) * d * (2 * s) \<le> 128 * n * (2 * s)"
    using assms(5) s by (intro mult_right_mono) auto
  moreover have "256 * d \<le> s * d" using s assms(2) by (intro mult_right_mono) auto
  ultimately have "128 * (2 * ((k - 1) * s + 1) * d) < 128 * (2 * (n * s) + d)"
    using assms(2) by (simp only: algebra_simps)
  then have "(k - 1) * s + 1 \<le> ?m" by (intro nearest_ge [OF assms(2)]) simp
  then have "- k * s \<le> - ?m" "- ?m < (- k + 1) * s"
    using upper by (simp_all add: algebra_simps)
  then have "(- ?m) div s = - k" using s by (intro int_div_pos_eq [where r = "- ?m + k * s"]) (simp_all add: algebra_simps)
  then show ?thesis
    using e by (simp add: numerator_def denominator_def s_def)
qed

text \<open>A small integer is a double.\<close>

lemma float_of_int_exact:
  assumes "0 < n" "n < 2 ^ 44"
  obtains e where "e \<le> - 8" "float_of_int n = Finite (n * 2 ^ nat (- e)) e"
proof -
  obtain e where e: "e \<le> - 8" "nearest_double n 1 = Finite (nearest (n * 2 ^ nat (- e)) 1) e"
    using nearest_double_fine [of n 1] assms by auto
  have "nearest k 1 = k" for k by (simp add: nearest_def)
  with that [OF e(1)] e(2) assms(1) show thesis by (simp add: float_of_int_def)
qed

text \<open>
  The shares the code asks for: 50, 95 and 99 hundredths are doubles that are at most that
  much and less than \<open>2 ^ -53\<close> below it.
\<close>

lemma shares:
  assumes "p \<in> {50, 95, 99}"
  obtains m where "true_divide p 100 = Inr (Finite m (- 53))" "0 < m"
    "100 * m \<le> p * 2 ^ 53" "p * 2 ^ 53 < 100 * m + 100"
proof -
  have d: "true_divide 50 100 = Inr (Finite 4503599627370496 (- 53))"
    "true_divide 95 100 = Inr (Finite 8556839292003942 (- 53))"
    "true_divide 99 100 = Inr (Finite 8917127262193582 (- 53))"
    by code_simp+
  consider "p = 50" | "p = 95" | "p = 99" using assms by auto
  then show thesis
  proof cases
    case 1
    with d show thesis by (intro that [of 4503599627370496]) simp_all
  next
    case 2
    with d show thesis by (intro that [of 8556839292003942]) simp_all
  next
    case 3
    with d show thesis by (intro that [of 8917127262193582]) simp_all
  qed
qed

lemma percentile_index_exact:
  assumes "p \<in> {50, 95, 99}" "0 < n" "int n < 2 ^ 40"
  shows "percentile_index p n = Inr ((p * int n + 99) div 100 - 1)"
proof -
  define k where "k = (p * int n + 99) div 100"
  have k: "p * int n \<le> 100 * k" "100 * (k - 1) + 1 \<le> p * int n" unfolding k_def by presburger+
  have "1 \<le> k" using k(1) assms(1,2) by auto
  obtain m where m: "true_divide p 100 = Inr (Finite m (- 53))" "0 < m"
    "100 * m \<le> p * 2 ^ 53" "p * 2 ^ 53 < 100 * m + 100"
    using shares [OF assms(1)] by blast
  obtain e where e: "e \<le> - 8" "float_of_int (int n) = Finite (int n * 2 ^ nat (- e)) e"
    using float_of_int_exact [of "int n"] assms(2,3) by auto
  define s :: int where "s = 2 ^ nat (- e)"
  have s: "0 < s" by (simp add: s_def)
  have "nat (53 - e) = 53 + nat (- e)" using e(1) by arith
  then have den: "denominator (- 53 + e) = 2 ^ 53 * s"
    by (simp add: denominator_def s_def power_add)
  have num: "numerator \<bar>m * (int n * s)\<bar> (- 53 + e) = m * int n * s"
    using m(2) s e(1) by (simp add: numerator_def abs_mult)
  have prod: "float_times (Finite m (- 53)) (Finite (int n * s) e) =
      nearest_double (m * int n * s) (2 ^ 53 * s)"
  proof -
    have "(m < 0) = (int n * s < 0)" using m(2) s by (simp add: mult_less_0_iff)
    then show ?thesis unfolding float_times.simps num den by simp
  qed
  have "100 * m * int n \<le> p * 2 ^ 53 * int n" using m(3) by (intro mult_right_mono) auto
  with k(1) have le: "m * int n \<le> k * 2 ^ 53" by simp
  have "p * 2 ^ 53 * int n \<le> (100 * m + 100) * int n" using m(4) by (intro mult_right_mono) auto
  with k(2) assms(3) have ge: "(128 * (k - 1) + 1) * 2 ^ 53 \<le> 128 * (m * int n)"
    by (simp add: algebra_simps)
  have "p \<le> 99" using assms(1) by auto
  with m(3) have "m < 2 ^ 53" by simp
  then have "m * int n < 2 ^ 53 * 2 ^ 44"
    using m(2) assms(2,3) by (intro mult_strict_mono) auto
  then have "m * int n * s < 2 ^ 44 * (2 ^ 53 * s)" using s by simp
  moreover have "m * int n * s \<le> k * (2 ^ 53 * s)"
    using mult_right_mono [OF le, of s] s by (simp add: mult.assoc)
  moreover have "(128 * (k - 1) + 1) * (2 ^ 53 * s) \<le> 128 * (m * int n * s)"
    using mult_right_mono [OF ge, of s] s by (simp only: mult.assoc)
  ultimately have "float_ceil (nearest_double (m * int n * s) (2 ^ 53 * s)) = Inr k"
    using m(2) assms(2) s by (intro ceil_nearest_double) auto
  with \<open>1 \<le> k\<close> show ?thesis
    unfolding percentile_index_def m(1) e(2) s_def [symmetric] py_bind_simps prod
    by (simp add: k_def [symmetric])
qed

text \<open>The element of rank \<open>i\<close> in a sorted list.\<close>

lemma sorted_rank:
  assumes "sorted xs" "i < length xs"
  shows "Suc i \<le> length (filter (\<lambda>x. x \<le> xs ! i) xs)" "length (filter (\<lambda>x. x < xs ! i) xs) \<le> i"
proof -
  have "filter (\<lambda>x. x \<le> xs ! i) (take (Suc i) xs) = take (Suc i) xs"
    using assms
    by (intro filter_True) (auto simp: in_set_conv_nth less_Suc_eq_le intro!: sorted_nth_mono)
  then have "filter (\<lambda>x. x \<le> xs ! i) xs =
      take (Suc i) xs @ filter (\<lambda>x. x \<le> xs ! i) (drop (Suc i) xs)"
    by (metis append_take_drop_id filter_append)
  with assms(2) show "Suc i \<le> length (filter (\<lambda>x. x \<le> xs ! i) xs)" by simp
  have "filter (\<lambda>x. x < xs ! i) (drop i xs) = []"
    using assms by (intro filter_False) (auto simp: in_set_conv_nth not_less intro!: sorted_nth_mono)
  then have "filter (\<lambda>x. x < xs ! i) xs = filter (\<lambda>x. x < xs ! i) (take i xs)"
    by (metis append_Nil2 append_take_drop_id filter_append)
  then show "length (filter (\<lambda>x. x < xs ! i) xs) \<le> i"
    by (metis length_filter_le length_take min.bounded_iff)
qed

lemma filter_sort_length: "length (filter P (sort xs)) = length (filter P xs)"
  by (simp add: filter_sort)

subsection \<open>The summary of a trial\<close>

record request_observation =
  ob_request_index :: nat
  ob_auction_id :: uuid
  ob_amount_cents :: cents
  ob_latency_ns :: int
  ob_status :: string
  ob_reason :: "string option"
  ob_attempts :: int
  ob_conflicts :: int

text \<open>\<open>'v\<close> is what a violation is.\<close>

record 'v trial_result =
  tr_strategy :: string
  tr_workload :: string
  tr_concurrency :: int
  tr_request_count :: nat
  tr_repetition :: int
  tr_wall_time_ns :: int
  tr_throughput :: py_float
  tr_p50_latency_ms :: py_float
  tr_p95_latency_ms :: py_float
  tr_p99_latency_ms :: py_float
  tr_outcome_counts :: "(string \<times> nat) list"
  tr_total_attempts :: int
  tr_total_conflicts :: int
  tr_invariant_valid :: bool
  tr_invariant_violations :: "'v list"
  tr_requests :: "request_observation list"

text \<open>\<open>dict(sorted(Counter(statuses).items()))\<close>\<close>

definition sorted_counts :: "string list \<Rightarrow> (string \<times> nat) list" where
  "sorted_counts statuses =
     map (\<lambda>s. (s, length (filter (\<lambda>x. x = s) statuses))) (sort (remdups statuses))"

definition latency_ms :: "request_observation list \<Rightarrow> int \<Rightarrow> py_float py" where
  "latency_ms observations percentile =
     py_bind (percentile_ns (map ob_latency_ns observations) percentile) (\<lambda>ns.
     true_divide ns 1000000)"

definition summarize ::
    "string \<Rightarrow> string \<Rightarrow> int \<Rightarrow> int \<Rightarrow> int \<Rightarrow> request_observation list \<Rightarrow> 'v list \<Rightarrow>
     'v trial_result py" where
  "summarize strategy workload concurrency repetition wall_time_ns observations violations =
     py_bind (true_divide wall_time_ns 1000000000) (\<lambda>seconds.
     py_bind (float_divide (float_of_int (int (length observations))) seconds) (\<lambda>throughput.
     py_bind (latency_ms observations 50) (\<lambda>p50.
     py_bind (latency_ms observations 95) (\<lambda>p95.
     py_bind (latency_ms observations 99) (\<lambda>p99.
     Inr \<lparr>tr_strategy = strategy, tr_workload = workload, tr_concurrency = concurrency,
          tr_request_count = length observations, tr_repetition = repetition,
          tr_wall_time_ns = wall_time_ns, tr_throughput = throughput,
          tr_p50_latency_ms = p50, tr_p95_latency_ms = p95, tr_p99_latency_ms = p99,
          tr_outcome_counts = sorted_counts (map ob_status observations),
          tr_total_attempts = sum_list (map ob_attempts observations),
          tr_total_conflicts = sum_list (map ob_conflicts observations),
          tr_invariant_valid = (violations = []), tr_invariant_violations = violations,
          tr_requests = observations\<rparr>)))))"

lemma sorted_counts_total: "sum_list (map snd (sorted_counts xs)) = length xs"
proof -
  have "sum_list (map (\<lambda>s. length (filter (\<lambda>x. x = s) xs)) (sort (remdups xs))) =
      (\<Sum>s \<in> set xs. length (filter (\<lambda>x. x = s) xs))"
    by (subst sum_list_distinct_conv_sum_set) simp_all
  also have "\<dots> = length xs"
    using sum_count_set [of xs "set xs"] by (simp add: count_list_eq_length_filter eq_commute)
  finally show ?thesis by (simp add: sorted_counts_def comp_def)
qed

end
