(* ===== verification/Wire.thy ===== *)
theory Wire
  imports Api Py_Numbers
begin

section \<open>The wire format\<close>

text \<open>
  JSON bodies of requests and responses: the part of \<^verbatim>\<open>src/src/bidding/api/schemas.py\<close> that
  says which keys a body has, and what the handlers of \<^verbatim>\<open>api/routes.py\<close> put into a response.
  Three conversions belong to pydantic and are parameters: \<open>uuid_of\<close> and \<open>time_of\<close>, what it
  makes of a JSON value for a \<open>UUID\<close> and for a \<open>datetime\<close>, and \<open>isoformat\<close>, the text it writes for
  a \<open>datetime\<close>.
\<close>

datatype json =
    JNull
  | JBool bool
  | JInt int
  | JFloat py_float
  | JText string
  | JList "json list"
  | JObject "(string \<times> json) list"

text \<open>Of equal keys in an object the last one counts.\<close>

definition field :: "string \<Rightarrow> (string \<times> json) list \<Rightarrow> json option" where
  "field key entries = map_of (rev entries) key"

subsection \<open>Identifiers as texts\<close>

primrec hex_digits :: "nat \<Rightarrow> nat \<Rightarrow> string" where
  "hex_digits 0 v = []"
| "hex_digits (Suc k) v = hex_digits k (v div 16) @ [''0123456789abcdef'' ! (v mod 16)]"

text \<open>\<open>str(uuid)\<close>\<close>

definition py_str_uuid :: "uuid \<Rightarrow> string" where
  "py_str_uuid u =
     (let h = hex_digits 32 u in
      take 8 h @ ''-'' @ take 4 (drop 8 h) @ ''-'' @ take 4 (drop 12 h) @ ''-'' @
      take 4 (drop 16 h) @ ''-'' @ drop 20 h)"

text \<open>\<open>UUID(text)\<close>, on texts of hexadecimal digits and hyphens.\<close>

definition hex_value :: "char \<Rightarrow> nat option" where
  "hex_value c =
     (let n = (of_char c :: nat) in
      if 48 \<le> n \<and> n \<le> 57 then Some (n - 48)
      else if 97 \<le> n \<and> n \<le> 102 then Some (n - 87)
      else if 65 \<le> n \<and> n \<le> 70 then Some (n - 55)
      else None)"

primrec hex_number :: "nat \<Rightarrow> string \<Rightarrow> nat option" where
  "hex_number v [] = Some v"
| "hex_number v (c # cs) =
     (case hex_value c of None \<Rightarrow> None | Some d \<Rightarrow> hex_number (16 * v + d) cs)"

definition py_uuid :: "string \<Rightarrow> uuid option" where
  "py_uuid s =
     (let h = filter (\<lambda>c. c \<noteq> CHR ''-'') s in
      if length h = 32 then hex_number 0 h else None)"

subsection \<open>Request bodies\<close>

text \<open>What pydantic is given for a strict \<open>str\<close> and a strict \<open>int\<close>.\<close>

fun text_value :: "json \<Rightarrow> py_text" where
  "text_value (JText s) = PyText s"
| "text_value j = PyNotText"

fun int_value :: "json \<Rightarrow> py_value" where
  "int_value (JInt v) = PyInt v"
| "int_value (JBool b) = PyBool b"
| "int_value j = PyOther"

text \<open>\<open>StrictSchema\<close>: an object with the fields of the schema and no others.\<close>

definition strict_schema :: "string list \<Rightarrow> json \<Rightarrow> invalid_request + (string \<Rightarrow> json)" where
  "strict_schema names body =
     (case body of
        JObject entries \<Rightarrow>
          (case filter (\<lambda>x. fst x \<notin> set names) entries of
             x # xs \<Rightarrow> Inl (Extra_Field (fst x))
           | [] \<Rightarrow>
               (case filter (\<lambda>name. field name entries = None) names of
                  name # ns \<Rightarrow> Inl (Missing_Field name)
                | [] \<Rightarrow> Inr (\<lambda>name. the (field name entries))))
      | _ \<Rightarrow> Inl Not_An_Object)"

definition time_field ::
    "(json \<Rightarrow> py_datetime option) \<Rightarrow> string \<Rightarrow> json \<Rightarrow> invalid_request + py_datetime" where
  "time_field time_of name j =
     (case time_of j of None \<Rightarrow> Inl (Field_Invalid name) | Some t \<Rightarrow> Inr t)"

definition create_auction_body ::
    "(json \<Rightarrow> py_datetime option) \<Rightarrow> json \<Rightarrow> invalid_request + create_auction_request" where
  "create_auction_body time_of body =
     and_then
       (strict_schema
         [''title'', ''starting_price_cents'', ''minimum_increment_cents'', ''starts_at'', ''ends_at'']
         body) (\<lambda>get.
     and_then (time_field time_of ''starts_at'' (get ''starts_at'')) (\<lambda>starts.
     and_then (time_field time_of ''ends_at'' (get ''ends_at'')) (\<lambda>ends.
     parse_create_auction (text_value (get ''title'')) (int_value (get ''starting_price_cents''))
       (int_value (get ''minimum_increment_cents'')) starts ends)))"

definition place_bid_body ::
    "(json \<Rightarrow> uuid option) \<Rightarrow> json \<Rightarrow> invalid_request + place_bid_request" where
  "place_bid_body uuid_of body =
     and_then (strict_schema [''request_id'', ''bidder_id'', ''amount_cents''] body) (\<lambda>get.
     case uuid_of (get ''request_id'') of
       None \<Rightarrow> Inl (Field_Invalid ''request_id'')
     | Some request \<Rightarrow>
         parse_place_bid request (text_value (get ''bidder_id'')) (int_value (get ''amount_cents'')))"

subsection \<open>Response bodies\<close>

definition uuid_json :: "uuid \<Rightarrow> json" where
  "uuid_json u = JText (py_str_uuid u)"

definition optional :: "('a \<Rightarrow> json) \<Rightarrow> 'a option \<Rightarrow> json" where
  "optional f x = (case x of None \<Rightarrow> JNull | Some y \<Rightarrow> f y)"

definition auction_json :: "(instant \<Rightarrow> string) \<Rightarrow> auction_response \<Rightarrow> json" where
  "auction_json isoformat a =
     JObject
       [(''id'', uuid_json (rs_id a)), (''title'', JText (rs_title a)),
        (''starting_price_cents'', JInt (rs_starting_price_cents a)),
        (''current_price_cents'', optional JInt (rs_current_price_cents a)),
        (''minimum_increment_cents'', JInt (rs_minimum_increment_cents a)),
        (''winning_bid_id'', optional uuid_json (rs_winning_bid_id a)),
        (''version'', JInt (rs_version a)), (''starts_at'', JText (isoformat (rs_starts_at a))),
        (''ends_at'', JText (isoformat (rs_ends_at a))), (''created_at'', JText (isoformat (rs_created_at a)))]"

definition bid_json :: "(instant \<Rightarrow> string) \<Rightarrow> bid_response \<Rightarrow> json" where
  "bid_json isoformat b =
     JObject
       [(''id'', uuid_json (bs_id b)), (''request_id'', uuid_json (bs_request_id b)),
        (''auction_id'', uuid_json (bs_auction_id b)), (''bidder_id'', JText (bs_bidder_id b)),
        (''amount_cents'', JInt (bs_amount_cents b)),
        (''auction_version'', JInt (bs_auction_version b)),
        (''accepted_at'', JText (isoformat (bs_accepted_at b)))]"

definition placement_json :: "(instant \<Rightarrow> string) \<Rightarrow> placement_response \<Rightarrow> json" where
  "placement_json isoformat r =
     JObject
       [(''status'', JText (status_value (pr_status r))), (''bid'', bid_json isoformat (pr_bid r)),
        (''attempts'', JInt (pr_attempts r)), (''conflicts'', JInt (pr_conflicts r))]"

definition event_json :: "(instant \<Rightarrow> string) \<Rightarrow> state_event \<Rightarrow> json" where
  "event_json isoformat ev =
     JObject
       [(''type'', JText (ev_type ev)), (''auction_id'', uuid_json (ev_auction_id ev)),
        (''version'', JInt (ev_version ev)), (''bid'', bid_json isoformat (ev_bid ev))]"

text \<open>The body of a response; an \<open>HTTPException\<close> is answered by its \<open>detail\<close>.\<close>

fun response_json :: "(instant \<Rightarrow> string) \<Rightarrow> http_response \<Rightarrow> json" where
  "response_json isoformat (Health_Response setting) =
     JObject [(''status'', JText ''ok''), (''bid_strategy'', JText setting)]"
| "response_json isoformat (Auction_Response status a) = auction_json isoformat a"
| "response_json isoformat (Bid_List_Response bs) = JList (map (bid_json isoformat) bs)"
| "response_json isoformat (Placement_Response r) = placement_json isoformat r"
| "response_json isoformat (Error_Response status reason least retry_after) =
     JObject
       [(''detail'',
         JObject ((''reason'', JText reason) #
           (case least of None \<Rightarrow> [] | Some m \<Rightarrow> [(''minimum_acceptable_cents'', JInt m)])))]"

subsection \<open>Printing and reading identifiers\<close>

lemma hex_digits_length [simp]: "length (hex_digits k v) = k"
  by (induction k arbitrary: v) simp_all

lemma hex_digit_cases:
  "\<forall>d \<in> set [0..<16]. hex_value (''0123456789abcdef'' ! d) = Some d \<and>
     \<not> py_space (''0123456789abcdef'' ! d) \<and> ''0123456789abcdef'' ! d \<noteq> CHR ''-''"
  by code_simp

lemma hex_digit [simp]:
  "hex_value (''0123456789abcdef'' ! (v mod 16)) = Some (v mod 16)"
  "\<not> py_space (''0123456789abcdef'' ! (v mod 16))"
  "''0123456789abcdef'' ! (v mod 16) \<noteq> CHR ''-''"
  using hex_digit_cases by simp_all

lemma hex_digits_plain: "\<forall>c \<in> set (hex_digits k v). \<not> py_space c \<and> c \<noteq> CHR ''-''"
  by (induction k arbitrary: v) simp_all

lemma hex_number_append:
  "hex_number v (s @ t) = (case hex_number v s of None \<Rightarrow> None | Some w \<Rightarrow> hex_number w t)"
  by (induction s arbitrary: v) (auto split: option.split)

lemma hex_number_digits: "hex_number a (hex_digits k v) = Some (a * 16 ^ k + v mod 16 ^ k)"
proof (induction k arbitrary: v)
  case (Suc k)
  have "v mod 16 ^ Suc k = 16 * (v div 16 mod 16 ^ k) + v mod 16"
    by (simp add: mod_mult2_eq)
  with Suc.IH [of "v div 16"] show ?case by (simp add: hex_number_append algebra_simps)
qed simp

lemma take_then_drop: "take m (drop n h) @ drop (m + n) h = drop n h"
  by (metis append_take_drop_id drop_drop)

lemma py_uuid_str:
  assumes "u < 2 ^ 128"
  shows "py_uuid (py_str_uuid u) = Some u"
proof -
  let ?h = "hex_digits 32 u"
  have plain: "filter (\<lambda>c. c \<noteq> CHR ''-'') s = s" if "set s \<subseteq> set ?h" for s
    using that hex_digits_plain by (intro filter_True) blast
  have sub: "set (take m (drop n ?h)) \<subseteq> set ?h" "set (drop n ?h) \<subseteq> set ?h" "set (take m ?h) \<subseteq> set ?h"
    for m n
    using set_take_subset set_drop_subset by fast+
  have "filter (\<lambda>c. c \<noteq> CHR ''-'') (py_str_uuid u) = ?h"
    using append_take_drop_id [of 8 ?h] take_then_drop [of 4 8 ?h] take_then_drop [of 4 12 ?h]
      take_then_drop [of 4 16 ?h]
    by (simp add: py_str_uuid_def Let_def plain [OF sub(1)] plain [OF sub(2)] plain [OF sub(3)])
  moreover have "hex_number 0 ?h = Some u"
    using hex_number_digits [of 0 32 u] assms by simp
  ultimately show ?thesis by (simp add: py_uuid_def)
qed

end
