(* ===== verification/Benchmark.thy ===== *)
theory Benchmark
  imports Measures Wire Sequential
begin

section \<open>The benchmark\<close>

text \<open>
  \<^verbatim>\<open>src/src/bidding/benchmark/runner.py\<close>. \<open>random.Random(seed).shuffle\<close> is the argument \<open>shuffle\<close>, the machine's clock the arguments
  \<open>now\<close> and \<open>latency\<close>.
\<close>

subsection \<open>Workloads\<close>

definition WORKLOADS :: "string list" where
  "WORKLOADS = [''same_price'', ''unique_prices'', ''low_contention'']"

text \<open>\<open>TRUNCATE TABLE bids, auctions CASCADE\<close>\<close>

definition reset_experiment_data :: "db \<Rightarrow> db" where
  "reset_experiment_data d = d\<lparr>auctions := Map.empty, bids := []\<rparr>"

definition seed_auction :: "instant \<Rightarrow> auction_snapshot prog" where
  "seed_auction now =
     prog_bind (query Uuid4 reply_uuid) (\<lambda>u.
     repo_create (''Benchmark auction '' @ py_str_uuid u) 10000 100
       (now - 60 * 1000000) (now + 30 * 60 * 1000000) None)"

primrec seed_auctions :: "nat \<Rightarrow> instant \<Rightarrow> auction_snapshot list prog" where
  "seed_auctions 0 now = Ret []"
| "seed_auctions (Suc n) now =
     prog_bind (seed_auction now) (\<lambda>auction.
     prog_bind (seed_auctions n now) (\<lambda>auctions. Ret (auction # auctions)))"

text \<open>The commands, bidder \<open>index\<close> onwards, for pairs of an auction and an amount.\<close>

primrec seed_bids :: "nat \<Rightarrow> (uuid \<times> cents) list \<Rightarrow> bid_command list prog" where
  "seed_bids index [] = Ret []"
| "seed_bids index (x # xs) =
     prog_bind (query Uuid4 reply_uuid) (\<lambda>u.
     prog_bind
       (of_py (make_bid_command u (fst x) (''bidder-'' @ py_str_nat index) (PyInt (snd x)))) (\<lambda>command.
     prog_bind (seed_bids (Suc index) xs) (\<lambda>commands. Ret (command # commands))))"

definition seed_commands ::
    "string \<Rightarrow> int \<Rightarrow> (int list \<Rightarrow> int list) \<Rightarrow> instant \<Rightarrow> (bid_command list \<times> uuid list) prog" where
  "seed_commands workload request_count shuffle now =
     prog_bind
       (of_py (raise_if (\<not> list_ex (\<lambda>w. w = workload) WORKLOADS)
         (ValueError (''unknown workload: '' @ workload)))) (\<lambda>_.
     prog_bind
       (of_py (raise_if (request_count \<le> 0) (ValueError ''request_count must be positive''))) (\<lambda>_.
     if workload = ''low_contention'' then
       prog_bind (seed_auctions (nat request_count) now) (\<lambda>auctions.
       prog_bind (seed_bids 0 (map (\<lambda>a. (au_id a, 10000)) auctions)) (\<lambda>commands.
       Ret (commands, map au_id auctions)))
     else
       prog_bind (seed_auction now) (\<lambda>auction.
       let amounts =
             (if workload = ''same_price'' then replicate (nat request_count) 10000
              else shuffle (map (\<lambda>i. 10000 + int i * 100) [0..<nat request_count])) in
       prog_bind (seed_bids 0 (map (\<lambda>amount. (au_id auction, amount)) amounts)) (\<lambda>commands.
       Ret (commands, [au_id auction])))))"

subsection \<open>Observations\<close>

text \<open>\<open>type(exc).__name__\<close>\<close>

primrec sql_error_name :: "sql_error \<Rightarrow> string" where
  "sql_error_name UniqueViolation = ''UniqueViolation''"
| "sql_error_name CheckViolation = ''CheckViolation''"
| "sql_error_name ForeignKeyViolation = ''ForeignKeyViolation''"
| "sql_error_name NumericValueOutOfRange = ''NumericValueOutOfRange''"
| "sql_error_name LockNotAvailable = ''LockNotAvailable''"
| "sql_error_name QueryCanceled = ''QueryCanceled''"
| "sql_error_name DeadlockDetected = ''DeadlockDetected''"
| "sql_error_name InFailedSqlTransaction = ''InFailedSqlTransaction''"
| "sql_error_name PoolTimeout = ''PoolTimeout''"
| "sql_error_name OperationalError = ''OperationalError''"

primrec exception_name :: "py_exn \<Rightarrow> string" where
  "exception_name (TypeError m) = ''TypeError''"
| "exception_name (ValueError m) = ''ValueError''"
| "exception_name (OverflowError m) = ''OverflowError''"
| "exception_name (RuntimeError m) = ''RuntimeError''"
| "exception_name AssertionError = ''AssertionError''"
| "exception_name ZeroDivisionError = ''ZeroDivisionError''"
| "exception_name (IndexError m) = ''IndexError''"
| "exception_name (KeyError m) = ''KeyError''"
| "exception_name (StatisticsError m) = ''StatisticsError''"
| "exception_name (AttributeError m) = ''AttributeError''"
| "exception_name (HttpError name) = name"
| "exception_name (StrategyBusyError m) = ''StrategyBusyError''"
| "exception_name (OptimisticMiss v) = ''_OptimisticMiss''"
| "exception_name (SqlError e) = sql_error_name e"

text \<open>The function \<open>execute\<close> of \<open>run_trial\<close>, given how \<open>place_bid\<close> ended.\<close>

definition observe :: "nat \<Rightarrow> bid_command \<Rightarrow> int \<Rightarrow> bid_outcome py \<Rightarrow> request_observation" where
  "observe index command latency result =
     (let (status, reason, attempts, conflicts) =
            (case result of
               Inr outcome \<Rightarrow>
                 (status_value (out_status outcome),
                  map_option rejection_value (out_rejection_reason outcome),
                  out_attempts outcome, out_conflicts outcome)
             | Inl e \<Rightarrow> (''system_error'', Some (exception_name e), 1, 0)) in
      \<lparr>ob_request_index = index, ob_auction_id = cmd_auction_id command,
       ob_amount_cents = cmd_amount_cents command, ob_latency_ns = latency, ob_status = status,
       ob_reason = reason, ob_attempts = attempts, ob_conflicts = conflicts\<rparr>)"

subsection \<open>The verdict on a trial\<close>

text \<open>The loop over the auctions after the load; each check is a call on its own connection.\<close>

primrec audit :: "uuid list \<Rightarrow> instant \<Rightarrow> uuid \<Rightarrow> db \<Rightarrow> violation list py" where
  "audit [] now u d = Inr []"
| "audit (a # as) now u d =
     (case run_alone (check_auction_invariants a) now u d of
        (Some (Inr report), d') \<Rightarrow>
          py_bind (audit as now u d') (\<lambda>vs. Inr (ir_violations report @ vs))
      | (Some (Inl e), d') \<Rightarrow> Inl e
      | (None, d') \<Rightarrow> Inl AssertionError)"

text \<open>
  What \<open>run_trial\<close> makes of a load: \<open>results\<close> and \<open>latencies\<close> of the commands in their order,
  and the database the load has left.
\<close>

definition trial_summary ::
    "string \<Rightarrow> string \<Rightarrow> int \<Rightarrow> int \<Rightarrow> int \<Rightarrow> bid_command list \<Rightarrow> uuid list \<Rightarrow>
     bid_outcome py list \<Rightarrow> int list \<Rightarrow> instant \<Rightarrow> uuid \<Rightarrow> db \<Rightarrow> violation trial_result py" where
  "trial_summary strategy workload concurrency repetition wall_time commands auction_ids
       outcomes latencies now u d =
     py_bind (audit auction_ids now u d) (\<lambda>violations.
     summarize strategy workload concurrency repetition wall_time
       (map (\<lambda>i. observe i (commands ! i) (latencies ! i) (outcomes ! i)) [0..<length commands])
       violations)"

end
