(* ===== verification/Report.thy ===== *)
theory Report
  imports Measures "HOL-Library.Product_Lexorder"
begin

section \<open>The report of the benchmark\<close>

text \<open>
  \<^verbatim>\<open>src/src/bidding/benchmark/report.py\<close>: \<open>render_markdown\<close> on the documents that the two benchmarks
  write, that is, on trials as \<open>TrialResult.to_dict\<close> gives them. \<open>statistics.median\<close> and
  \<open>statistics.quantiles\<close> are those of Python 3.11, the version of the \<^verbatim>\<open>Dockerfile\<close>, and the format
  specifications \<open>.1f\<close>, \<open>.2f\<close> and \<open>g\<close> round to even. Files and arguments are left out.
\<close>

subsection \<open>Arithmetic and comparison of doubles\<close>

definition round_double :: "int \<Rightarrow> int \<Rightarrow> py_float" where
  "round_double m e =
     (if m < 0 then negated (nearest_double (numerator (- m) e) (denominator e))
      else nearest_double (numerator m e) (denominator e))"

fun float_plus :: "py_float \<Rightarrow> py_float \<Rightarrow> py_float" where
  "float_plus (Finite m e) (Finite n f) =
     (let g = min e f in round_double (m * 2 ^ nat (e - g) + n * 2 ^ nat (f - g)) g)"
| "float_plus (Infinite s) (Infinite t) = (if s = t then Infinite s else NaN)"
| "float_plus (Infinite s) (Finite n f) = Infinite s"
| "float_plus (Finite m e) (Infinite t) = Infinite t"
| "float_plus x y = NaN"

text \<open>\<open>sorted\<close>, \<open>min\<close> and \<open>max\<close> compare with \<open><\<close> only.\<close>

primrec insert_float :: "py_float \<Rightarrow> py_float list \<Rightarrow> py_float list" where
  "insert_float x [] = [x]"
| "insert_float x (y # ys) = (if y < x then y # insert_float x ys else x # y # ys)"

definition sorted_floats :: "py_float list \<Rightarrow> py_float list" where
  "sorted_floats xs = foldr insert_float xs []"

definition least_float :: "py_float list \<Rightarrow> py_float" where
  "least_float xs = foldl (\<lambda>x y. if y < x then y else x) (hd xs) (tl xs)"

definition greatest_float :: "py_float list \<Rightarrow> py_float" where
  "greatest_float xs = foldl (\<lambda>x y. if x < y then y else x) (hd xs) (tl xs)"

subsection \<open>Statistics\<close>

text \<open>\<open>median\<close> of floats, and of integers, whose result is only printed as a float\<close>

definition median_float :: "py_float list \<Rightarrow> py_float py" where
  "median_float data =
     (let xs = sorted_floats data; n = length xs in
      if n = 0 then Inl (StatisticsError ''no median for empty data'')
      else if n mod 2 = 1 then Inr (xs ! (n div 2))
      else float_divide (float_plus (xs ! (n div 2 - 1)) (xs ! (n div 2))) (float_of_int 2))"

definition median_int :: "int list \<Rightarrow> py_float py" where
  "median_int data =
     (let xs = sort data; n = length xs in
      if n = 0 then Inl (StatisticsError ''no median for empty data'')
      else if n mod 2 = 1 then Inr (float_of_int (xs ! (n div 2)))
      else true_divide (xs ! (n div 2 - 1) + xs ! (n div 2)) 2)"

text \<open>\<open>quantiles(data, n=4, method="inclusive")\<close>\<close>

definition quantile :: "py_float list \<Rightarrow> nat \<Rightarrow> py_float py" where
  "quantile xs i =
     (let k = i * (length xs - 1); j = k div 4; delta = k mod 4 in
      float_divide
        (float_plus (float_times (xs ! j) (float_of_int (int (4 - delta))))
           (float_times (xs ! Suc j) (float_of_int (int delta))))
        (float_of_int 4))"

definition quartiles :: "py_float list \<Rightarrow> py_float list py" where
  "quartiles data =
     (let xs = sorted_floats data in
      if length xs < 2 then Inl (StatisticsError ''must have at least two data points'')
      else py_map (quantile xs) [1, 2, 3])"

subsection \<open>Format specifications\<close>

text \<open>\<open>str\<close> of a natural number, computed over \<open>int\<close>.\<close>

function int_digits :: "int \<Rightarrow> string" where
  "int_digits v =
     (if v < 10 then [digit_char (nat v)] else int_digits (v div 10) @ [digit_char (nat (v mod 10))])"
  by pat_completeness auto

termination int_digits
  by (relation "measure nat") auto

declare int_digits.simps [simp del]

definition pad_zeros :: "nat \<Rightarrow> string \<Rightarrow> string" where
  "pad_zeros n s = replicate (n - length s) CHR ''0'' @ s"

text \<open>The digits of \<open>v / 10 ^ k\<close>.\<close>

definition decimal_digits :: "nat \<Rightarrow> int \<Rightarrow> string" where
  "decimal_digits k v =
     (let s = pad_zeros (Suc k) (int_digits v); n = length s - k in
      if k = 0 then s else take n s @ ''.'' @ drop n s)"

fun format_special :: "bool \<Rightarrow> string" where
  "format_special negative = (if negative then ''-inf'' else ''inf'')"

text \<open>\<open>f"{x:.kf}"\<close>\<close>

fun format_fixed :: "nat \<Rightarrow> py_float \<Rightarrow> string" where
  "format_fixed k NaN = ''nan''"
| "format_fixed k (Infinite negative) = format_special negative"
| "format_fixed k (Finite m e) =
     (if m < 0 then ''-'' else []) @
     decimal_digits k (nearest (numerator (\<bar>m\<bar> * 10 ^ k) e) (denominator e))"

text \<open>The decimal exponent of \<open>p / q\<close>.\<close>

definition decimal_exponent :: "int \<Rightarrow> int \<Rightarrow> int" where
  "decimal_exponent p q =
     (if q \<le> p then int (length (int_digits (p div q))) - 1
      else - int (length (int_digits ((q + p - 1) div p - 1))))"

definition strip_fraction :: "string \<Rightarrow> string" where
  "strip_fraction s =
     (if list_ex (\<lambda>c. c = CHR ''.'') s
      then (let t = rev (dropWhile (\<lambda>c. c = CHR ''0'') (rev s)) in
            if last t = CHR ''.'' then butlast t else t)
      else s)"

text \<open>\<open>f"{x:g}"\<close>: six significant digits, without the zeros at the end\<close>

definition general_digits :: "int \<Rightarrow> int \<Rightarrow> string" where
  "general_digits p q =
     (let x = decimal_exponent p q;
          v = nearest (p * 10 ^ nat (5 - x)) (q * 10 ^ nat (x - 5));
          up = (v = 10 ^ 6); exponent = (if up then x + 1 else x);
          digits = (if up then 10 ^ 5 else v) in
      if - 4 \<le> exponent \<and> exponent < 6
      then strip_fraction (decimal_digits (nat (5 - exponent)) digits)
      else strip_fraction (decimal_digits 5 digits) @ ''e'' @
           (if exponent < 0 then ''-'' else ''+'') @ pad_zeros 2 (int_digits \<bar>exponent\<bar>))"

fun format_general :: "py_float \<Rightarrow> string" where
  "format_general NaN = ''nan''"
| "format_general (Infinite negative) = format_special negative"
| "format_general (Finite m e) =
     (if m < 0 then ''-'' else []) @
     (if m = 0 then ''0'' else general_digits (numerator \<bar>m\<bar> e) (denominator e))"

subsection \<open>The rows\<close>

type_synonym group_key = "string \<times> string \<times> int"

definition group_key :: "'v trial_result \<Rightarrow> group_key" where
  "group_key t = (tr_strategy t, tr_workload t, tr_concurrency t)"

text \<open>The loop that fills \<open>grouped\<close>, and \<open>sorted(grouped.items())\<close>, whose keys are distinct\<close>

definition grouped :: "'v trial_result list \<Rightarrow> (group_key \<times> 'v trial_result list) list" where
  "grouped trials =
     map (\<lambda>k. (k, filter (\<lambda>t. group_key t = k) trials)) (sort (remdups (map group_key trials)))"

text \<open>\<open>trial["outcome_counts"].get(status, 0)\<close>\<close>

definition outcome_count :: "string \<Rightarrow> 'v trial_result \<Rightarrow> int" where
  "outcome_count status t =
     (case map_of (tr_outcome_counts t) status of None \<Rightarrow> 0 | Some n \<Rightarrow> int n)"

definition report_row :: "group_key \<Rightarrow> 'v trial_result list \<Rightarrow> string py" where
  "report_row key ts =
     py_bind (median_float (map tr_throughput ts)) (\<lambda>throughput.
     py_bind (median_float (map tr_p50_latency_ms ts)) (\<lambda>p50.
     py_bind (median_float (map tr_p95_latency_ms ts)) (\<lambda>p95.
     py_bind (median_float (map tr_p99_latency_ms ts)) (\<lambda>p99.
     let throughput_values = map tr_throughput ts; p95_values = map tr_p95_latency_ms ts in
     py_bind (quartiles throughput_values) (\<lambda>throughput_quartiles.
     py_bind (quartiles p95_values) (\<lambda>p95_quartiles.
     py_bind (median_int (map (outcome_count ''accepted'') ts)) (\<lambda>accepted.
     py_bind (median_int (map tr_total_conflicts ts)) (\<lambda>conflicts.
     let system_errors = sum_list (map (outcome_count ''system_error'') ts);
         valid_count = length (filter tr_invariant_valid ts) in
     Inr (''| '' @ fst key @ '' | '' @ fst (snd key) @ '' | '' @ py_str_int (snd (snd key)) @ '' | '' @
       format_fixed 1 throughput @ '' | '' @
       format_fixed 1 (throughput_quartiles ! 0) @ ''-'' @ format_fixed 1 (throughput_quartiles ! 2) @ '' | '' @
       format_fixed 1 (least_float throughput_values) @ ''-'' @
       format_fixed 1 (greatest_float throughput_values) @ '' | '' @
       format_fixed 2 p50 @ '' | '' @ format_fixed 2 p95 @ '' | '' @
       format_fixed 2 (p95_quartiles ! 0) @ ''-'' @ format_fixed 2 (p95_quartiles ! 2) @ '' | '' @
       format_fixed 2 (least_float p95_values) @ ''-'' @ format_fixed 2 (greatest_float p95_values) @ '' | '' @
       format_fixed 2 p99 @ '' | '' @ format_general accepted @ '' | '' @ format_general conflicts @ '' | '' @
       py_str_int system_errors @ '' | '' @
       py_str_nat valid_count @ ''/'' @ py_str_nat (length ts) @ '' |'')))))))))"

subsection \<open>The document\<close>

text \<open>
  The metadata, with \<open>None\<close> for a key that is absent: \<open>mode\<close> and \<open>request_observations\<close> of the
  configuration, and the two values of the source, which the HTTP benchmark does not record.
\<close>

record report_metadata =
  me_recorded_at :: string
  me_platform :: string
  me_postgresql_version :: string
  me_mode :: "string option"
  me_request_observations :: "string option"
  me_git_commit :: "string option"
  me_git_dirty :: "bool option"

definition or_else :: "'a option \<Rightarrow> 'a \<Rightarrow> 'a" where
  "or_else x fallback = (case x of None \<Rightarrow> fallback | Some y \<Rightarrow> y)"

definition py_str_dirty :: "bool option \<Rightarrow> string" where
  "py_str_dirty x = (case x of None \<Rightarrow> ''None'' | Some b \<Rightarrow> if b then ''True'' else ''False'')"

definition quoted :: "string \<Rightarrow> string" where
  "quoted s = ''`'' @ s @ ''`''"

definition report_head :: "report_metadata \<Rightarrow> string \<Rightarrow> string list" where
  "report_head meta source_name =
     (let observations = or_else (me_request_observations meta) ''preserved'';
          source_label = (if observations = ''omitted'' then ''Summary source'' else ''Raw source'');
          commit = or_else (me_git_commit meta) [] in
      [''# Benchmark Results'', [], source_label @ '': '' @ quoted source_name, [],
       ''Recorded at: '' @ me_recorded_at meta, [],
       ''Platform: '' @ quoted (me_platform meta), [],
       ''PostgreSQL: '' @ quoted (me_postgresql_version meta), [],
       ''Git commit: '' @ quoted (if commit = [] then ''unavailable'' else commit) @
         '' (dirty: '' @ quoted (py_str_dirty (me_git_dirty meta)) @ '')'', [],
       ''All values below are medians across the recorded repetitions. '' @
         ''IQR is the inclusive 25th-75th percentile interval. Correctness reports '' @
         ''how many trials passed the invariant checker.'', [],
       ''| Strategy | Workload | Concurrency | Median throughput (req/s) | '' @
         ''Throughput IQR | Throughput range | p50 (ms) | Median p95 (ms) | '' @
         ''p95 IQR | p95 range | '' @
         ''p99 (ms) | Accepted | Conflicts | System errors | Correct trials |'',
       ''| --- | --- | ---: | ---: | ---: | ---: | ---: | ---: | ---: | '' @
         ''---: | ---: | ---: | ---: | ---: | ---: |''])"

definition report_limits :: "report_metadata \<Rightarrow> 'v trial_result list \<Rightarrow> string list" where
  "report_limits meta trials =
     (let mode = or_else (me_mode meta) ''repository'';
          observations = or_else (me_request_observations meta) ''preserved'' in
      [[], ''## Interpretation limits'', [],
       ''- Results describe this machine, configuration, dataset, and workload; '' @
         ''they are not production-capacity claims.''] @
      (if observations = ''omitted'' then
         [''- Per-request observations were omitted; the source preserves '' @
          ''per-trial summaries, outcomes, errors, conflicts, and invariant results.'']
       else []) @
      (if mode = ''http'' then
         [''- These end-to-end trials include HTTP, JSON validation, application '' @
          ''thread-pool, connection-pool, and PostgreSQL time.'',
          ''- This dataset measures only the strategy named in the report; use the '' @
          ''repository experiment for controlled cross-strategy comparison.'']
       else if list_ex (\<lambda>t. tr_strategy t = ''unsafe'') trials then
         [''- The unsafe strategy is a deliberately incorrect experimental baseline. '' @
          ''Its speed is not useful when invariants fail.'']
       else []) @
      (if mode \<noteq> ''http'' then
         [''- Repository-level trials exclude HTTP and JSON overhead. End-to-end HTTP '' @
          ''results are reported separately.'']
       else []) @
      (if list_ex (\<lambda>t. tr_workload t = ''unique_prices'') trials then
         [''- Shuffled absolute bid values can become stale before execution; '' @
          ''consider the accepted counts when interpreting this workload'' @ [CHR 0x27] @ ''s throughput.'']
       else []) @
      [''- No artificial sleep or barrier is present in performance trials; the '' @
       ''deterministic barrier exists only in the correctness test suite.'', []])"

definition report_lines ::
    "report_metadata \<Rightarrow> 'v trial_result list \<Rightarrow> string \<Rightarrow> string list py" where
  "report_lines meta trials source_name =
     py_bind (py_map (\<lambda>item. report_row (fst item) (snd item)) (grouped trials)) (\<lambda>rows.
     Inr (report_head meta source_name @ rows @ report_limits meta trials))"

definition render_markdown ::
    "report_metadata \<Rightarrow> 'v trial_result list \<Rightarrow> string \<Rightarrow> string py" where
  "render_markdown meta trials source_name =
     py_bind (report_lines meta trials source_name) (\<lambda>lines. Inr (py_join [CHR 0x0A] lines))"

end
