(* ===== verification/Runner.thy ===== *)
theory Runner
  imports Benchmark Report Interleaving
begin

section \<open>Running a trial\<close>

text \<open>
  \<open>run_trial\<close> and \<open>run_warmup\<close> of \<^verbatim>\<open>src/src/bidding/benchmark/runner.py\<close>, from the database they find to
  the one they leave. What the machine, the clocks and PostgreSQL do in a trial is the argument
  \<open>w\<close>: how the TRUNCATE ends, the choices at the statements of the seeding, and, for the load, the
  schedule of all statements of all calls on the executable service of \<open>Interleaving\<close>. What a pool of threads
  makes of the commands, at most \<open>concurrency\<close> of them under way at a time, is one of the schedules.
\<close>

record trial_world =
  wo_resetting :: "unit py"
  wo_seed_clock :: instant
  wo_db_clock :: instant
  wo_seed_choices :: "nat \<Rightarrow> choice"
  wo_schedule :: "(nat \<times> choice) list"
  wo_latency :: "nat \<Rightarrow> int"
  wo_wall_time :: int
  wo_audit_clock :: instant
  wo_audit_uuid :: uuid

subsection \<open>The load\<close>

text \<open>Connection \<open>p\<close> places command \<open>p\<close>.\<close>

definition trial_load ::
    "(bid_command \<Rightarrow> bid_outcome prog) \<Rightarrow> bid_command list \<Rightarrow> nat \<Rightarrow> bid_outcome option prog" where
  "trial_load strategy commands p =
     (if p < length commands then prog_bind (strategy (commands ! p)) (\<lambda>x. Ret (Some x)) else Ret None)"

text \<open>How a call has ended, if it has; and how all have, with the database they leave.\<close>

definition load_result :: "bid_outcome option prog \<Rightarrow> bid_outcome py option" where
  "load_result p =
     (case answer p of
        Some (Inr (Some x)) \<Rightarrow> Some (Inr x)
      | Some (Inl e) \<Rightarrow> Some (Inl e)
      | _ \<Rightarrow> None)"

definition connections :: "nat \<Rightarrow> instant \<Rightarrow> db \<Rightarrow> service_state" where
  "connections n t d = \<lparr>sv_store = d, sv_calls = replicate n (idle t)\<rparr>"

definition execute_load ::
    "(nat \<times> choice) list \<Rightarrow> instant \<Rightarrow> (bid_command \<Rightarrow> bid_outcome prog) \<Rightarrow> bid_command list \<Rightarrow> db \<Rightarrow>
     (bid_outcome py list \<times> db) option" where
  "execute_load schedule t strategy commands d =
     (case play service_step schedule (connections (length commands) t d, trial_load strategy commands) of
        None \<Rightarrow> None
      | Some (s, ps) \<Rightarrow>
          map_option (\<lambda>outcomes. (outcomes, sv_store s))
            (those (map (\<lambda>i. load_result (ps i)) [0..<length commands])))"

subsection \<open>A trial\<close>

text \<open>The result is \<open>None\<close> while the schedule leaves a call under way.\<close>

definition run_trial ::
    "trial_world \<Rightarrow> (int \<Rightarrow> int list \<Rightarrow> int list) \<Rightarrow> string \<Rightarrow> string \<Rightarrow> int \<Rightarrow> int \<Rightarrow> int \<Rightarrow> int \<Rightarrow> int \<Rightarrow> db \<Rightarrow>
     (violation trial_result py \<times> db) option" where
  "run_trial w shuffle strategy_name workload concurrency request_count repetition random_seed max_attempts d =
     (if concurrency \<le> 0 then Some (Inl (ValueError ''concurrency must be positive''), d)
      else
        (case wo_resetting w of
           Inl e \<Rightarrow> Some (Inl e, d)
         | Inr _ \<Rightarrow>
             (case run (seed_commands workload request_count (shuffle random_seed) (wo_seed_clock w))
                     (wo_seed_choices w) 0 (reset_experiment_data d) (idle (wo_db_clock w)) of
                (None, d1, l) \<Rightarrow> None
              | (Some (Inl e), d1, l) \<Rightarrow> Some (Inl e, d1)
              | (Some (Inr (commands, auction_ids)), d1, l) \<Rightarrow>
                  (case strategy_from_name strategy_name max_attempts of
                     Inl e \<Rightarrow> Some (Inl e, d1)
                   | Inr strategy \<Rightarrow>
                       (case execute_load (wo_schedule w) (wo_db_clock w) strategy commands d1 of
                          None \<Rightarrow> None
                        | Some (outcomes, d2) \<Rightarrow>
                            Some (trial_summary strategy_name workload concurrency repetition (wo_wall_time w)
                                    commands auction_ids outcomes (map (wo_latency w) [0..<length commands])
                                    (wo_audit_clock w) (wo_audit_uuid w) d2, d2))))))"

definition run_warmup ::
    "trial_world \<Rightarrow> (int \<Rightarrow> int list \<Rightarrow> int list) \<Rightarrow> string \<Rightarrow> int \<Rightarrow> int \<Rightarrow> int \<Rightarrow> int \<Rightarrow> db \<Rightarrow>
     (unit py \<times> db) option" where
  "run_warmup w shuffle strategy_name concurrency request_count random_seed max_attempts d =
     map_option (\<lambda>(result, d'). (map_sum (\<lambda>e. e) (\<lambda>_. ()) result, d'))
       (run_trial w shuffle strategy_name ''low_contention'' concurrency request_count 0 random_seed
          max_attempts d)"

end
