(* ===== verification/Seeding.thy ===== *)
theory Seeding
  imports Benchmark Program_Results "HOL-Library.Multiset"
begin

section \<open>Seeding a workload\<close>

text \<open>
  What \<open>seed_commands\<close> returns, whatever the database replies, and that it does return when
  the database is reachable and \<open>uuid4()\<close> does not repeat itself.
\<close>

subsection \<open>What is returned\<close>

lemma seed_bids_results:
  "results (\<lambda>cs. map cmd_bidder_id cs = map (\<lambda>i. ''bidder-'' @ py_str_nat i) [index..<index + length xs] \<and>
      map (\<lambda>c. (cmd_auction_id c, cmd_amount_cents c)) cs = xs \<and> list_all valid_command cs)
    (\<lambda>e. True) (seed_bids index xs)"
proof (induction xs arbitrary: index)
  case (Cons x xs)
  show ?case
    unfolding seed_bids.simps
  proof (rule results_bindI [OF results_True])
    fix u :: uuid
    show "results (\<lambda>cs. map cmd_bidder_id cs =
        map (\<lambda>i. ''bidder-'' @ py_str_nat i) [index..<index + length (x # xs)] \<and>
        map (\<lambda>c. (cmd_auction_id c, cmd_amount_cents c)) cs = x # xs \<and> list_all valid_command cs)
      (\<lambda>e. True)
      (prog_bind (of_py (make_bid_command u (fst x) (''bidder-'' @ py_str_nat index) (PyInt (snd x))))
        (\<lambda>c. prog_bind (seed_bids (Suc index) xs) (\<lambda>cs. Ret (c # cs))))"
      by (auto simp: results_bind make_bid_command_eq_Inr upt_conv_Cons prod_eq_iff
          simp del: upt_Suc intro!: results_mono [OF Cons.IH [of "Suc index"]])
  qed
qed simp

lemma seed_auctions_results: "results (\<lambda>as. length as = n) (\<lambda>e. True) (seed_auctions n now)"
proof (induction n)
  case (Suc n)
  show ?case
    unfolding seed_auctions.simps
    by (rule results_bindI [OF results_True])
      (simp add: results_bind results_mono [OF Suc.IH])
qed simp

text \<open>The two shapes of a workload.\<close>

definition seed_amounts :: "string \<Rightarrow> int \<Rightarrow> (int list \<Rightarrow> int list) \<Rightarrow> cents list" where
  "seed_amounts workload n shuffle =
     (if workload = ''unique_prices'' then shuffle (map (\<lambda>i. 10000 + 100 * int i) [0..<nat n])
      else replicate (nat n) 10000)"

lemma seed_commands_low:
  assumes "0 < n"
  shows "seed_commands ''low_contention'' n shuffle t =
    prog_bind (seed_auctions (nat n) t) (\<lambda>auctions.
    prog_bind (seed_bids 0 (map (\<lambda>a. (au_id a, 10000)) auctions)) (\<lambda>commands.
    Ret (commands, map au_id auctions)))"
  using assms by (simp add: seed_commands_def raise_if_def WORKLOADS_def)

lemma seed_commands_high:
  assumes "workload \<in> {''same_price'', ''unique_prices''}" "0 < n"
  shows "seed_commands workload n shuffle t =
    prog_bind (seed_auction t) (\<lambda>auction.
    prog_bind (seed_bids 0 (map (\<lambda>amount. (au_id auction, amount)) (seed_amounts workload n shuffle)))
      (\<lambda>commands. Ret (commands, [au_id auction])))"
  using assms
  by (auto simp: seed_commands_def raise_if_def WORKLOADS_def seed_amounts_def Let_def mult.commute)

lemma seed_amounts:
  assumes "\<And>xs. mset (shuffle xs) = mset xs"
  shows "mset (seed_amounts workload n shuffle) =
      mset (if workload = ''unique_prices'' then map (\<lambda>i. 10000 + 100 * int i) [0..<nat n]
        else replicate (nat n) 10000)"
    "length (seed_amounts workload n shuffle) = nat n"
proof -
  show "mset (seed_amounts workload n shuffle) =
      mset (if workload = ''unique_prices'' then map (\<lambda>i. 10000 + 100 * int i) [0..<nat n]
        else replicate (nat n) 10000)"
    using assms by (simp add: seed_amounts_def)
  from mset_eq_length [OF this] show "length (seed_amounts workload n shuffle) = nat n" by simp
qed

lemma bids_split:
  assumes "map (\<lambda>c. (cmd_auction_id c, cmd_amount_cents c)) cs = xs"
  shows "map cmd_auction_id cs = map fst xs \<and> map cmd_amount_cents cs = map snd xs"
  using assms by (auto simp: comp_def)

text \<open>The shape of what is seeded.\<close>

definition seeded :: "string \<Rightarrow> int \<Rightarrow> bid_command list \<Rightarrow> uuid list \<Rightarrow> bool" where
  "seeded workload n commands ids \<longleftrightarrow>
     list_all valid_command commands \<and>
     map cmd_bidder_id commands = map (\<lambda>i. ''bidder-'' @ py_str_nat i) [0..<nat n] \<and>
     (if workload = ''low_contention'' then map cmd_auction_id commands = ids
      else \<exists>a. ids = [a] \<and> map cmd_auction_id commands = replicate (nat n) a) \<and>
     mset (map cmd_amount_cents commands) =
       mset (if workload = ''unique_prices'' then map (\<lambda>i. 10000 + 100 * int i) [0..<nat n]
         else replicate (nat n) 10000)"

lemma seed_commands_results:
  assumes "\<And>xs. mset (shuffle xs) = mset xs"
  shows "results (\<lambda>(commands, ids). workload \<in> set WORKLOADS \<and> 0 < n \<and> seeded workload n commands ids)
    (\<lambda>e. True) (seed_commands workload n shuffle t)"
proof (cases "workload \<in> set WORKLOADS \<and> 0 < n")
  case False
  then show ?thesis
    by (auto simp: seed_commands_def raise_if_def list_ex_iff results_bind)
next
  case True
  then consider "workload = ''low_contention''" | "workload \<in> {''same_price'', ''unique_prices''}"
    by (auto simp: WORKLOADS_def)
  then show ?thesis
  proof cases
    case 1
    have "results (\<lambda>(commands, ids). seeded ''low_contention'' n commands ids) (\<lambda>e. True)
        (seed_commands ''low_contention'' n shuffle t)"
      unfolding seed_commands_low [OF conjunct2 [OF True]]
      by (rule results_bindI [OF seed_auctions_results], rule results_bindI [OF seed_bids_results])
        (auto dest!: bids_split simp: seeded_def comp_def map_replicate_const simp del: mset_map)
    then show ?thesis using True 1 by simp
  next
    case 2
    have "results (\<lambda>(commands, ids). \<exists>a. ids = [a] \<and> list_all valid_command commands \<and>
        map cmd_bidder_id commands = map (\<lambda>i. ''bidder-'' @ py_str_nat i) [0..<nat n] \<and>
        map cmd_auction_id commands = replicate (nat n) a \<and>
        map cmd_amount_cents commands = seed_amounts workload n shuffle)
      (\<lambda>e. True) (seed_commands workload n shuffle t)"
      unfolding seed_commands_high [OF 2 conjunct2 [OF True]]
      by (rule results_bindI [OF results_True], rule results_bindI [OF seed_bids_results])
        (auto dest!: bids_split simp: comp_def map_replicate_const seed_amounts(2) [OF assms])
    moreover have "workload \<noteq> ''low_contention''" using 2 by auto
    ultimately show ?thesis
      using True seed_amounts(1) [OF assms, of workload n]
      by (elim results_mono) (clarsimp simp: seeded_def simp del: mset_map mset_replicate)+
  qed
qed

subsection \<open>A seeding that runs alone\<close>

text \<open>A row as \<open>create_auction\<close> of the benchmark stores it.\<close>

definition seeded_row :: "instant \<Rightarrow> auction_row \<Rightarrow> bool" where
  "seeded_row t r \<longleftrightarrow>
     ra_starting_price_cents r = 10000 \<and> ra_minimum_increment_cents r = 100 \<and>
     ra_starts_at r = t - 60 * 1000000 \<and> ra_ends_at r = t + 30 * 60 * 1000000 \<and>
     ra_current_price_cents r = None \<and> ra_version r = 0"

definition ready :: "instant \<Rightarrow> lstate \<Rightarrow> bool" where
  "ready now l \<longleftrightarrow> l_txn l = None \<and> l_clock l \<le> now"

lemma py_str_uuid_ends:
  "py_str_uuid u \<noteq> []" "\<not> py_space (last (py_str_uuid u))" "length (py_str_uuid u) = 36"
proof -
  let ?h = "hex_digits 32 u"
  have tail: "drop 20 ?h \<noteq> []" by simp
  then have "last (py_str_uuid u) = last (drop 20 ?h)" by (simp add: py_str_uuid_def Let_def)
  moreover have "last (drop 20 ?h) \<in> set ?h" using tail last_in_set in_set_dropD by metis
  ultimately show "\<not> py_space (last (py_str_uuid u))" using hex_digits_plain by metis
qed (simp_all add: py_str_uuid_def Let_def)

lemma benchmark_terms_ok:
  "auction_terms_ok (''Benchmark auction '' @ py_str_uuid u) 10000 100 (t - 60 * 1000000)
     (t + 30 * 60 * 1000000)"
proof -
  let ?s = "''Benchmark auction '' @ py_str_uuid u"
  have "\<not> py_space (hd ?s)" by (simp add: py_space_def)
  moreover have "\<not> py_space (last ?s)" using py_str_uuid_ends by (simp only: last_appendR not_False_eq_True)
  ultimately have "py_strip ?s = ?s" unfolding py_strip_def by (intro trim_by_fixed disjI2 conjI)
  then show ?thesis
    using py_str_uuid_ends(3) [of u]
    by (simp add: auction_terms_ok_def money_ok_def limit_defs)
qed

lemma create_runs:
  assumes "ready now l" "auctions d (f n) = None" "auction_terms_ok title starting increment starts ends"
    and r: "r = new_auction title starting increment starts ends now (f n)"
  shows "\<exists>l'. ready now l' \<and>
    (\<forall>g. run (prog_bind (repo_create title starting increment starts ends None) g)
        (\<lambda>k. Go now (f k)) n d l =
      run (g (snapshot_of r)) (\<lambda>k. Go now (f k)) (n + 4)
        (d\<lparr>auctions := (auctions d)(f n \<mapsto> r)\<rparr>) l')"
proof -
  have m: "bigint_ok starting" "bigint_ok increment"
    using assms(3) by (simp_all add: auction_terms_ok_def money_bigint)
  have i: "insert_auction d now (f n) (py_strip title) starting increment starts ends t =
      (R_Auction (Some r), t\<lparr>t_new := [r]\<rparr>)" if "t_new t = []" "t_aucs t = []" for t
    using that assms(2) m new_auction_check [THEN iffD2, OF assms(3)]
    by (simp add: insert_auction_def Let_def new_auction_def find_auction_def r)
  have fk: "auctions_winning_bid_fk bs r" for bs
    by (simp add: auctions_winning_bid_fk_def new_auction_def r)
  have id: "ra_id r = f n" by (simp add: new_auction_def r)
  let ?l = "l\<lparr>l_clock := now, l_seen := l_seen l @ seen_by d (R_Auction (Some r)),
    l_rows := l_rows l @ row_shown d (R_Auction (Some r)), l_txn := None,
    l_log := l_log l @ [empty_txn\<lparr>t_new := [r]\<rparr>]\<rparr>"
  have "ready now ?l" by (simp add: ready_def)
  moreover have "run (prog_bind (repo_create title starting increment starts ends None) g)
        (\<lambda>k. Go now (f k)) n d l =
      run (g (snapshot_of r)) (\<lambda>k. Go now (f k)) (n + 4)
        (d\<lparr>auctions := (auctions d)(f n \<mapsto> r)\<rparr>) ?l" for g
    using assms(1) i fk id new_auction_mapper [OF assms(3), of now "f n", folded r]
    by (cases d) (simp add: ready_def repo_create_def in_transaction_def
        query_def reply_defs go_step_def data_step_def commit_step_def deferred_fk_ok_def
        apply_txn_def put_all_def db_after_def empty_txn_def numeral_eq_Suc)
  ultimately show ?thesis by blast
qed

lemma seed_auction_runs:
  assumes "ready now l" "auctions d (f (Suc n)) = None"
    and "r = new_auction (''Benchmark auction '' @ py_str_uuid (f n)) 10000 100
      (t - 60 * 1000000) (t + 30 * 60 * 1000000) now (f (Suc n))"
  shows "\<exists>l'. ready now l' \<and>
    (\<forall>g :: auction_snapshot \<Rightarrow> 'a prog. run (prog_bind (seed_auction t) g) (\<lambda>k. Go now (f k)) n d l =
      run (g (snapshot_of r)) (\<lambda>k. Go now (f k)) (n + 5)
        (d\<lparr>auctions := (auctions d)(f (Suc n) \<mapsto> r)\<rparr>) l')"
  using create_runs [where f = f and n = "Suc n", OF assms(1) assms(2) benchmark_terms_ok assms(3)]
  by (simp add: seed_auction_def query_def reply_uuid_def go_step_def db_after_def prog_bind_assoc
      numeral_eq_Suc del: append.simps)

lemma py_str_nat_length: "n < 10 ^ Suc k \<Longrightarrow> length (py_str_nat n) \<le> Suc k"
proof (induction k arbitrary: n)
  case (Suc k)
  then have "n div 10 < 10 ^ Suc k" by simp
  from Suc.IH [OF this] show ?case by (subst py_str_nat.simps) simp
qed (simp add: py_str_nat.simps)

lemma numbered_stripped:
  assumes "s \<noteq> []" "\<not> py_space (hd s)"
  shows "py_strip (s @ py_str_nat i) = s @ py_str_nat i"
proof -
  have "py_str_nat i \<noteq> []" and "is_digit (last (py_str_nat i))"
    using py_str_nat_digits [of i] last_in_set [of "py_str_nat i"] by (auto simp: list_all_iff)
  then have "\<not> py_space (last (s @ py_str_nat i))" by (simp add: is_digit_def py_space_def)
  with assms show ?thesis unfolding py_strip_def by (intro trim_by_fixed disjI2 conjI) simp_all
qed

lemma bidder_stripped: "py_strip (''bidder-'' @ py_str_nat i) = ''bidder-'' @ py_str_nat i"
  by (rule numbered_stripped) (simp_all add: py_space_def)

lemma bidder_command:
  assumes "i < 10 ^ 100" "money_ok v"
  shows "make_bid_command u a (''bidder-'' @ py_str_nat i) (PyInt v) =
    Inr \<lparr>cmd_request_id = u, cmd_auction_id = a, cmd_bidder_id = ''bidder-'' @ py_str_nat i,
         cmd_amount_cents = v\<rparr>"
proof -
  have "length (py_str_nat i) \<le> 100" using py_str_nat_length [of i 99] assms(1) by simp
  then show ?thesis using assms(2) bidder_stripped [of i] by (simp add: make_bid_command_def limit_defs)
qed

lemma seed_bids_runs:
  assumes "\<forall>x \<in> set xs. money_ok (snd x)" "i + length xs \<le> 10 ^ 100"
  shows "\<exists>cs. map cmd_request_id cs = map f [n..<n + length xs] \<and>
    (\<forall>g :: bid_command list \<Rightarrow> 'a prog. run (prog_bind (seed_bids i xs) g) (\<lambda>k. Go now (f k)) n d l =
      run (g cs) (\<lambda>k. Go now (f k)) (n + length xs) d l)"
  using assms
proof (induction xs arbitrary: i n)
  case (Cons x xs)
  have "\<forall>y \<in> set xs. money_ok (snd y)" "Suc i + length xs \<le> 10 ^ 100"
    using Cons.prems by simp_all
  from Cons.IH [of "Suc i" "Suc n", OF this]
  obtain cs where cs: "map cmd_request_id cs = map f [Suc n..<Suc n + length xs]"
    "\<And>g :: bid_command list \<Rightarrow> 'a prog. run (prog_bind (seed_bids (Suc i) xs) g) (\<lambda>k. Go now (f k)) (Suc n) d l =
      run (g cs) (\<lambda>k. Go now (f k)) (Suc n + length xs) d l" by blast
  let ?c = "\<lparr>cmd_request_id = f n, cmd_auction_id = fst x,
    cmd_bidder_id = ''bidder-'' @ py_str_nat i, cmd_amount_cents = snd x\<rparr>"
  have "i < 10 ^ 100" "money_ok (snd x)" using Cons.prems by simp_all
  note c = bidder_command [OF this]
  have "run (prog_bind (seed_bids i (x # xs)) g) (\<lambda>k. Go now (f k)) n d l =
      run (g (?c # cs)) (\<lambda>k. Go now (f k)) (n + length (x # xs)) d l" for g :: "bid_command list \<Rightarrow> 'a prog"
    using cs(2) [of "\<lambda>cs. g (?c # cs)"]
    by (simp add: query_def reply_defs go_step_def db_after_def prog_bind_assoc c del: append.simps)
  moreover have "map cmd_request_id (?c # cs) = map f [n..<n + length (x # xs)]"
    using cs(1) by (simp add: upt_conv_Cons del: upt_Suc)
  ultimately show ?case by blast
qed simp

lemma benchmark_row:
  assumes "auction_terms_ok title 10000 100 (t - 60 * 1000000) (t + 30 * 60 * 1000000)"
    and "r = new_auction title 10000 100 (t - 60 * 1000000) (t + 30 * 60 * 1000000) now i"
  shows "seeded_row t r" "ra_id r = i" "au_id (snapshot_of r) = i"
    "db_wf d \<Longrightarrow> auctions d i = None \<Longrightarrow> db_wf (d\<lparr>auctions := (auctions d)(i \<mapsto> r)\<rparr>)"
    "titles_clean d \<Longrightarrow> titles_clean (d\<lparr>auctions := (auctions d)(i \<mapsto> r)\<rparr>)"
proof -
  show r: "seeded_row t r" "ra_id r = i" "au_id (snapshot_of r) = i"
    by (simp_all add: assms(2) seeded_row_def new_auction_def snapshot_of_def)
  have c: "auctions_check r" "py_strip (ra_title r) = ra_title r"
    using new_auction_check [THEN iffD2, OF assms(1)]
    by (simp_all add: assms(2) new_auction_def)
  have fk: "auctions_winning_bid_fk bs r" for bs
    by (simp add: assms(2) new_auction_def auctions_winning_bid_fk_def)
  show "db_wf d \<Longrightarrow> auctions d i = None \<Longrightarrow> db_wf (d\<lparr>auctions := (auctions d)(i \<mapsto> r)\<rparr>)"
    using r(2) c(1) fk by (auto simp: db_wf_def bids_auction_fk_def)
  show "titles_clean d \<Longrightarrow> titles_clean (d\<lparr>auctions := (auctions d)(i \<mapsto> r)\<rparr>)"
    using c(2) by (auto simp: titles_clean_def)
qed

text \<open>
  A sequence of auctions: each gets the second of its two identifiers, and nothing else in the
  database changes.
\<close>

lemma seed_auctions_runs:
  assumes "ready now l" "inj f" "\<forall>k \<ge> n. auctions d (f k) = None" "db_wf d" "titles_clean d"
  shows "\<exists>as d' l'. ready now l' \<and> length as = m \<and> distinct (map au_id as) \<and>
    set (map au_id as) \<subseteq> f ` {n..<n + 5 * m} \<and>
    bids d' = bids d \<and> db_wf d' \<and> titles_clean d' \<and>
    (\<forall>a \<in> set (map au_id as). \<exists>r. auctions d' a = Some r \<and> seeded_row t r) \<and>
    (\<forall>a. a \<notin> set (map au_id as) \<longrightarrow> auctions d' a = auctions d a) \<and>
    (\<forall>g :: auction_snapshot list \<Rightarrow> 'a prog. run (prog_bind (seed_auctions m t) g) (\<lambda>k. Go now (f k)) n d l =
      run (g as) (\<lambda>k. Go now (f k)) (n + 5 * m) d' l')"
  using assms
proof (induction m arbitrary: n d l)
  case 0
  then show ?case by (intro exI [of _ "[]"] exI [of _ d] exI [of _ l]) simp
next
  case (Suc m)
  define r where "r = new_auction (''Benchmark auction '' @ py_str_uuid (f n)) 10000 100
      (t - 60 * 1000000) (t + 30 * 60 * 1000000) now (f (Suc n))"
  define d1 where "d1 = d\<lparr>auctions := (auctions d)(f (Suc n) \<mapsto> r)\<rparr>"
  note r = benchmark_row [OF benchmark_terms_ok r_def]
  obtain l1 where l1: "ready now l1"
    "\<And>g :: auction_snapshot \<Rightarrow> 'a prog. run (prog_bind (seed_auction t) g) (\<lambda>k. Go now (f k)) n d l =
      run (g (snapshot_of r)) (\<lambda>k. Go now (f k)) (n + 5) d1 l1"
    using seed_auction_runs [where f = f, OF Suc.prems(1) Suc.prems(3) [rule_format, of "Suc n"] r_def]
    unfolding d1_def by auto
  have "db_wf d1" "titles_clean d1" using Suc.prems(3-5) r(4,5) by (simp_all add: d1_def)
  have "\<forall>k \<ge> n + 5. auctions d1 (f k) = None"
    using Suc.prems(2,3) by (simp add: d1_def inj_eq)
  from Suc.IH [OF l1(1) Suc.prems(2) this \<open>db_wf d1\<close> \<open>titles_clean d1\<close>]
  obtain as d' l' where IH: "ready now l'" "length as = m" "distinct (map au_id as)"
    "set (map au_id as) \<subseteq> f ` {n + 5..<n + 5 + 5 * m}" "bids d' = bids d1" "db_wf d'" "titles_clean d'"
    "\<forall>a \<in> set (map au_id as). \<exists>r. auctions d' a = Some r \<and> seeded_row t r"
    "\<forall>a. a \<notin> set (map au_id as) \<longrightarrow> auctions d' a = auctions d1 a"
    "\<And>g :: auction_snapshot list \<Rightarrow> 'a prog. run (prog_bind (seed_auctions m t) g) (\<lambda>k. Go now (f k)) (n + 5) d1 l1 =
      run (g as) (\<lambda>k. Go now (f k)) (n + 5 + 5 * m) d' l'" by blast
  have fresh: "f (Suc n) \<notin> set (map au_id as)" using IH(4) Suc.prems(2) by (auto simp: inj_eq)
  have "run (prog_bind (seed_auctions (Suc m) t) g) (\<lambda>k. Go now (f k)) n d l =
      run (g (snapshot_of r # as)) (\<lambda>k. Go now (f k)) (n + 5 * Suc m) d' l'" for g :: "auction_snapshot list \<Rightarrow> 'a prog"
    using IH(10) [of "\<lambda>as. g (snapshot_of r # as)"]
    by (simp add: prog_bind_assoc l1(2) ac_simps)
  moreover have "set (map au_id (snapshot_of r # as)) \<subseteq> f ` {n..<n + 5 * Suc m}"
    using IH(4) r(3) by fastforce
  moreover have "\<forall>a \<in> set (map au_id (snapshot_of r # as)). \<exists>r. auctions d' a = Some r \<and> seeded_row t r"
    using IH(8,9) fresh r(1,3) by (simp add: d1_def)
  moreover have "\<forall>a. a \<notin> set (map au_id (snapshot_of r # as)) \<longrightarrow> auctions d' a = auctions d a"
    using IH(9) r(3) by (simp add: d1_def)
  moreover have "distinct (map au_id (snapshot_of r # as))" using IH(3) fresh r(3) by simp
  ultimately show ?case
    using IH(1,2,5-7) by (intro exI [of _ "snapshot_of r # as"] exI [of _ d'] exI [of _ l']) (simp add: d1_def)
qed

lemma amounts_money:
  assumes "\<And>xs. mset (shuffle xs) = mset xs" "10000 + 100 * n \<le> MAX_MONEY_CENTS"
  shows "\<forall>v \<in> set (seed_amounts workload n shuffle). money_ok v"
proof -
  have "set (seed_amounts workload n shuffle) \<subseteq>
      set (if workload = ''unique_prices'' then map (\<lambda>i. 10000 + 100 * int i) [0..<nat n]
        else replicate (nat n) 10000)"
    using mset_eq_setD [OF seed_amounts(1) [OF assms(1), of workload n]] by simp
  then show ?thesis
    using assms(2) by (auto simp: money_ok_def limit_defs split: if_splits)
qed

text \<open>The database after a seeding, and how the two shapes of a workload get there.\<close>

definition seeded_state :: "instant \<Rightarrow> uuid list \<Rightarrow> db \<Rightarrow> bool" where
  "seeded_state t ids d \<longleftrightarrow>
     distinct ids \<and> dom (auctions d) = set ids \<and>
     (\<forall>a \<in> set ids. \<exists>r. auctions d a = Some r \<and> seeded_row t r) \<and>
     bids d = [] \<and> db_wf d \<and> titles_clean d"

lemma reset_ready:
  "ready now (idle now)" "auctions (reset_experiment_data d) = Map.empty"
  "bids (reset_experiment_data d) = []" "db_wf (reset_experiment_data d)"
  "titles_clean (reset_experiment_data d)"
  by (simp_all add: ready_def idle_def reset_experiment_data_def db_wf_def titles_clean_def)

lemma distinct_requests: "inj f \<Longrightarrow> distinct (map f [i..<j])"
  by (simp add: distinct_map inj_on_def)

lemma seed_low_runs:
  fixes f :: "nat \<Rightarrow> uuid"
  assumes "0 < n" "n \<le> 10 ^ 100" "inj f"
  shows "\<exists>commands ids d' l'.
    run (seed_commands ''low_contention'' n shuffle t) (\<lambda>k. Go now (f k)) 0 (reset_experiment_data d) (idle now) =
      (Some (Inr (commands, ids)), d', l') \<and>
    distinct (map cmd_request_id commands) \<and> seeded_state t ids d'"
proof -
  let ?d = "reset_experiment_data d" and ?ch = "\<lambda>k. Go now (f k)"
  note start = reset_ready(1) [of now] reset_ready(2-5) [of d]
  have none: "\<forall>k \<ge> 0. auctions ?d (f k) = None" by (simp add: start(2))
  obtain as d' l' where as: "length as = nat n" "distinct (map au_id as)" "bids d' = bids ?d"
    "db_wf d'" "titles_clean d'"
    "\<forall>a \<in> set (map au_id as). \<exists>r. auctions d' a = Some r \<and> seeded_row t r"
    "\<forall>a. a \<notin> set (map au_id as) \<longrightarrow> auctions d' a = auctions ?d a"
    "\<And>g :: auction_snapshot list \<Rightarrow> (bid_command list \<times> uuid list) prog.
      run (prog_bind (seed_auctions (nat n) t) g) ?ch 0 ?d (idle now) = run (g as) ?ch (0 + 5 * nat n) d' l'"
    using seed_auctions_runs [OF start(1) assms(3) none start(4,5), of "nat n" t] by blast
  let ?xs = "map (\<lambda>a. (au_id a, 10000 :: int)) as"
  have "\<forall>x \<in> set ?xs. money_ok (snd x)" by (simp add: money_ok_def limit_defs)
  moreover have "0 + length ?xs \<le> 10 ^ 100" using assms(2) as(1) by simp
  ultimately obtain cs where cs: "map cmd_request_id cs = map f [5 * nat n..<5 * nat n + length ?xs]"
    "\<And>g :: bid_command list \<Rightarrow> (bid_command list \<times> uuid list) prog.
      run (prog_bind (seed_bids 0 ?xs) g) ?ch (5 * nat n) d' l' = run (g cs) ?ch (5 * nat n + length ?xs) d' l'"
    using seed_bids_runs [of ?xs 0 f "5 * nat n" now d' l'] by blast
  have "run (seed_commands ''low_contention'' n shuffle t) ?ch 0 ?d (idle now) =
      (Some (Inr (cs, map au_id as)), d', l')"
    unfolding seed_commands_low [OF assms(1)] as(8) by (simp add: cs(2))
  moreover have "dom (auctions d') = set (map au_id as)"
  proof
    show "dom (auctions d') \<subseteq> set (map au_id as)" using as(7) start(2) by (metis (no_types) domIff subsetI)
    show "set (map au_id as) \<subseteq> dom (auctions d')" using as(6) by blast
  qed
  moreover have "distinct (map cmd_request_id cs)" unfolding cs(1) by (rule distinct_requests [OF assms(3)])
  ultimately show ?thesis using as(2-6) start(3) unfolding seeded_state_def by metis
qed

lemma seed_high_runs:
  fixes f :: "nat \<Rightarrow> uuid"
  assumes "workload \<in> {''same_price'', ''unique_prices''}" "0 < n" "n \<le> 10 ^ 100" "inj f"
    and "length (seed_amounts workload n shuffle) = nat n"
    and "\<forall>v \<in> set (seed_amounts workload n shuffle). money_ok v"
  shows "\<exists>commands ids d' l'.
    run (seed_commands workload n shuffle t) (\<lambda>k. Go now (f k)) 0 (reset_experiment_data d) (idle now) =
      (Some (Inr (commands, ids)), d', l') \<and>
    distinct (map cmd_request_id commands) \<and> seeded_state t ids d'"
proof -
  let ?d = "reset_experiment_data d" and ?ch = "\<lambda>k. Go now (f k)"
  note start = reset_ready(1) [of now] reset_ready(2-5) [of d]
  have none: "auctions ?d (f (Suc 0)) = None" by (simp add: start(2))
  define r where "r = new_auction (''Benchmark auction '' @ py_str_uuid (f 0)) 10000 100
    (t - 60 * 1000000) (t + 30 * 60 * 1000000) now (f (Suc 0))"
  let ?d1 = "?d\<lparr>auctions := (auctions ?d)(f (Suc 0) \<mapsto> r)\<rparr>"
  note row = benchmark_row [OF benchmark_terms_ok r_def]
  have state: "seeded_state t [f (Suc 0)] ?d1"
    using row(1) row(4) [OF start(4) none] row(5) [OF start(5)] start(2,3) by (simp add: seeded_state_def)
  let ?xs = "map (\<lambda>v. (f (Suc 0), v)) (seed_amounts workload n shuffle)"
  obtain l' where l': "\<And>g :: auction_snapshot \<Rightarrow> (bid_command list \<times> uuid list) prog.
      run (prog_bind (seed_auction t) g) ?ch 0 ?d (idle now) = run (g (snapshot_of r)) ?ch (0 + 5) ?d1 l'"
    using seed_auction_runs [where f = f, OF start(1) none r_def] by auto
  have "\<forall>x \<in> set ?xs. money_ok (snd x)" using assms(6) by simp
  moreover have "0 + length ?xs \<le> 10 ^ 100" using assms(3,5) by simp
  ultimately obtain cs where cs: "map cmd_request_id cs = map f [5..<5 + length ?xs]"
    "\<And>g :: bid_command list \<Rightarrow> (bid_command list \<times> uuid list) prog.
      run (prog_bind (seed_bids 0 ?xs) g) ?ch 5 ?d1 l' = run (g cs) ?ch (5 + length ?xs) ?d1 l'"
    using seed_bids_runs [of ?xs 0 f 5 now ?d1 l'] by blast
  have "run (seed_commands workload n shuffle t) ?ch 0 ?d (idle now) = (Some (Inr (cs, [f (Suc 0)])), ?d1, l')"
    unfolding seed_commands_high [OF assms(1,2)] l' by (simp add: cs(2) row(2))
  moreover have "distinct (map cmd_request_id cs)" unfolding cs(1) by (rule distinct_requests [OF assms(4)])
  ultimately show ?thesis using state by blast
qed

lemma seed_runs:
  assumes "\<And>xs. mset (shuffle xs) = mset xs" "workload \<in> set WORKLOADS"
    and "0 < n" "10000 + 100 * n \<le> MAX_MONEY_CENTS" "inj f"
  shows "\<exists>commands ids d' l'.
    run (seed_commands workload n shuffle t) (\<lambda>k. Go now (f k)) 0 (reset_experiment_data d) (idle now) =
      (Some (Inr (commands, ids)), d', l') \<and>
    seeded workload n commands ids \<and> distinct (map cmd_request_id commands) \<and> seeded_state t ids d'"
proof -
  have size: "n \<le> 10 ^ 100" using assms(4) by (simp add: limit_defs)
  from assms(2) have "workload = ''low_contention'' \<or> workload \<in> {''same_price'', ''unique_prices''}"
    by (auto simp: WORKLOADS_def)
  then have "\<exists>commands ids d' l'.
    run (seed_commands workload n shuffle t) (\<lambda>k. Go now (f k)) 0 (reset_experiment_data d) (idle now) =
      (Some (Inr (commands, ids)), d', l') \<and>
    distinct (map cmd_request_id commands) \<and> seeded_state t ids d'" (is ?runs)
  proof
    assume "workload = ''low_contention''"
    with seed_low_runs [OF assms(3) size assms(5)] show ?runs by simp
  next
    assume "workload \<in> {''same_price'', ''unique_prices''}"
    then show ?runs
      by (rule seed_high_runs [OF _ assms(3) size assms(5) seed_amounts(2) [OF assms(1)]
            amounts_money [OF assms(1,4)]])
  qed
  then obtain commands ids d' l' where r:
    "run (seed_commands workload n shuffle t) (\<lambda>k. Go now (f k)) 0 (reset_experiment_data d) (idle now) =
      (Some (Inr (commands, ids)), d', l')" "distinct (map cmd_request_id commands)" "seeded_state t ids d'"
    by blast
  have "seeded workload n commands ids"
    using run_results [OF seed_commands_results [OF assms(1)], of workload n t "\<lambda>k. Go now (f k)" 0
        "reset_experiment_data d" "idle now" "Inr (commands, ids)"] r(1) by simp
  with r show ?thesis by blast
qed

text \<open>
  A seeded workload is what its name says. On a reset database that is reachable, with
  identifiers that do not repeat, \<open>seed_commands\<close> returns one valid command for each of the
  bidders in turn, with requests of their own; with low contention each has an auction of its
  own, otherwise all bid on one; the amounts are the starting price or, for unique prices, the
  multiples of the increment above it. The database then holds these auctions, open from a
  minute before to half an hour after, and no bid.
\<close>

theorem seeded_workload:
  assumes "\<And>xs. mset (shuffle xs) = mset xs" "workload \<in> set WORKLOADS"
    and "0 < n" "10000 + 100 * n \<le> MAX_MONEY_CENTS" "inj f"
  shows "\<exists>commands ids d' l'.
    run (seed_commands workload n shuffle t) (\<lambda>k. Go now (f k)) 0 (reset_experiment_data d) (idle now) =
      (Some (Inr (commands, ids)), d', l') \<and>
    seeded workload n commands ids \<and> distinct (map cmd_request_id commands) \<and> distinct ids \<and>
    dom (auctions d') = set ids \<and> (\<forall>a \<in> set ids. \<exists>r. auctions d' a = Some r \<and> seeded_row t r) \<and>
    bids d' = [] \<and> db_wf d' \<and> titles_clean d'"
  using seed_runs [OF assms, of t now d] unfolding seeded_state_def by blast

theorem seeded_workload_witness:
  "\<exists>commands ids d' l'.
    run (seed_commands ''unique_prices'' 3 rev 50) (\<lambda>k. Go 60 k) 0 (reset_experiment_data empty_db) (idle 60) =
      (Some (Inr (commands, ids)), d', l') \<and>
    mset (map cmd_amount_cents commands) = {#10000, 10100, 10200#} \<and> bids d' = []"
proof -
  have m: "mset (rev xs) = mset xs" for xs :: "int list" by simp
  have "''unique_prices'' \<in> set WORKLOADS" "(0 :: int) < 3" "10000 + 100 * 3 \<le> MAX_MONEY_CENTS"
    by (simp_all add: WORKLOADS_def limit_defs)
  from seeded_workload [where shuffle = rev and f = "\<lambda>k. k", OF m this, of 50 60 empty_db]
  obtain commands ids d' l' where
    "run (seed_commands ''unique_prices'' 3 rev 50) (\<lambda>k. Go 60 k) 0 (reset_experiment_data empty_db) (idle 60) =
      (Some (Inr (commands, ids)), d', l')" "seeded ''unique_prices'' 3 commands ids" "bids d' = []"
    by auto
  then show ?thesis by (intro exI conjI) (assumption, simp_all add: seeded_def upt_conv_Cons del: mset_map)
qed

end
