(* ===== verification/Http_Benchmark.thy ===== *)
theory Http_Benchmark
  imports Seeding
begin

section \<open>The benchmark over HTTP\<close>

text \<open>
  \<^verbatim>\<open>src/src/bidding/benchmark/http_cli.py\<close>: the requests the client sends, what it makes of the
  replies, and the seeding of a workload through the API. The client's side takes the server as
  an argument \<open>post\<close>, from the body of a request to a tree that ends with the reply; the server's
  side, at the end, puts the handlers of \<^verbatim>\<open>api/routes.py\<close> behind it. FastAPI's reply to an
  exception that leaves a handler (\<open>unhandled\<close>) and the list it shows for a body that is not
  valid (\<open>errors\<close>) are parameters.
\<close>

text \<open>What \<open>client.post\<close> ends with; the body is absent when it is not JSON.\<close>

datatype reply =
    Transport_Error string
  | Reply nat "json option"

subsection \<open>Reading JSON\<close>

text \<open>\<open>response.json()\<close>, \<open>j[key]\<close> and \<open>j.get(key, default)\<close>\<close>

fun reply_json :: "reply \<Rightarrow> json py" where
  "reply_json (Transport_Error name) = Inl (HttpError name)"
| "reply_json (Reply status None) = Inl (HttpError ''JSONDecodeError'')"
| "reply_json (Reply status (Some body)) = Inr body"

definition json_item :: "json \<Rightarrow> string \<Rightarrow> json py" where
  "json_item j key =
     (case j of
        JObject entries \<Rightarrow>
          (case field key entries of None \<Rightarrow> Inl (KeyError key) | Some v \<Rightarrow> Inr v)
      | _ \<Rightarrow> Inl (TypeError ''indices must be integers, or the object is not subscriptable''))"

definition json_get :: "json \<Rightarrow> string \<Rightarrow> json \<Rightarrow> json py" where
  "json_get j key fallback =
     (case j of
        JObject entries \<Rightarrow> Inr (case field key entries of None \<Rightarrow> fallback | Some v \<Rightarrow> v)
      | _ \<Rightarrow> Inl (AttributeError ''object has no attribute get''))"

subsection \<open>Observations\<close>

definition bid_request_json :: "uuid \<Rightarrow> nat \<Rightarrow> cents \<Rightarrow> json" where
  "bid_request_json request index amount =
     JObject
       [(''request_id'', uuid_json request), (''bidder_id'', JText (''bidder-'' @ py_str_nat index)),
        (''amount_cents'', JInt amount)]"

text \<open>Status, reason, attempts and conflicts, as the \<open>try\<close> block of \<open>execute\<close> reads them.\<close>

definition read_reply :: "reply \<Rightarrow> (json \<times> json \<times> json \<times> json) py" where
  "read_reply reply =
     py_bind (reply_json reply) (\<lambda>body.
     case reply of
       Transport_Error name \<Rightarrow> Inl (HttpError name)
     | Reply code j \<Rightarrow>
         if code = 200 then
           py_bind (json_item body ''status'') (\<lambda>status.
           py_bind (json_item body ''attempts'') (\<lambda>attempts.
           py_bind (json_item body ''conflicts'') (\<lambda>conflicts.
           Inr (status, JNull, attempts, conflicts))))
         else
           py_bind (json_get body ''detail'' (JObject [])) (\<lambda>detail.
           py_bind (json_get detail ''reason'' (JText (''http_'' @ py_str_nat code))) (\<lambda>reason.
           Inr (JText ''rejected'', reason, JInt 1, JInt 0))))"

definition reply_values :: "reply \<Rightarrow> json \<times> json \<times> json \<times> json" where
  "reply_values reply =
     (case read_reply reply of
        Inr values \<Rightarrow> values
      | Inl e \<Rightarrow> (JText ''system_error'', JText (exception_name e), JInt 1, JInt 0))"

text \<open>
  The observation, where the values have the types of its fields; \<open>RequestObservation\<close> does not
  check them, and for a server that answers with other JSON the model has no observation.
\<close>

definition observe_reply :: "nat \<Rightarrow> uuid \<Rightarrow> cents \<Rightarrow> int \<Rightarrow> reply \<Rightarrow> request_observation option" where
  "observe_reply index auction_id amount latency reply =
     (case reply_values reply of
        (JText status, reason, JInt attempts, JInt conflicts) \<Rightarrow>
          (let observation = (\<lambda>r.
                 Some \<lparr>ob_request_index = index, ob_auction_id = auction_id, ob_amount_cents = amount,
                       ob_latency_ns = latency, ob_status = status, ob_reason = r,
                       ob_attempts = attempts, ob_conflicts = conflicts\<rparr>) in
           case reason of JNull \<Rightarrow> observation None | JText r \<Rightarrow> observation (Some r) | _ \<Rightarrow> None)
      | _ \<Rightarrow> None)"

subsection \<open>Seeding\<close>

definition auction_request_json :: "(instant \<Rightarrow> string) \<Rightarrow> nat \<Rightarrow> instant \<Rightarrow> json" where
  "auction_request_json isoformat index now =
     JObject
       [(''title'', JText (''HTTP benchmark auction '' @ py_str_nat index)),
        (''starting_price_cents'', JInt 10000), (''minimum_increment_cents'', JInt 100),
        (''starts_at'', JText (isoformat (now - 60 * 1000000))),
        (''ends_at'', JText (isoformat (now + 30 * 60 * 1000000)))]"

text \<open>\<open>response.raise_for_status()\<close> and \<open>UUID(response.json()["id"])\<close>\<close>

fun raise_for_status :: "reply \<Rightarrow> unit py" where
  "raise_for_status (Transport_Error name) = Inl (HttpError name)"
| "raise_for_status (Reply code body) =
     (if code div 100 = 2 then Inr () else Inl (HttpError ''HTTPStatusError''))"

fun uuid_from_json :: "json \<Rightarrow> uuid py" where
  "uuid_from_json (JText s) =
     (case py_uuid s of
        None \<Rightarrow> Inl (ValueError ''badly formed hexadecimal UUID string'')
      | Some u \<Rightarrow> Inr u)"
| "uuid_from_json JNull = Inl (TypeError ''one of the hex, bytes, fields, or int arguments must be given'')"
| "uuid_from_json j = Inl (AttributeError ''object has no attribute replace'')"

definition created_id :: "reply \<Rightarrow> uuid py" where
  "created_id reply =
     py_bind (raise_for_status reply) (\<lambda>_.
     py_bind (reply_json reply) (\<lambda>body.
     py_bind (json_item body ''id'') uuid_from_json))"

definition http_create_auction ::
    "(json \<Rightarrow> reply prog) \<Rightarrow> (instant \<Rightarrow> string) \<Rightarrow> instant \<Rightarrow> nat \<Rightarrow> uuid prog" where
  "http_create_auction post isoformat now index =
     prog_bind (post (auction_request_json isoformat index now)) (\<lambda>response.
     of_py (created_id response))"

text \<open>\<open>clock index\<close> is \<open>datetime.now(UTC)\<close> in the call of \<open>create_auction\<close> with that index.\<close>

primrec http_create_auctions ::
    "(json \<Rightarrow> reply prog) \<Rightarrow> (instant \<Rightarrow> string) \<Rightarrow> (nat \<Rightarrow> instant) \<Rightarrow> nat list \<Rightarrow> uuid list prog" where
  "http_create_auctions post isoformat clock [] = Ret []"
| "http_create_auctions post isoformat clock (index # indices) =
     prog_bind (http_create_auction post isoformat (clock index) index) (\<lambda>u.
     prog_bind (http_create_auctions post isoformat clock indices) (\<lambda>us. Ret (u # us)))"

definition http_seed ::
    "(json \<Rightarrow> reply prog) \<Rightarrow> (instant \<Rightarrow> string) \<Rightarrow> (nat \<Rightarrow> instant) \<Rightarrow> string \<Rightarrow> int \<Rightarrow>
     (int list \<Rightarrow> int list) \<Rightarrow> (uuid list \<times> cents list) prog" where
  "http_seed post isoformat clock workload request_count shuffle =
     (if workload = ''low_contention'' then
        prog_bind (http_create_auctions post isoformat clock [0..<nat request_count]) (\<lambda>ids.
        Ret (ids, replicate (nat request_count) 10000))
      else
        prog_bind (http_create_auction post isoformat (clock 0) 0) (\<lambda>u.
        if workload = ''same_price'' then Ret ([u], replicate (nat request_count) 10000)
        else if workload = ''unique_prices'' then
          Ret ([u], shuffle (map (\<lambda>index. 10000 + int index * 100) [0..<nat request_count]))
        else Raise (ValueError (''unknown workload: '' @ workload))))"

subsection \<open>The server's side\<close>

definition serve :: "(instant \<Rightarrow> string) \<Rightarrow> reply \<Rightarrow> http_response prog \<Rightarrow> reply prog" where
  "serve isoformat unhandled route =
     prog_try
       (prog_bind route (\<lambda>response.
        Ret (Reply (response_status response) (Some (response_json isoformat response)))))
       (\<lambda>e. Ret unhandled)"

definition validation_reply :: "(invalid_request \<Rightarrow> json list) \<Rightarrow> invalid_request \<Rightarrow> reply" where
  "validation_reply errors e = Reply 422 (Some (JObject [(''detail'', JList (errors e))]))"

definition post_auction ::
    "(json \<Rightarrow> py_datetime option) \<Rightarrow> (instant \<Rightarrow> string) \<Rightarrow> (invalid_request \<Rightarrow> json list) \<Rightarrow> reply \<Rightarrow>
     json \<Rightarrow> reply prog" where
  "post_auction time_of isoformat errors unhandled body =
     (case create_auction_body time_of body of
        Inl e \<Rightarrow> Ret (validation_reply errors e)
      | Inr request \<Rightarrow> serve isoformat unhandled (create_auction_route request))"

definition post_bid ::
    "(json \<Rightarrow> uuid option) \<Rightarrow> (instant \<Rightarrow> string) \<Rightarrow> (invalid_request \<Rightarrow> json list) \<Rightarrow> reply \<Rightarrow>
     (bid_command \<Rightarrow> bid_outcome prog) \<Rightarrow> uuid \<Rightarrow> json \<Rightarrow> reply prog" where
  "post_bid uuid_of isoformat errors unhandled strategy auction_id body =
     (case place_bid_body uuid_of body of
        Inl e \<Rightarrow> Ret (validation_reply errors e)
      | Inr request \<Rightarrow>
          serve isoformat unhandled
            (prog_bind (place_bid_route strategy auction_id request) (\<lambda>ans. Ret (fst ans))))"

end
