(* ===== verification/Benchmark_Cli.thy ===== *)
theory Benchmark_Cli
  imports Http_Benchmark Config
begin

section \<open>The command lines of the benchmark\<close>

text \<open>
  \<^verbatim>\<open>src/src/bidding/benchmark/cli.py\<close>: the parsers, the schedule of the trials, and what \<open>main\<close> makes of
  the arguments that \<open>argparse\<close> has read: a usage error, an exception, or the settings of the
  pool with the warm-ups and trials in their order; and the same of \<^verbatim>\<open>benchmark/http_cli.py\<close>, with
  the running application's reply to the health probe. What they carry out is in \<open>Benchmark_Main\<close>.
\<close>

subsection \<open>Lists as arguments\<close>

fun split_on :: "char \<Rightarrow> string \<Rightarrow> string list" where
  "split_on sep [] = [[]]"
| "split_on sep (c # cs) =
     (if c = sep then [] # split_on sep cs
      else (case split_on sep cs of [] \<Rightarrow> [[c]] | w # ws \<Rightarrow> (c # w) # ws))"

definition parse_csv :: "string \<Rightarrow> string list" where
  "parse_csv value = filter (\<lambda>item. item \<noteq> []) (map py_strip (split_on CHR '','' value))"

primrec all_ints :: "string list \<Rightarrow> int list option" where
  "all_ints [] = Some []"
| "all_ints (s # ss) =
     (case py_int s of
        None \<Rightarrow> None
      | Some i \<Rightarrow> map_option ((#) i) (all_ints ss))"

definition parse_positive_int_csv :: "string \<Rightarrow> int list py" where
  "parse_positive_int_csv value =
     (case all_ints (parse_csv value) of
        None \<Rightarrow> Inl (ValueError ''concurrency levels must be integers'')
      | Some numbers \<Rightarrow>
          if numbers = [] \<or> list_ex (\<lambda>n. n \<le> 0) numbers
          then Inl (ValueError ''concurrency levels must be positive'')
          else Inr numbers)"

subsection \<open>The schedule\<close>

type_synonym trial_spec = "string \<times> string \<times> int \<times> nat"

definition build_trial_schedule ::
    "string list \<Rightarrow> string list \<Rightarrow> int list \<Rightarrow> nat \<Rightarrow> (trial_spec list \<Rightarrow> trial_spec list) \<Rightarrow> bool \<Rightarrow>
     trial_spec list" where
  "build_trial_schedule strategies workloads levels repetitions shuffle randomized =
     (let schedule =
            concat (map (\<lambda>strategy.
              concat (map (\<lambda>concurrency.
                concat (map (\<lambda>workload.
                  map (\<lambda>repetition. (strategy, workload, concurrency, repetition))
                    [1..<Suc repetitions]) workloads)) levels)) strategies) in
      if randomized then shuffle schedule else schedule)"

subsection \<open>The arguments\<close>

record cli_arguments =
  ar_database_url :: "string option"
  ar_strategies :: string
  ar_workloads :: string
  ar_concurrencies :: string
  ar_concurrency :: "int option"
  ar_requests :: int
  ar_repetitions :: int
  ar_warmup_requests :: int
  ar_random_seed :: int
  ar_randomized :: bool
  ar_summary_only :: bool
  ar_output :: "string option"

text \<open>\<open>parser.error\<close>, which ends the program with a message.\<close>

datatype usage_error =
    Unknown_Strategies "string list"
  | Unknown_Workloads "string list"
  | Refused string

datatype benchmark_step =
    Warm_Up string int int
  | Trial trial_spec int

datatype cli_plan =
    Usage usage_error
  | Failed py_exn
  | Planned settings "benchmark_step list"

text \<open>\<open>sorted(set(names) - known)\<close>\<close>

definition unknown_names :: "string list \<Rightarrow> string list \<Rightarrow> string list" where
  "unknown_names known names = sort (remdups (filter (\<lambda>x. \<not> list_ex (\<lambda>k. k = x) known) names))"

definition concurrency_levels :: "cli_arguments \<Rightarrow> int list py" where
  "concurrency_levels a =
     (case ar_concurrency a of
        Some n \<Rightarrow> Inr [n]
      | None \<Rightarrow> parse_positive_int_csv (ar_concurrencies a))"

definition benchmark_settings :: "string option \<Rightarrow> int list \<Rightarrow> settings \<Rightarrow> settings py" where
  "benchmark_settings url levels base =
     make_settings
       (base\<lparr>st_database_url :=
               (case url of
                  Some u \<Rightarrow> if u = [] then st_database_url base else u
                | None \<Rightarrow> st_database_url base),
             st_pool_min_size := min 4 (Max (set levels)),
             st_pool_max_size := max (st_pool_max_size base) (Max (set levels))\<rparr>)"

definition warm_ups :: "string list \<Rightarrow> int list \<Rightarrow> int \<Rightarrow> benchmark_step list" where
  "warm_ups strategies levels requests =
     concat (map (\<lambda>strategy. map (\<lambda>concurrency. Warm_Up strategy concurrency requests) levels) strategies)"

definition cli_main ::
    "cli_arguments \<Rightarrow> environment \<Rightarrow> (trial_spec list \<Rightarrow> trial_spec list) \<Rightarrow> cli_plan" where
  "cli_main a env shuffle =
     (let strategies = parse_csv (ar_strategies a); workloads = parse_csv (ar_workloads a);
          unknown_strategies = unknown_names VALID_STRATEGIES strategies;
          unknown_workloads = unknown_names WORKLOADS workloads in
      if unknown_strategies \<noteq> [] then Usage (Unknown_Strategies unknown_strategies)
      else if unknown_workloads \<noteq> [] then Usage (Unknown_Workloads unknown_workloads)
      else
        (case concurrency_levels a of
           Inl (ValueError message) \<Rightarrow> Usage (Refused message)
         | Inl e \<Rightarrow> Failed e
         | Inr levels \<Rightarrow>
             if ar_requests a \<le> 0 then Usage (Refused ''requests must be positive'')
             else if ar_repetitions a < 3
             then Usage (Refused ''at least three repetitions are required'')
             else
               (case py_bind (settings_from_env env) (benchmark_settings (ar_database_url a) levels) of
                  Inl e \<Rightarrow> Failed e
                | Inr s \<Rightarrow>
                    Planned s
                      (warm_ups strategies levels (ar_warmup_requests a) @
                       map (\<lambda>t. Trial t (ar_requests a))
                         (build_trial_schedule strategies workloads levels (nat (ar_repetitions a))
                            shuffle (ar_randomized a))))))"

subsection \<open>The command line of the HTTP benchmark\<close>

record http_arguments =
  ha_database_url :: "string option"
  ha_strategy_label :: string
  ha_workloads :: string
  ha_concurrency :: int
  ha_requests :: int
  ha_repetitions :: int
  ha_base_url :: string
  ha_random_seed :: int
  ha_output :: "string option"

datatype http_plan =
    Http_Usage string
  | Http_Failed py_exn
  | Http_Planned settings "(string \<times> int) list"

definition http_settings :: "string option \<Rightarrow> int \<Rightarrow> settings \<Rightarrow> settings py" where
  "http_settings url concurrency base =
     make_settings
       \<lparr>st_database_url =
          (case url of
             Some u \<Rightarrow> if u = [] then st_database_url base else u
           | None \<Rightarrow> st_database_url base),
        st_bid_strategy = ''pessimistic'', st_pool_min_size = 2, st_pool_max_size = max 20 concurrency,
        st_pool_timeout_seconds = Finite 5 0, st_lock_timeout_ms = 2000,
        st_statement_timeout_ms = 5000, st_optimistic_max_attempts = 5\<rparr>"

text \<open>\<open>health_response.json().get("bid_strategy")\<close> after \<open>raise_for_status()\<close>\<close>

definition running_strategy :: "reply \<Rightarrow> json py" where
  "running_strategy reply =
     py_bind (raise_for_status reply) (\<lambda>_.
     py_bind (reply_json reply) (\<lambda>body. json_get body ''bid_strategy'' JNull))"

definition http_main :: "http_arguments \<Rightarrow> environment \<Rightarrow> reply \<Rightarrow> http_plan" where
  "http_main a env health =
     (let workloads = parse_csv (ha_workloads a) in
      if workloads = [] \<or> unknown_names WORKLOADS workloads \<noteq> [] then Http_Usage ''unknown workload''
      else if \<not> list_ex (\<lambda>s. s = ha_strategy_label a) VALID_STRATEGIES
      then Http_Usage (''unknown strategy label: '' @ ha_strategy_label a)
      else if ha_concurrency a \<le> 0 then Http_Usage ''concurrency must be positive''
      else if ha_requests a \<le> 0 then Http_Usage ''requests must be positive''
      else if ha_repetitions a < 3 then Http_Usage ''at least three repetitions are required''
      else
        (case py_bind (settings_from_env env) (http_settings (ha_database_url a) (ha_concurrency a)) of
           Inl e \<Rightarrow> Http_Failed e
         | Inr s \<Rightarrow>
             (case running_strategy health of
                Inl e \<Rightarrow> Http_Failed e
              | Inr running \<Rightarrow>
                  if running \<noteq> JText (ha_strategy_label a)
                  then Http_Usage ''strategy label does not match the running application''
                  else
                    Http_Planned s
                      (concat (map (\<lambda>workload.
                        map (\<lambda>repetition. (workload, int repetition)) [1..<Suc (nat (ha_repetitions a))])
                        workloads)))))"

end
