(* ===== verification/Benchmark_Main.thy ===== *)
theory Benchmark_Main
  imports Runner Benchmark_Cli
begin

section \<open>The benchmark from its plan to its files\<close>

text \<open>
  The rest of \<open>main\<close> in \<^verbatim>\<open>src/src/bidding/benchmark/cli.py\<close>, with the metadata of
  \<^verbatim>\<open>benchmark/runner.py\<close>: the pool, the migration, the warm-ups and trials one after the other on the
  same database, the lines that are printed and the document that is written; then \<open>main\<close> of
  \<^verbatim>\<open>benchmark/report.py\<close>. How the outside ends (the pool, the migration, the subprocesses, the files) is an
  argument. The document is the value given to \<open>json.dumps\<close>; \<open>json.loads\<close> gives it back.
\<close>

subsection \<open>Metadata\<close>

text \<open>How \<open>subprocess.run\<close> ends: the standard output, or one of the exceptions.\<close>

datatype process =
    Completed string
  | Program_Missing
  | Process_Failed
  | Process_Raises py_exn

definition git_metadata :: "process \<Rightarrow> process \<Rightarrow> (string option \<times> bool option) py" where
  "git_metadata rev_parse status =
     (case rev_parse of
        Completed commit \<Rightarrow>
          (case status of
             Completed changes \<Rightarrow> Inr (Some (py_strip commit), Some (py_strip changes \<noteq> []))
           | Process_Raises e \<Rightarrow> Inl e
           | _ \<Rightarrow> Inr (None, None))
      | Process_Raises e \<Rightarrow> Inl e
      | _ \<Rightarrow> Inr (None, None))"

record postgres_row =
  pg_version :: string
  pg_isolation :: string
  pg_timezone :: string

definition postgres_metadata :: "postgres_row option py \<Rightarrow> postgres_row py" where
  "postgres_metadata fetched =
     py_bind fetched (\<lambda>row. case row of None \<Rightarrow> Inl AssertionError | Some r \<Rightarrow> Inr r)"

text \<open>The values of \<open>datetime.now(UTC).isoformat()\<close>, \<open>sys.version\<close> and of the module \<open>platform\<close>.\<close>

record machine =
  ma_recorded_at :: string
  ma_python :: string
  ma_platform :: string
  ma_processor :: string
  ma_machine :: string

record environment_data =
  ed_machine :: machine
  ed_random_seed :: int
  ed_postgresql :: postgres_row
  ed_clock :: string

definition environment_metadata :: "machine \<Rightarrow> postgres_row option py \<Rightarrow> int \<Rightarrow> environment_data py" where
  "environment_metadata host fetched random_seed =
     py_bind (postgres_metadata fetched) (\<lambda>row.
     Inr \<lparr>ed_machine = host, ed_random_seed = random_seed, ed_postgresql = row,
          ed_clock = ''time.perf_counter_ns''\<rparr>)"

record cli_configuration =
  cc_strategies :: "string list"
  cc_workloads :: "string list"
  cc_concurrency_levels :: "int list"
  cc_requests :: int
  cc_repetitions :: int
  cc_warmup_requests :: int
  cc_pool_min_size :: int
  cc_pool_max_size :: int
  cc_lock_timeout_ms :: int
  cc_statement_timeout_ms :: int
  cc_optimistic_max_attempts :: int
  cc_trial_order :: string
  cc_request_observations :: string

definition cli_configuration_of :: "cli_arguments \<Rightarrow> int list \<Rightarrow> settings \<Rightarrow> cli_configuration" where
  "cli_configuration_of a levels s =
     \<lparr>cc_strategies = parse_csv (ar_strategies a), cc_workloads = parse_csv (ar_workloads a),
      cc_concurrency_levels = levels, cc_requests = ar_requests a, cc_repetitions = ar_repetitions a,
      cc_warmup_requests = ar_warmup_requests a, cc_pool_min_size = st_pool_min_size s,
      cc_pool_max_size = st_pool_max_size s, cc_lock_timeout_ms = st_lock_timeout_ms s,
      cc_statement_timeout_ms = st_statement_timeout_ms s,
      cc_optimistic_max_attempts = st_optimistic_max_attempts s,
      cc_trial_order = (if ar_randomized a then ''randomized'' else ''fixed''),
      cc_request_observations = (if ar_summary_only a then ''omitted'' else ''preserved'')\<rparr>"

subsection \<open>Warm-ups and trials\<close>

definition run_step ::
    "trial_world \<Rightarrow> (int \<Rightarrow> int list \<Rightarrow> int list) \<Rightarrow> int \<Rightarrow> int \<Rightarrow> benchmark_step \<Rightarrow> db \<Rightarrow>
     (violation trial_result list py \<times> db) option" where
  "run_step w shuffle random_seed max_attempts step d =
     (case step of
        Warm_Up strategy concurrency requests \<Rightarrow>
          map_option (\<lambda>(result, d'). (map_sum (\<lambda>e. e) (\<lambda>_. []) result, d'))
            (run_warmup w shuffle strategy concurrency requests random_seed max_attempts d)
      | Trial (strategy, workload, concurrency, repetition) requests \<Rightarrow>
          map_option (\<lambda>(result, d'). (map_sum (\<lambda>e. e) (\<lambda>tr. [tr]) result, d'))
            (run_trial w shuffle strategy workload concurrency requests (int repetition)
               (random_seed + int repetition) max_attempts d))"

text \<open>
  The two loops. Step \<open>k\<close> runs in the world \<open>worlds k\<close>; the results are those before an exception,
  which ends the loops.
\<close>

primrec run_steps ::
    "(nat \<Rightarrow> trial_world) \<Rightarrow> (int \<Rightarrow> int list \<Rightarrow> int list) \<Rightarrow> int \<Rightarrow> int \<Rightarrow> nat \<Rightarrow> benchmark_step list \<Rightarrow> db \<Rightarrow>
     (violation trial_result list \<times> unit py \<times> db) option" where
  "run_steps worlds shuffle random_seed max_attempts k [] d = Some ([], Inr (), d)"
| "run_steps worlds shuffle random_seed max_attempts k (step # steps) d =
     (case run_step (worlds k) shuffle random_seed max_attempts step d of
        None \<Rightarrow> None
      | Some (Inl e, d') \<Rightarrow> Some ([], Inl e, d')
      | Some (Inr trials, d') \<Rightarrow>
          map_option (\<lambda>(more, how, d''). (trials @ more, how, d''))
            (run_steps worlds shuffle random_seed max_attempts (Suc k) steps d'))"

subsection \<open>Output\<close>

definition pad_right :: "nat \<Rightarrow> string \<Rightarrow> string" where
  "pad_right n s = s @ replicate (n - length s) CHR '' ''"

definition pad_left :: "nat \<Rightarrow> string \<Rightarrow> string" where
  "pad_left n s = replicate (n - length s) CHR '' '' @ s"

definition trial_measures :: "'v trial_result \<Rightarrow> string" where
  "trial_measures tr =
     ''rep='' @ py_str_int (tr_repetition tr) @ '' throughput='' @ format_fixed 1 (tr_throughput tr) @
     ''/s p95='' @ format_fixed 2 (tr_p95_latency_ms tr) @ ''ms valid='' @
     (if tr_invariant_valid tr then ''True'' else ''False'')"

definition trial_line :: "'v trial_result \<Rightarrow> string" where
  "trial_line tr =
     pad_right 11 (tr_strategy tr) @ '' '' @ pad_right 15 (tr_workload tr) @ '' c='' @
     pad_left 2 (py_str_int (tr_concurrency tr)) @ '' '' @ trial_measures tr"

text \<open>\<open>to_dict()\<close>, and \<open>pop("requests")\<close>: the value of that key is kept apart, absent when it is popped.\<close>

type_synonym trial_record = "violation trial_result \<times> request_observation list option"

definition serialize :: "bool \<Rightarrow> violation trial_result \<Rightarrow> trial_record" where
  "serialize summary_only tr =
     (tr\<lparr>tr_requests := []\<rparr>, if summary_only then None else Some (tr_requests tr))"

record cli_document =
  cd_environment :: environment_data
  cd_source :: "string option \<times> bool option"
  cd_configuration :: cli_configuration
  cd_trials :: "trial_record list"

text \<open>What a run does outside the database, in its order, with its own kind of document.\<close>

datatype 'doc run_effect =
    Opened
  | Migrated "int list"
  | Printed string
  | Written string 'doc
  | Closed

record cli_world =
  cw_opening :: "unit py"
  cw_migrating :: "int list py"
  cw_machine :: machine
  cw_postgres :: "postgres_row option py"
  cw_rev_parse :: process
  cw_status :: process
  cw_trials :: "nat \<Rightarrow> trial_world"
  cw_timestamp :: string
  cw_writing :: "unit py"

text \<open>The \<open>try\<close> block, and the whole with the pool that is closed in the end.\<close>

definition output_path :: "string option \<Rightarrow> string \<Rightarrow> string \<Rightarrow> string" where
  "output_path given prefix timestamp =
     (case given of
        Some path \<Rightarrow> path
      | None \<Rightarrow> ''benchmark-results/'' @ prefix @ ''-'' @ timestamp @ ''.json'')"

definition cli_body ::
    "cli_arguments \<Rightarrow> int list \<Rightarrow> settings \<Rightarrow> benchmark_step list \<Rightarrow> cli_world \<Rightarrow>
     (int \<Rightarrow> int list \<Rightarrow> int list) \<Rightarrow> db \<Rightarrow> (cli_document run_effect list \<times> unit py \<times> db) option" where
  "cli_body a levels s steps w shuffle d =
     (case cw_migrating w of
        Inl e \<Rightarrow> Some ([], Inl e, d)
      | Inr versions \<Rightarrow>
          (case py_bind (environment_metadata (cw_machine w) (cw_postgres w) (ar_random_seed a)) (\<lambda>environment.
                py_bind (git_metadata (cw_rev_parse w) (cw_status w)) (\<lambda>source. Inr (environment, source))) of
             Inl e \<Rightarrow> Some ([Migrated versions], Inl e, d)
           | Inr (environment, source) \<Rightarrow>
               map_option (\<lambda>(trials, how, d').
                 let before = Migrated versions # map (\<lambda>tr. Printed (trial_line tr)) trials;
                     document =
                       \<lparr>cd_environment = environment, cd_source = source,
                        cd_configuration = cli_configuration_of a levels s,
                        cd_trials = map (serialize (ar_summary_only a)) trials\<rparr>;
                     path = output_path (ar_output a) ''repository'' (cw_timestamp w) in
                 (case py_bind how (\<lambda>_. cw_writing w) of
                    Inl e \<Rightarrow> (before, Inl e, d')
                  | Inr _ \<Rightarrow>
                      (before @ [Written path document, Printed (''Raw benchmark written to '' @ path)],
                       Inr (), d')))
                 (run_steps (cw_trials w) shuffle (ar_random_seed a) (st_optimistic_max_attempts s) 0 steps d)))"

definition cli_session ::
    "cli_arguments \<Rightarrow> int list \<Rightarrow> settings \<Rightarrow> benchmark_step list \<Rightarrow> cli_world \<Rightarrow>
     (int \<Rightarrow> int list \<Rightarrow> int list) \<Rightarrow> db \<Rightarrow> (cli_document run_effect list \<times> unit py \<times> db) option" where
  "cli_session a levels s steps w shuffle d =
     (case cw_opening w of
        Inl e \<Rightarrow> Some ([], Inl e, d)
      | Inr _ \<Rightarrow>
          map_option (\<lambda>(effects, how, d'). (Opened # effects @ [Closed], how, d'))
            (cli_body a levels s steps w shuffle d))"

subsection \<open>The report\<close>

text \<open>What \<open>render_markdown\<close> looks up in the document.\<close>

definition cli_report_metadata :: "cli_document \<Rightarrow> report_metadata" where
  "cli_report_metadata doc =
     \<lparr>me_recorded_at = ma_recorded_at (ed_machine (cd_environment doc)),
      me_platform = ma_platform (ed_machine (cd_environment doc)),
      me_postgresql_version = pg_version (ed_postgresql (cd_environment doc)), me_mode = None,
      me_request_observations = Some (cc_request_observations (cd_configuration doc)),
      me_git_commit = fst (cd_source doc), me_git_dirty = snd (cd_source doc)\<rparr>"

text \<open>\<open>main\<close> of \<^verbatim>\<open>report.py\<close>: how reading and writing end, and the report with the line that is printed.\<close>

definition report_main ::
    "(report_metadata \<times> 'v trial_result list) py \<Rightarrow> unit py \<Rightarrow> string \<Rightarrow> string \<Rightarrow> (string \<times> string) py" where
  "report_main reading writing input output =
     py_bind reading (\<lambda>(meta, trials).
     py_bind (render_markdown meta trials input) (\<lambda>report.
     py_bind writing (\<lambda>_. Inr (report, ''Benchmark report written to '' @ output))))"

end
