(* ===== verification/Http_Runner.thy ===== *)
theory Http_Runner
  imports Benchmark_Main
begin

section \<open>The benchmark over HTTP from its plan to its file\<close>

text \<open>
  \<open>run_http_trial\<close> and the rest of \<open>main\<close> of \<^verbatim>\<open>src/src/bidding/benchmark/http_cli.py\<close>, against the handlers of
  the API. As in \<open>Runner\<close>, what the outside does in a trial is an argument: the schedule of all
  statements of all requests the server handles, and, for the client, which replies it does not get
  (\<open>hw_lost\<close>, with the name of the exception of the HTTP library). A request whose reply is lost is
  still handled by the server, and it is so before the audit: of a client that gives up after its ten seconds and
  an audit that begins next to the statements of such a request nothing is said here
  (\<open>audit_needs_quiet\<close> of \<open>Guarantees\<close> shows what may then happen).
\<close>

record server =
  sr_time_of :: "json \<Rightarrow> py_datetime option"
  sr_uuid_of :: "json \<Rightarrow> uuid option"
  sr_isoformat :: "instant \<Rightarrow> string"
  sr_errors :: "invalid_request \<Rightarrow> json list"
  sr_unhandled :: reply
  sr_strategy :: "bid_command \<Rightarrow> bid_outcome prog"

record http_world =
  hw_resetting :: "unit py"
  hw_clock :: "nat \<Rightarrow> instant"
  hw_db_clock :: instant
  hw_seed_choices :: "nat \<Rightarrow> choice"
  hw_requests :: "nat \<Rightarrow> uuid"
  hw_schedule :: "(nat \<times> choice) list"
  hw_lost :: "nat \<Rightarrow> string option"
  hw_latency :: "nat \<Rightarrow> int"
  hw_wall_time :: int
  hw_audit_clock :: instant
  hw_audit_uuid :: uuid

subsection \<open>The load\<close>

text \<open>The auction that request \<open>index\<close> bids on.\<close>

definition target :: "string \<Rightarrow> uuid list \<Rightarrow> nat \<Rightarrow> uuid" where
  "target workload auction_ids index =
     (if workload = ''low_contention'' then auction_ids ! index else auction_ids ! 0)"

text \<open>Connection \<open>p\<close> of the database serves request \<open>p\<close>.\<close>

definition http_load ::
    "server \<Rightarrow> (nat \<Rightarrow> uuid) \<Rightarrow> string \<Rightarrow> uuid list \<Rightarrow> cents list \<Rightarrow> nat \<Rightarrow> nat \<Rightarrow> reply option prog" where
  "http_load server requests workload auction_ids amounts n p =
     (if p < n then
        prog_bind
          (post_bid (sr_uuid_of server) (sr_isoformat server) (sr_errors server) (sr_unhandled server)
             (sr_strategy server) (target workload auction_ids p)
             (bid_request_json (requests p) p (amounts ! p)))
          (\<lambda>reply. Ret (Some reply))
      else Ret None)"

definition server_reply :: "reply option prog \<Rightarrow> reply option" where
  "server_reply p = (case answer p of Some (Inr reply) \<Rightarrow> reply | _ \<Rightarrow> None)"

definition client_reply :: "string option \<Rightarrow> reply \<Rightarrow> reply" where
  "client_reply lost reply = (case lost of None \<Rightarrow> reply | Some name \<Rightarrow> Transport_Error name)"

definition execute_http_load ::
    "http_world \<Rightarrow> server \<Rightarrow> string \<Rightarrow> uuid list \<Rightarrow> cents list \<Rightarrow> nat \<Rightarrow> db \<Rightarrow>
     (request_observation list \<times> db) option" where
  "execute_http_load w server workload auction_ids amounts n d =
     (case play service_step (hw_schedule w)
             (connections n (hw_db_clock w) d,
              http_load server (hw_requests w) workload auction_ids amounts n) of
        None \<Rightarrow> None
      | Some (s, ps) \<Rightarrow>
          (case those (map (\<lambda>i. server_reply (ps i)) [0..<n]) of
             None \<Rightarrow> None
           | Some replies \<Rightarrow>
               map_option (\<lambda>observations. (observations, sv_store s))
                 (those (map (\<lambda>i. observe_reply i (target workload auction_ids i) (amounts ! i) (hw_latency w i)
                     (client_reply (hw_lost w i) (replies ! i))) [0..<n]))))"

subsection \<open>A trial\<close>

definition run_http_trial ::
    "http_world \<Rightarrow> server \<Rightarrow> (int \<Rightarrow> int list \<Rightarrow> int list) \<Rightarrow> string \<Rightarrow> string \<Rightarrow> int \<Rightarrow> int \<Rightarrow> int \<Rightarrow> int \<Rightarrow> db \<Rightarrow>
     (violation trial_result py \<times> db) option" where
  "run_http_trial w server shuffle strategy_label workload concurrency request_count repetition random_seed d =
     (case hw_resetting w of
        Inl e \<Rightarrow> Some (Inl e, d)
      | Inr _ \<Rightarrow>
          (case run (http_seed
                  (post_auction (sr_time_of server) (sr_isoformat server) (sr_errors server) (sr_unhandled server))
                  (sr_isoformat server) (hw_clock w) workload request_count (shuffle random_seed))
                  (hw_seed_choices w) 0 (reset_experiment_data d) (idle (hw_db_clock w)) of
             (None, d1, l) \<Rightarrow> None
           | (Some (Inl e), d1, l) \<Rightarrow> Some (Inl e, d1)
           | (Some (Inr (auction_ids, amounts)), d1, l) \<Rightarrow>
               if concurrency \<le> 0 then Some (Inl (ValueError ''max_workers must be greater than 0''), d1)
               else
                 (case execute_http_load w server workload auction_ids amounts (nat request_count) d1 of
                    None \<Rightarrow> None
                  | Some (observations, d2) \<Rightarrow>
                      Some (py_bind (audit auction_ids (hw_audit_clock w) (hw_audit_uuid w) d2) (\<lambda>violations.
                        summarize strategy_label workload concurrency repetition (hw_wall_time w) observations
                          violations), d2))))"

subsection \<open>The loops of \<open>main\<close>\<close>

primrec run_http_trials ::
    "(nat \<Rightarrow> http_world) \<Rightarrow> server \<Rightarrow> (int \<Rightarrow> int list \<Rightarrow> int list) \<Rightarrow> http_arguments \<Rightarrow> nat \<Rightarrow>
     (string \<times> int) list \<Rightarrow> db \<Rightarrow> (violation trial_result list \<times> unit py \<times> db) option" where
  "run_http_trials worlds server shuffle a k [] d = Some ([], Inr (), d)"
| "run_http_trials worlds server shuffle a k (trial # trials) d =
     (case run_http_trial (worlds k) server shuffle (ha_strategy_label a) (fst trial) (ha_concurrency a)
             (ha_requests a) (snd trial) (ha_random_seed a + snd trial) d of
        None \<Rightarrow> None
      | Some (Inl e, d') \<Rightarrow> Some ([], Inl e, d')
      | Some (Inr tr, d') \<Rightarrow>
          map_option (\<lambda>(more, how, d''). (tr # more, how, d''))
            (run_http_trials worlds server shuffle a (Suc k) trials d'))"

definition http_trial_line :: "'v trial_result \<Rightarrow> string" where
  "http_trial_line tr =
     ''http '' @ pad_right 11 (tr_strategy tr) @ '' '' @ pad_right 15 (tr_workload tr) @ '' '' @ trial_measures tr"

record http_configuration =
  hc_mode :: string
  hc_base_url :: string
  hc_strategy_label :: string
  hc_workloads :: "string list"
  hc_concurrency :: int
  hc_requests :: int
  hc_repetitions :: int

definition http_configuration_of :: "http_arguments \<Rightarrow> http_configuration" where
  "http_configuration_of a =
     \<lparr>hc_mode = ''http'', hc_base_url = ha_base_url a, hc_strategy_label = ha_strategy_label a,
      hc_workloads = parse_csv (ha_workloads a), hc_concurrency = ha_concurrency a,
      hc_requests = ha_requests a, hc_repetitions = ha_repetitions a\<rparr>"

record http_document =
  hd_environment :: environment_data
  hd_configuration :: http_configuration
  hd_trials :: "violation trial_result list"

record http_run_world =
  rw_opening :: "unit py"
  rw_migrating :: "int list py"
  rw_trials :: "nat \<Rightarrow> http_world"
  rw_machine :: machine
  rw_postgres :: "postgres_row option py"
  rw_timestamp :: string
  rw_writing :: "unit py"

text \<open>After the health probe has named the strategy of the label; \<open>trials\<close> is the plan of \<open>http_main\<close>.\<close>

definition http_body ::
    "http_arguments \<Rightarrow> (string \<times> int) list \<Rightarrow> http_run_world \<Rightarrow> server \<Rightarrow> (int \<Rightarrow> int list \<Rightarrow> int list) \<Rightarrow> db \<Rightarrow>
     (http_document run_effect list \<times> unit py \<times> db) option" where
  "http_body a trials w server shuffle d =
     (case rw_migrating w of
        Inl e \<Rightarrow> Some ([], Inl e, d)
      | Inr versions \<Rightarrow>
          map_option (\<lambda>(logged, how, d').
            let before = Migrated versions # map (\<lambda>tr. Printed (http_trial_line tr)) logged;
                path = output_path (ha_output a) ''http'' (rw_timestamp w) in
            (case py_bind how (\<lambda>_.
                    py_bind (environment_metadata (rw_machine w) (rw_postgres w) (ha_random_seed a)) (\<lambda>environment.
                    py_bind (rw_writing w) (\<lambda>_. Inr environment))) of
               Inl e \<Rightarrow> (before, Inl e, d')
             | Inr environment \<Rightarrow>
                 (before @ [Written path \<lparr>hd_environment = environment,
                              hd_configuration = http_configuration_of a, hd_trials = logged\<rparr>,
                            Printed (''Raw benchmark written to '' @ path)],
                  Inr (), d')))
            (run_http_trials (rw_trials w) server shuffle a 0 trials d))"

definition http_session ::
    "http_arguments \<Rightarrow> (string \<times> int) list \<Rightarrow> http_run_world \<Rightarrow> server \<Rightarrow> (int \<Rightarrow> int list \<Rightarrow> int list) \<Rightarrow> db \<Rightarrow>
     (http_document run_effect list \<times> unit py \<times> db) option" where
  "http_session a trials w server shuffle d =
     (case rw_opening w of
        Inl e \<Rightarrow> Some ([], Inl e, d)
      | Inr _ \<Rightarrow>
          map_option (\<lambda>(effects, how, d'). (Opened # effects @ [Closed], how, d'))
            (http_body a trials w server shuffle d))"

text \<open>What \<open>render_markdown\<close> looks up in the document.\<close>

definition http_report_metadata :: "http_document \<Rightarrow> report_metadata" where
  "http_report_metadata doc =
     \<lparr>me_recorded_at = ma_recorded_at (ed_machine (hd_environment doc)),
      me_platform = ma_platform (ed_machine (hd_environment doc)),
      me_postgresql_version = pg_version (ed_postgresql (hd_environment doc)),
      me_mode = Some (hc_mode (hd_configuration doc)), me_request_observations = None,
      me_git_commit = None, me_git_dirty = None\<rparr>"

end
