(* ===== verification/Wire_Properties.thy ===== *)
theory Wire_Properties
  imports Wire Api_Properties
begin

section \<open>Properties of the wire format\<close>

lemma strict_schema_eq_Inr:
  "strict_schema names body = Inr get \<longleftrightarrow>
     (\<exists>entries. body = JObject entries \<and> fst ` set entries = set names \<and>
        get = (\<lambda>name. the (field name entries)))"
proof -
  have keys: "(\<forall>x \<in> set entries. fst x \<in> set names) \<and> (\<forall>name \<in> set names. field name entries \<noteq> None) \<longleftrightarrow>
      fst ` set entries = set names" for entries
    by (auto simp: field_def map_of_eq_None_iff)
  have "strict_schema names (JObject entries) = Inr get \<longleftrightarrow>
      (\<forall>x \<in> set entries. fst x \<in> set names) \<and> (\<forall>name \<in> set names. field name entries \<noteq> None) \<and>
      get = (\<lambda>name. the (field name entries))" for entries
    by (auto simp: strict_schema_def filter_empty_conv split: list.split dest!: filter_eq_ConsD)
  then show ?thesis
    unfolding keys [symmetric] by (cases body) (auto simp: strict_schema_def)
qed

lemma strict_schema_object:
  "strict_schema names (JObject entries) = Inr get \<longleftrightarrow>
     fst ` set entries = set names \<and> get = (\<lambda>name. the (field name entries))"
  by (simp add: strict_schema_eq_Inr)

lemma option_case_Inr:
  "(case m of None \<Rightarrow> Inl e | Some x \<Rightarrow> f x) = Inr y \<longleftrightarrow> (\<exists>x. m = Some x \<and> f x = Inr y)"
  by (simp split: option.split)

lemma field_known: "name \<in> fst ` set entries \<Longrightarrow> \<exists>j. field name entries = Some j"
  unfolding field_def by (metis map_of_eq_None_iff not_None_eq rev_map set_map set_rev)

lemma keys_known:
  assumes "fst ` set entries = set names"
  shows "list_all (\<lambda>name. \<exists>j. field name entries = Some j) names"
  using assms field_known [of _ entries] by (simp add: list_all_iff)

lemma text_value_eq [simp]: "text_value j = PyText s \<longleftrightarrow> j = JText s"
  by (cases j) auto

lemma int_value_eq [simp]: "int_value j = PyInt v \<longleftrightarrow> j = JInt v"
  by (cases j) auto

lemma time_field_eq_Inr [simp]: "time_field time_of name j = Inr t \<longleftrightarrow> time_of j = Some t"
  by (simp add: time_field_def split: option.split)

lemma strip_not_empty: "py_strip s \<noteq> [] \<Longrightarrow> Suc 0 \<le> length s"
  using length_strip [of s] by (cases s) auto

lemma parse_place_bid_eq_Inr:
  "parse_place_bid q bidder amount = Inr b \<longleftrightarrow>
    (\<exists>s v. bidder = PyText s \<and> amount = PyInt v \<and> length s \<le> MAX_BIDDER_ID_LENGTH \<and> py_strip s \<noteq> [] \<and>
      money_ok v \<and> b = \<lparr>br_request_id = q, br_bidder_id = py_strip s, br_amount_cents = v\<rparr>)"
  by (auto simp: parse_place_bid_def strip_bidder_def Let_def dest: strip_not_empty split: if_splits)

lemma place_bid_body_eq_Inr:
  "place_bid_body uuid_of body = Inr b \<longleftrightarrow>
    (\<exists>entries j q s v. body = JObject entries \<and>
      fst ` set entries = {''request_id'', ''bidder_id'', ''amount_cents''} \<and>
      field ''request_id'' entries = Some j \<and> uuid_of j = Some q \<and>
      field ''bidder_id'' entries = Some (JText s) \<and> length s \<le> MAX_BIDDER_ID_LENGTH \<and> py_strip s \<noteq> [] \<and>
      field ''amount_cents'' entries = Some (JInt v) \<and> money_ok v \<and>
      b = \<lparr>br_request_id = q, br_bidder_id = py_strip s, br_amount_cents = v\<rparr>)"
  (is "?parsed \<longleftrightarrow> ?shape")
proof -
  have body: "?parsed \<longleftrightarrow> (\<exists>get q. strict_schema [''request_id'', ''bidder_id'', ''amount_cents''] body = Inr get \<and>
      uuid_of (get ''request_id'') = Some q \<and>
      parse_place_bid q (text_value (get ''bidder_id'')) (int_value (get ''amount_cents'')) = Inr b)"
    unfolding place_bid_body_def and_then_eq_Inr option_case_Inr by blast
  show ?thesis
  proof
    assume ?parsed
    then obtain entries q where keys: "body = JObject entries"
      "fst ` set entries = {''request_id'', ''bidder_id'', ''amount_cents''}"
      and q: "uuid_of (the (field ''request_id'' entries)) = Some q"
      and parsed: "parse_place_bid q (text_value (the (field ''bidder_id'' entries)))
        (int_value (the (field ''amount_cents'' entries))) = Inr b"
      unfolding body strict_schema_eq_Inr list.set by (elim exE conjE) (metis (lifting))
    obtain j k l where known: "field ''request_id'' entries = Some j" "field ''bidder_id'' entries = Some k"
      "field ''amount_cents'' entries = Some l"
      using keys_known [of entries "[''request_id'', ''bidder_id'', ''amount_cents'']"] keys(2) by auto
    from q parsed obtain s v where "uuid_of j = Some q" "k = JText s" "l = JInt v"
      "length s \<le> MAX_BIDDER_ID_LENGTH" "py_strip s \<noteq> []" "money_ok v"
      "b = \<lparr>br_request_id = q, br_bidder_id = py_strip s, br_amount_cents = v\<rparr>"
      unfolding known parse_place_bid_eq_Inr by auto
    with keys known show ?shape by blast
  next
    assume ?shape
    then show ?parsed
      unfolding body strict_schema_eq_Inr list.set parse_place_bid_eq_Inr
      by (elim exE conjE) (intro exI conjI, (assumption | rule refl | simp)+)
  qed
qed

text \<open>
  C23. Which bid bodies are accepted: exactly the objects with the three keys, no other and
  none missing, whose request identifier is a UUID, whose bidder is a text of at most a hundred
  characters that are not all white space, and whose amount is an integer in the money range,
  neither a boolean nor a float. The domain accepts what the schema accepts: the body then makes
  a valid command, already stripped, for the auction of the path.
\<close>

theorem bid_body_decides:
  shows "(place_bid_body uuid_of body = Inr b \<longleftrightarrow>
      (\<exists>entries j q s v. body = JObject entries \<and>
        fst ` set entries = {''request_id'', ''bidder_id'', ''amount_cents''} \<and>
        field ''request_id'' entries = Some j \<and> uuid_of j = Some q \<and>
        field ''bidder_id'' entries = Some (JText s) \<and> length s \<le> MAX_BIDDER_ID_LENGTH \<and> py_strip s \<noteq> [] \<and>
        field ''amount_cents'' entries = Some (JInt v) \<and> money_ok v \<and>
        b = \<lparr>br_request_id = q, br_bidder_id = py_strip s, br_amount_cents = v\<rparr>)) \<and>
    (place_bid_body uuid_of body = Inr b \<longrightarrow>
      (\<exists>cmd. make_bid_command (br_request_id b) auction_id (br_bidder_id b)
          (PyInt (br_amount_cents b)) = Inr cmd \<and> valid_command cmd \<and>
        cmd_bidder_id cmd = py_strip (cmd_bidder_id cmd) \<and> cmd_auction_id cmd = auction_id \<and>
        cmd_request_id cmd = br_request_id b \<and> cmd_amount_cents cmd = br_amount_cents b))"
proof (intro conjI impI)
  assume parsed: "place_bid_body uuid_of body = Inr b"
  then obtain q bidder amount where "parse_place_bid q bidder amount = Inr b"
    by (auto simp: place_bid_body_def split: option.splits)
  with parse_place_bid_command [OF this, of auction_id]
  show "\<exists>cmd. make_bid_command (br_request_id b) auction_id (br_bidder_id b)
          (PyInt (br_amount_cents b)) = Inr cmd \<and> valid_command cmd \<and>
        cmd_bidder_id cmd = py_strip (cmd_bidder_id cmd) \<and> cmd_auction_id cmd = auction_id \<and>
        cmd_request_id cmd = br_request_id b \<and> cmd_amount_cents cmd = br_amount_cents b"
    by (auto simp: make_bid_command_eq_Inr)
qed (rule place_bid_body_eq_Inr)

definition lot_bid_body :: json where
  "lot_bid_body =
     JObject
       [(''amount_cents'', JInt 200), (''request_id'', JText (py_str_uuid 11)),
        (''bidder_id'', JText '' ann '')]"

definition as_uuid :: "json \<Rightarrow> uuid option" where
  "as_uuid j = (case j of JText s \<Rightarrow> py_uuid s | _ \<Rightarrow> None)"

theorem bid_body_decides_witness:
  "place_bid_body as_uuid lot_bid_body = Inr lot_request \<and>
   (\<exists>cmd. make_bid_command 11 1 ''ann'' (PyInt 200) = Inr cmd \<and> valid_command cmd) \<and>
   (\<exists>e. place_bid_body as_uuid (JObject [(''request_id'', JText (py_str_uuid 11)),
     (''bidder_id'', JText ''ann''), (''amount_cents'', JBool True)]) = Inl e)"
proof -
  have p: "place_bid_body as_uuid lot_bid_body = Inr lot_request" by code_simp
  from bid_body_decides [of as_uuid lot_bid_body lot_request 1] p
  have c: "\<exists>cmd. make_bid_command 11 1 ''ann'' (PyInt 200) = Inr cmd \<and> valid_command cmd"
    by (auto simp: lot_request_def)
  have "place_bid_body as_uuid (JObject [(''request_id'', JText (py_str_uuid 11)),
     (''bidder_id'', JText ''ann''), (''amount_cents'', JBool True)]) = Inl (Field_Invalid ''amount_cents'')"
    by code_simp
  with p c show ?thesis by blast
qed


definition vase_body :: "(string \<times> json) list" where
  "vase_body =
     [(''title'', JText '' vase ''), (''starting_price_cents'', JInt 100),
      (''minimum_increment_cents'', JInt 10), (''starts_at'', JInt 0), (''ends_at'', JInt 50)]"

definition as_time :: "json \<Rightarrow> py_datetime option" where
  "as_time j = (case j of JInt t \<Rightarrow> Some (Aware t) | _ \<Rightarrow> None)"


end
