(* ===== verification/Benchmark_Properties.thy ===== *)
theory Benchmark_Properties
  imports Seeding Guarantees Behaviour
begin

section \<open>Properties of the benchmark\<close>

text \<open>
  C39. Percentiles are nearest ranks: of fewer than \<open>2 ^ 40\<close> samples, the 50th, 95th and 99th
  percentile, for all the rounding of their arithmetic, are samples that at least that share
  of the samples does not exceed and less than that share stays below.
\<close>

theorem percentile_is_nearest_rank:
  assumes "p \<in> {50, 95, 99}" "samples \<noteq> []" "int (length samples) < 2 ^ 40"
  shows "\<exists>x \<in> set samples. percentile_ns samples p = Inr x \<and>
    p * int (length samples) \<le> 100 * int (length (filter (\<lambda>s. s \<le> x) samples)) \<and>
    100 * int (length (filter (\<lambda>s. s < x) samples)) < p * int (length samples)"
proof -
  let ?n = "length samples"
  have n: "0 < ?n" using assms(2) by simp
  define k where "k = (p * int ?n + 99) div 100"
  have k: "p * int ?n \<le> 100 * k" "100 * (k - 1) < p * int ?n" unfolding k_def by presburger+
  have "p \<le> 99" "0 < p" using assms(1) by auto
  then have p: "p * int ?n \<le> 99 * int ?n" "0 < p * int ?n"
    using n by (intro mult_right_mono, simp_all)
  from k(2) p(1) have "100 * (k - 1) < 99 * int ?n" by (rule less_le_trans)
  also have "99 * int ?n < 100 * int ?n" using n by simp
  finally have "k - 1 < int ?n" by (simp only: mult_less_cancel_left_pos zero_less_numeral)
  then have "k \<le> int ?n" by simp
  moreover from p(2) k(1) have "0 < 100 * k" by (rule less_le_trans)
  ultimately have i: "1 \<le> k" "k \<le> int ?n" by simp_all
  define j where "j = nat (k - 1)"
  have j: "j < ?n" "int j = k - 1" using i by (simp_all add: j_def)
  have "percentile_index p ?n = Inr (int j)"
    using percentile_index_exact [OF assms(1) n assms(3)] j(2) by (simp add: k_def)
  with assms(1,2) j(1) have r: "percentile_ns samples p = Inr (sort samples ! j)"
    by (auto simp: percentile_ns_def Let_def)
  have "sort samples ! j \<in> set samples" using j(1) by (metis length_sort nth_mem set_sort)
  moreover have "Suc j \<le> length (filter (\<lambda>s. s \<le> sort samples ! j) samples)"
    "length (filter (\<lambda>s. s < sort samples ! j) samples) \<le> j"
    using sorted_rank [of "sort samples" j] j(1) by (simp_all add: filter_sort_length)
  ultimately show ?thesis
    using r k j(2) by (intro bexI [of _ "sort samples ! j"]) auto
qed

theorem percentile_is_nearest_rank_witness:
  "\<exists>x \<in> set [30, 10, 20]. percentile_ns [30, 10, 20] 95 = Inr x \<and>
    285 \<le> 100 * int (length (filter (\<lambda>s. s \<le> x) [30, 10, 20]))"
  using percentile_is_nearest_rank [of 95 "[30, 10, 20]"] by simp

text \<open>Other percentiles can be one rank too high: of 100 samples the seventh is the eighth.\<close>

theorem percentile_off_by_one: "percentile_index 7 100 = Inr 7"
  by code_simp

subsection \<open>The verdict\<close>

lemma ledger_no_bids:
  assumes "db_wf d" "bids d = []"
  shows "ledger W d"
  unfolding ledger_def
proof (intro allI impI)
  fix a r
  assume "auctions d a = Some r"
  then have "auctions_check r" "auctions_winning_bid_fk [] r"
    using assms by (auto simp: db_wf_def)
  then have "ra_winning_bid_id r = None" "ra_current_price_cents r = None" "ra_version r = 0"
    by (auto simp: auctions_winning_bid_fk_def auctions_check_def auctions_bid_state_consistent_def
        split: option.splits)
  with assms(2) show "history_legal (snapshot_of r) (map bid_of (history_of d a)) \<and>
      (\<forall>b \<in> set (history_of d a). W (ra_starts_at r) (ra_ends_at r) (rb_accepted_at b))"
    by (simp add: history_of_def history_legal_def)
qed

lemma audit_reports:
  assumes "db_wf d"
    and "\<And>a r. a \<in> set ids \<Longrightarrow> auctions d a = Some r \<Longrightarrow> py_strip (ra_title r) = ra_title r"
  shows "audit ids now u d = Inr (concat (map (\<lambda>a. ir_violations (report_on d a)) ids))"
  using assms(2)
proof (induction ids)
  case (Cons a ids)
  have "run_alone (check_auction_invariants a) now u d = (Some (Inr (report_on d a)), d)"
    by (rule check_alone [OF assms(1)]) (rule Cons.prems, simp_all)
  moreover have "audit ids now u d = Inr (concat (map (\<lambda>a. ir_violations (report_on d a)) ids))"
    by (rule Cons.IH) (rule Cons.prems, simp_all)
  ultimately show ?case by simp
qed simp

text \<open>The audit is empty exactly when every history is legal and inside its window.\<close>

definition history_fair :: "db \<Rightarrow> uuid \<Rightarrow> bool" where
  "history_fair d a \<longleftrightarrow>
     (\<exists>r. auctions d a = Some r \<and>
        history_legal (snapshot_of r) (map bid_of (select_bids_of a (bids d))) \<and>
        history_in_window (snapshot_of r) (map bid_of (select_bids_of a (bids d))))"

lemma audit_decides:
  assumes "db_wf d"
    and known: "\<And>a. a \<in> set ids \<Longrightarrow> \<exists>r. auctions d a = Some r \<and> py_strip (ra_title r) = ra_title r"
  shows "\<exists>vs. audit ids now u d = Inr vs \<and> (vs = [] \<longleftrightarrow> (\<forall>a \<in> set ids. history_fair d a)) \<and>
    (vs = [] \<longleftrightarrow> (\<forall>a \<in> set ids. report_valid (report_on d a)))"
proof -
  let ?vs = "concat (map (\<lambda>a. ir_violations (report_on d a)) ids)"
  have "audit ids now u d = Inr ?vs" by (rule audit_reports [OF assms(1)]) (use known in fastforce)
  moreover have "?vs = [] \<longleftrightarrow> (\<forall>a \<in> set ids. report_valid (report_on d a))"
    by (simp add: report_valid_def)
  moreover have "report_valid (report_on d a) \<longleftrightarrow> history_fair d a" if a: "a \<in> set ids" for a
  proof -
    obtain r where "auctions d a = Some r" "py_strip (ra_title r) = ra_title r" using known [OF a] by blast
    then show ?thesis using report_decides [OF assms(1), of a] by (simp add: history_fair_def)
  qed
  ultimately show ?thesis by auto
qed

text \<open>An auction that is stored before a load is stored after it, with the same title.\<close>

lemma known_after:
  assumes "read_committed_service store call step" "at_start store call s" "runs step (s, ps) (s', ps')"
    and "titles_clean (store s)" "auctions (store s) a \<noteq> None"
  shows "\<exists>r. auctions (store s') a = Some r \<and> py_strip (ra_title r) = ra_title r"
proof -
  obtain r0 where r0: "auctions (store s) a = Some r0" using assms(5) by auto
  obtain r where r: "auctions (store s') a = Some r" "same_terms r0 r"
    using read_committed_service.runs_terms [OF assms(1,3)]
      read_committed_service.at_start_isolated [OF assms(1,2)] r0 by fastforce
  have "py_strip (ra_title r0) = ra_title r0" using assms(4) r0 by (simp add: titles_clean_def)
  with same_termsD(4) [OF r(2)] r(1) show ?thesis by simp
qed

text \<open>
  The verdict of a trial is sound: whatever the strategies do under load, the audit of
  the seeded auctions ends without an exception, it is empty exactly when every history is
  legal and inside its window, and after an optimistic load it is empty.
\<close>

theorem trial_verdict:
  assumes "read_committed_service store call step" "at_start store call s"
    and "bids (store s) = []" "titles_clean (store s)" "\<And>a. a \<in> set ids \<Longrightarrow> auctions (store s) a \<noteq> None"
    and "\<And>p. strat p \<in> code_strategies"
    and "runs step (s, \<lambda>p. service_call (strat p) (calls p)) (s', ps')"
  shows "\<exists>vs. audit ids now u (store s') = Inr vs \<and>
    (vs = [] \<longleftrightarrow> (\<forall>a \<in> set ids. \<exists>r. auctions (store s') a = Some r \<and>
       history_legal (snapshot_of r) (map bid_of (select_bids_of a (bids (store s')))) \<and>
       history_in_window (snapshot_of r) (map bid_of (select_bids_of a (bids (store s')))))) \<and>
    ((\<forall>p. strat p \<in> range optimistic_place_bid) \<longrightarrow> vs = [])"
proof -
  let ?d = "store s'"
  have wf: "db_wf ?d" by (rule read_committed_service.load_wf [OF assms(1,2,7)])
  note known = known_after [OF assms(1,2,7,4)]
  obtain vs where vs: "audit ids now u ?d = Inr vs" "vs = [] \<longleftrightarrow> (\<forall>a \<in> set ids. history_fair ?d a)"
    "vs = [] \<longleftrightarrow> (\<forall>a \<in> set ids. report_valid (report_on ?d a))"
    using audit_decides [OF wf known [OF assms(5)]] by blast
  have "vs = []" if "\<forall>p. strat p \<in> range optimistic_place_bid"
  proof -
    from that have "\<exists>m. \<forall>p. strat p = optimistic_place_bid (m p)" by (intro choice) auto
    then obtain m where m: "strat = (\<lambda>p. optimistic_place_bid (m p))" by auto
    have wf0: "db_wf (store s)" using assms(2) by (simp add: at_start_def)
    have "ledger within ?d \<and> titles_clean ?d"
      by (rule read_committed_service.load_ledger [OF assms(1,2) optimistic.safe_bid_strategy_axioms
            _ assms(7) [unfolded m] ledger_no_bids [OF wf0 assms(3)] assms(4)])
    then show ?thesis using vs(3) known [OF assms(5)] report_on_within [OF wf] by blast
  qed
  with vs(1,2) show ?thesis by (auto simp: history_fair_def)
qed

theorem trial_verdict_witness:
  "\<exists>s ps. runs service_step
      (two_connections, \<lambda>p. service_call (optimistic_place_bid 3) (two_bids p)) (s, ps) \<and>
    status_of (answer (ps 0)) = Some ACCEPTED \<and> audit [1] 9 9 (sv_store s) = Inr []"
proof -
  obtain s ps where r: "runs service_step
      (two_connections, \<lambda>p. service_call (optimistic_place_bid 3) (two_bids p)) (s, ps)"
    and st: "status_of (answer (ps 0)) = Some ACCEPTED"
    by (rule observed_reached [OF optimistic_race_observed])
  have "optimistic_place_bid 3 \<in> code_strategies" by (simp add: code_strategies_def)
  with trial_verdict [OF service_axioms two_connections_start _ _ _ _ r, of "[1]" 9 9]
  have "audit [1] 9 9 (sv_store s) = Inr []"
    using lot_db_titles by (auto simp: lot_db_def)
  with r st show ?thesis by blast
qed

end
