(* ===== verification/Http_Properties.thy ===== *)
theory Http_Properties
  imports Http_Benchmark Wire_Properties Benchmark_Properties
begin

section \<open>Properties of the benchmark over HTTP\<close>

subsection \<open>A bid through the server\<close>

lemma run_of_py: "run (of_py m) ch n d l = (Some m, d, l)"
  by (cases m) simp_all

lemma run_tried:
  assumes "fst (run p ch n d l) = Some r"
    and "\<And>x. g (f x) = of_py (G x)" "\<And>e. prog_bind (h e) g = of_py (H e)"
  shows "run (prog_bind (prog_try (prog_bind p (\<lambda>x. Ret (f x))) h) g) ch n d l =
    (Some (case r of Inl e \<Rightarrow> H e | Inr x \<Rightarrow> G x), snd (run p ch n d l))"
  using assms(1)
  by (induction p arbitrary: n d l) (auto simp: assms(2,3) run_of_py split: option.splits)

text \<open>What the handler of a bid makes of the way the strategy ended.\<close>

definition route_answer :: "uuid \<Rightarrow> bid_outcome py \<Rightarrow> (http_response \<times> state_event option) py" where
  "route_answer a result =
     (case result of
        Inr x \<Rightarrow> placement_answer a x
      | Inl e \<Rightarrow> (case e of StrategyBusyError m \<Rightarrow> Inr (busy_response, None) | _ \<Rightarrow> Inl e))"

lemma place_bid_route_run:
  assumes "make_bid_command (br_request_id b) a (br_bidder_id b) (PyInt (br_amount_cents b)) = Inr c"
    and "fst (run (strategy c) ch n d l) = Some result"
  shows "run (place_bid_route strategy a b) ch n d l =
    (Some (route_answer a result), snd (run (strategy c) ch n d l))"
  unfolding place_bid_route_def service_place_bid_def assms(1) of_py_simps prog_bind.simps route_answer_def
  by (rule trans [OF run_tried [OF assms(2), where G = "placement_answer a" and
        H = "\<lambda>e. case e of StrategyBusyError m \<Rightarrow> Inr (busy_response, None) | _ \<Rightarrow> Inl e"]])
    (simp_all split: py_exn.split sum.split)

definition http_reply :: "(instant \<Rightarrow> string) \<Rightarrow> http_response \<Rightarrow> reply" where
  "http_reply isoformat response =
     Reply (response_status response) (Some (response_json isoformat response))"

lemma serve_run:
  assumes "fst (run p ch n d l) = Some r"
  shows "run (serve isoformat unhandled (prog_bind p (\<lambda>x. Ret (f x)))) ch n d l =
    (Some (Inr (case r of Inl e \<Rightarrow> unhandled | Inr x \<Rightarrow> http_reply isoformat (f x))), snd (run p ch n d l))"
  using assms unfolding serve_def
  by (induction p arbitrary: n d l) (auto simp: http_reply_def split: option.splits)

lemmas reading_simps = observe_reply_def reply_values_def read_reply_def json_item_def json_get_def
  field_def http_reply_def

lemma observe_placement:
  "observe_reply index a amount latency (http_reply isoformat (Placement_Response r)) =
     Some \<lparr>ob_request_index = index, ob_auction_id = a, ob_amount_cents = amount, ob_latency_ns = latency,
       ob_status = status_value (pr_status r), ob_reason = None, ob_attempts = pr_attempts r,
       ob_conflicts = pr_conflicts r\<rparr>"
  by (simp add: reading_simps placement_json_def)

lemma observe_error:
  assumes "code \<noteq> 200"
  shows "observe_reply index a amount latency (http_reply isoformat (Error_Response code reason least retry_after)) =
     Some \<lparr>ob_request_index = index, ob_auction_id = a, ob_amount_cents = amount, ob_latency_ns = latency,
       ob_status = ''rejected'', ob_reason = Some reason, ob_attempts = 1, ob_conflicts = 0\<rparr>"
  using assms by (cases least) (simp_all add: reading_simps)

lemma observe_not_json:
  "observe_reply index a amount latency (Reply code None) =
     Some \<lparr>ob_request_index = index, ob_auction_id = a, ob_amount_cents = amount, ob_latency_ns = latency,
       ob_status = ''system_error'', ob_reason = Some ''JSONDecodeError'', ob_attempts = 1, ob_conflicts = 0\<rparr>"
  by (simp add: reading_simps)

lemma rejection_status_not_200: "rejection_status reason \<noteq> 200"
  by (simp add: rejection_status_def)

text \<open>The body of the client is a body the schema accepts, and makes the command of the other mode.\<close>

definition seeded_command :: "uuid \<Rightarrow> uuid \<Rightarrow> nat \<Rightarrow> cents \<Rightarrow> bid_command" where
  "seeded_command request a index amount =
     \<lparr>cmd_request_id = request, cmd_auction_id = a, cmd_bidder_id = ''bidder-'' @ py_str_nat index,
      cmd_amount_cents = amount\<rparr>"

lemma bid_request_accepted:
  assumes "uuid_of (uuid_json request) = Some request" "index < 10 ^ 90" "money_ok amount"
  shows "place_bid_body uuid_of (bid_request_json request index amount) =
    Inr \<lparr>br_request_id = request, br_bidder_id = ''bidder-'' @ py_str_nat index, br_amount_cents = amount\<rparr>"
    and "make_bid_command request a (''bidder-'' @ py_str_nat index) (PyInt amount) =
    Inr (seeded_command request a index amount)"
proof -
  have "length (py_str_nat index) \<le> 90" using py_str_nat_length [of index 89] assms(2) by simp
  with assms bidder_stripped [of index]
  show "place_bid_body uuid_of (bid_request_json request index amount) =
    Inr \<lparr>br_request_id = request, br_bidder_id = ''bidder-'' @ py_str_nat index, br_amount_cents = amount\<rparr>"
    unfolding place_bid_body_eq_Inr
    by (intro exI [of _ "[(''request_id'', uuid_json request), (''bidder_id'', JText (''bidder-'' @ py_str_nat index)),
        (''amount_cents'', JInt amount)]"] exI [of _ "uuid_json request"] exI [of _ request]
        exI [of _ "''bidder-'' @ py_str_nat index"] exI [of _ amount] conjI)
      (simp_all add: bid_request_json_def field_def limit_defs)
  show "make_bid_command request a (''bidder-'' @ py_str_nat index) (PyInt amount) =
    Inr (seeded_command request a index amount)"
    using bidder_command [of index amount request a] assms(2,3) by (simp add: seeded_command_def)
qed

text \<open>How the observation of a reply differs from that of the call behind it.\<close>

definition over_http :: "bid_outcome py \<Rightarrow> request_observation \<Rightarrow> request_observation" where
  "over_http result =
     (case result of
        Inr x \<Rightarrow> (\<lambda>ob. if out_status x = REJECTED then ob\<lparr>ob_attempts := 1, ob_conflicts := 0\<rparr> else ob)
      | Inl e \<Rightarrow>
          (case e of
             StrategyBusyError m \<Rightarrow>
               (\<lambda>ob. ob\<lparr>ob_status := ''rejected'', ob_reason := Some ''database_busy''\<rparr>)
           | _ \<Rightarrow> (\<lambda>ob. ob\<lparr>ob_reason := Some ''JSONDecodeError''\<rparr>)))"

lemma observe_over_http:
  assumes "\<And>x. result = Inr x \<Longrightarrow> valid_outcome x" "unhandled = Reply code None"
  shows "observe_reply index a amount latency
      (case route_answer a result of Inl e \<Rightarrow> unhandled | Inr ans \<Rightarrow> http_reply isoformat (fst ans)) =
    Some (over_http result (observe index (seeded_command request a index amount) latency result))"
proof (cases result)
  case (Inl e)
  then show ?thesis
    by (cases e) (simp_all add: route_answer_def busy_response_def observe_error observe_not_json
        assms(2) observe_def seeded_command_def over_http_def)
next
  case (Inr x)
  with assms(1) have v: "valid_outcome x" by blast
  show ?thesis
  proof (cases "out_status x = REJECTED")
    case True
    with v obtain reason where "out_rejection_reason x = Some reason" by (auto simp: valid_outcome_def)
    with True Inr show ?thesis
      by (simp add: route_answer_def placement_answer_def observe_error rejection_status_not_200
          observe_def seeded_command_def over_http_def)
  next
    case False
    with v obtain bid where "out_bid x = Some bid" "out_rejection_reason x = None"
      by (auto simp: valid_outcome_def)
    with False Inr show ?thesis
      by (cases "out_status x") (simp_all add: route_answer_def placement_answer_def
          placement_response_of_def observe_placement observe_def seeded_command_def over_http_def)
  qed
qed

text \<open>
  C36. The two modes of the benchmark measure the same bids. A bid of the HTTP client is accepted
  by the schema and hands the strategy the very command that the repository mode hands it; with
  the database in the same state and behaving the same, it is left in the same state; and the
  client records the observation of the repository mode, except that a rejection is recorded with
  one attempt and no conflict, a \<open>StrategyBusyError\<close> as a rejection \<open>database_busy\<close> instead of a
  system error, and any other exception as the client's \<open>JSONDecodeError\<close>.
\<close>

theorem http_observation_agrees:
  assumes "uuid_of (uuid_json request) = Some request" "index < 10 ^ 90" "money_ok amount"
    and "fst (run (strategy (seeded_command request a index amount)) ch n d l) = Some result"
    and "\<And>x. result = Inr x \<Longrightarrow> valid_outcome x" "unhandled = Reply code None"
  shows "\<exists>reply.
    run (post_bid uuid_of isoformat errors unhandled strategy a (bid_request_json request index amount)) ch n d l =
      (Some (Inr reply), snd (run (strategy (seeded_command request a index amount)) ch n d l)) \<and>
    observe_reply index a amount latency reply =
      Some ((case result of
          Inr x \<Rightarrow> (\<lambda>ob. if out_status x = REJECTED then ob\<lparr>ob_attempts := 1, ob_conflicts := 0\<rparr> else ob)
        | Inl e \<Rightarrow>
            (case e of
               StrategyBusyError m \<Rightarrow>
                 (\<lambda>ob. ob\<lparr>ob_status := ''rejected'', ob_reason := Some ''database_busy''\<rparr>)
             | _ \<Rightarrow> (\<lambda>ob. ob\<lparr>ob_reason := Some ''JSONDecodeError''\<rparr>)))
        (observe index (seeded_command request a index amount) latency result))"
proof -
  let ?c = "seeded_command request a index amount"
  let ?b = "\<lparr>br_request_id = request, br_bidder_id = ''bidder-'' @ py_str_nat index, br_amount_cents = amount\<rparr>"
  let ?reply = "case route_answer a result of Inl e \<Rightarrow> unhandled | Inr ans \<Rightarrow> http_reply isoformat (fst ans)"
  note accepted = bid_request_accepted [where uuid_of = uuid_of, OF assms(1-3)]
  have command: "make_bid_command (br_request_id ?b) a (br_bidder_id ?b) (PyInt (br_amount_cents ?b)) = Inr ?c"
    using accepted(2) by simp
  note route = place_bid_route_run [where strategy = strategy, OF command assms(4)]
  have ended: "fst (run (place_bid_route strategy a ?b) ch n d l) = Some (route_answer a result)"
    by (simp only: route fst_conv)
  have "run (post_bid uuid_of isoformat errors unhandled strategy a (bid_request_json request index amount)) ch n d l =
      (Some (Inr ?reply), snd (run (strategy ?c) ch n d l))"
    by (simp only: post_bid_def accepted(1) sum.case serve_run [OF ended] route snd_conv)
  moreover have "observe_reply index a amount latency ?reply =
      Some (over_http result (observe index ?c latency result))"
    by (rule observe_over_http [OF assms(5,6)])
  ultimately show ?thesis unfolding over_http_def by blast
qed

theorem http_observation_agrees_witness:
  "\<exists>reply. fst (run (post_bid as_uuid py_str_int (\<lambda>e. []) (Reply 500 None) pessimistic_place_bid 1
        (bid_request_json 11 0 200)) (\<lambda>n. if n = 2 then Fault LockNotAvailable else Go 5 100) 0 lot_db (idle 0)) =
      Some (Inr reply) \<and>
    map_option ob_status (observe_reply 0 1 200 7 reply) = Some ''rejected'' \<and>
    ob_status (observe 0 (seeded_command 11 1 0 200) 7
      (Inl (StrategyBusyError ''database wait timeout expired''))) = ''system_error''"
proof -
  have u: "as_uuid (uuid_json 11) = Some 11" by (simp add: as_uuid_def uuid_json_def py_uuid_str)
  have m: "money_ok 200" by (simp add: money_ok_def limit_defs)
  have r: "fst (run (pessimistic_place_bid (seeded_command 11 1 0 200))
      (\<lambda>n. if n = 2 then Fault LockNotAvailable else Go 5 100) 0 lot_db (idle 0)) =
    Some (Inl (StrategyBusyError ''database wait timeout expired''))"
    by code_simp
  from http_observation_agrees [where strategy = pessimistic_place_bid and unhandled = "Reply 500 None"
      and uuid_of = as_uuid and isoformat = py_str_int and errors = "\<lambda>e. []" and latency = 7,
      OF u _ m r _ refl]
  show ?thesis by (auto simp: observe_def seeded_command_def)
qed

subsection \<open>Seeding through the API\<close>

lemma run_try_success:
  "fst (run p ch n d l) = Some (Inr x) \<Longrightarrow>
   run (prog_bind (prog_try p h) g) ch n d l = run (prog_bind p g) ch n d l"
  by (induction p arbitrary: n d l) (auto split: option.splits)

definition http_title :: "nat \<Rightarrow> string" where
  "http_title i = ''HTTP benchmark auction '' @ py_str_nat i"

lemma http_title:
  assumes "i < 10 ^ 100"
  shows "py_strip (http_title i) = http_title i" "length (http_title i) \<le> MAX_TITLE_LENGTH"
    "auction_terms_ok (http_title i) 10000 100 (t - 60 * 1000000) (t + 30 * 60 * 1000000)"
proof -
  show s: "py_strip (http_title i) = http_title i"
    unfolding http_title_def by (rule numbered_stripped) (simp_all add: py_space_def)
  show l: "length (http_title i) \<le> MAX_TITLE_LENGTH"
    using py_str_nat_length [of i 99] assms by (simp add: http_title_def limit_defs)
  have "http_title i \<noteq> []" by (simp add: http_title_def)
  with s l show "auction_terms_ok (http_title i) 10000 100 (t - 60 * 1000000) (t + 30 * 60 * 1000000)"
    by (simp add: auction_terms_ok_def money_ok_def limit_defs)
qed

lemma auction_request_accepted:
  assumes "i < 10 ^ 100" "\<And>t. time_of (JText (isoformat t)) = Some (Aware t)"
  shows "create_auction_body time_of (auction_request_json isoformat i t) =
    Inr \<lparr>cr_title = http_title i, cr_starting_price_cents = 10000, cr_minimum_increment_cents = 100,
      cr_starts_at = t - 60 * 1000000, cr_ends_at = t + 30 * 60 * 1000000\<rparr>"
proof -
  let ?get = "\<lambda>key. the (field key
    [(''title'', JText (http_title i)), (''starting_price_cents'', JInt 10000),
     (''minimum_increment_cents'', JInt 100), (''starts_at'', JText (isoformat (t - 60 * 1000000))),
     (''ends_at'', JText (isoformat (t + 30 * 60 * 1000000)))])"
  have "strict_schema
      [''title'', ''starting_price_cents'', ''minimum_increment_cents'', ''starts_at'', ''ends_at'']
      (auction_request_json isoformat i t) = Inr ?get"
    unfolding auction_request_json_def http_title_def [symmetric] strict_schema_object by simp
  moreover have "?get ''title'' = JText (http_title i)" "?get ''starting_price_cents'' = JInt 10000"
    "?get ''minimum_increment_cents'' = JInt 100"
    "?get ''starts_at'' = JText (isoformat (t - 60 * 1000000))"
    "?get ''ends_at'' = JText (isoformat (t + 30 * 60 * 1000000))"
    by (simp_all add: field_def)
  moreover have "http_title i \<noteq> []" "1 \<le> length (http_title i)" by (simp_all add: http_title_def)
  ultimately show ?thesis
    using http_title [OF assms(1)] assms(2)
    by (simp only: create_auction_body_def and_then_eq_Inr time_field_eq_Inr parse_create_auction_def
        text_value.simps int_value.simps text_field_eq_Inr money_field_eq_Inr aware_field_eq_Inr)
      (simp add: validate_values_def money_ok_def limit_defs)
qed

lemma created_id_reply:
  assumes "u < 2 ^ 128" "rs_id a = u"
  shows "created_id (http_reply isoformat (Auction_Response 201 a)) = Inr u"
  using py_uuid_str [OF assms(1)] assms(2)
  by (simp add: created_id_def http_reply_def json_item_def field_def auction_json_def uuid_json_def)

lemma http_create_runs:
  assumes "ready now l" "auctions d (f n) = None" "f n < 2 ^ 128" "i < 10 ^ 100"
    and "\<And>t. time_of (JText (isoformat t)) = Some (Aware t)"
    and r: "r = new_auction (http_title i) 10000 100 (t - 60 * 1000000) (t + 30 * 60 * 1000000) now (f n)"
  shows "\<exists>l'. ready now l' \<and>
    (\<forall>g :: uuid \<Rightarrow> 'a prog.
      run (prog_bind (http_create_auction (post_auction time_of isoformat errors unhandled) isoformat t i) g)
        (\<lambda>k. Go now (f k)) n d l =
      run (g (f n)) (\<lambda>k. Go now (f k)) (n + 4) (d\<lparr>auctions := (auctions d)(f n \<mapsto> r)\<rparr>) l')"
proof -
  let ?ch = "\<lambda>k. Go now (f k)" and ?d = "d\<lparr>auctions := (auctions d)(f n \<mapsto> r)\<rparr>"
  let ?body = "\<lparr>cr_title = http_title i, cr_starting_price_cents = 10000, cr_minimum_increment_cents = 100,
      cr_starts_at = t - 60 * 1000000, cr_ends_at = t + 30 * 60 * 1000000\<rparr>"
  let ?handler = "prog_bind (create_auction_route ?body)
    (\<lambda>response. Ret (Reply (response_status response) (Some (response_json isoformat response))))"
  let ?reply = "http_reply isoformat (Auction_Response 201 (auction_response_of (snapshot_of r)))"
  note terms = http_title(3) [OF assms(4), of t]
  obtain l' where l': "ready now l'"
    "\<And>g :: auction_snapshot \<Rightarrow> 'a prog. run (prog_bind (repo_create (http_title i) 10000 100 (t - 60 * 1000000)
        (t + 30 * 60 * 1000000) None) g) ?ch n d l = run (g (snapshot_of r)) ?ch (n + 4) ?d l'"
    using create_runs [where f = f, OF assms(1,2) terms r] by blast
  have answer: "fst (run ?handler ?ch n d l) = Some (Inr ?reply)"
    using create_runs [where f = f and 'a = reply, OF assms(1,2) terms r]
    by (auto simp: create_auction_route_def service_create_auction_def prog_bind_assoc http_reply_def)
  have id: "created_id ?reply = Inr (f n)"
    by (rule created_id_reply [OF assms(3)]) (simp add: r new_auction_def auction_response_of_def)
  have "run (prog_bind (http_create_auction (post_auction time_of isoformat errors unhandled) isoformat t i) g)
        ?ch n d l = run (g (f n)) ?ch (n + 4) ?d l'" for g :: "uuid \<Rightarrow> 'a prog"
  proof -
    have "run (prog_bind (http_create_auction (post_auction time_of isoformat errors unhandled) isoformat t i) g)
        ?ch n d l = run (prog_bind ?handler (\<lambda>response. prog_bind (of_py (created_id response)) g)) ?ch n d l"
      by (simp only: http_create_auction_def post_auction_def auction_request_accepted [OF assms(4,5)]
          sum.case serve_def prog_bind_assoc [of _ _ g] run_try_success [OF answer])
    also have "\<dots> = run (prog_bind (of_py (created_id ?reply)) g) ?ch (n + 4) ?d l'"
      by (simp add: create_auction_route_def service_create_auction_def prog_bind_assoc l'(2) [simplified] http_reply_def)
    also have "\<dots> = run (g (f n)) ?ch (n + 4) ?d l'" by (simp only: id of_py_simps prog_bind.simps)
    finally show ?thesis .
  qed
  with l'(1) show ?thesis by blast
qed

text \<open>A sequence of auctions, for indices in turn.\<close>

lemma http_create_auctions_runs:
  assumes "ready now l" "inj_on f {..<N}" "\<forall>k < N. f k < 2 ^ 128" "n + 4 * length indices \<le> N"
    and "\<forall>k. n \<le> k \<and> k < N \<longrightarrow> auctions d (f k) = None" "db_wf d" "titles_clean d"
    and "\<forall>i \<in> set indices. i < 10 ^ 100" "\<And>t. time_of (JText (isoformat t)) = Some (Aware t)"
  shows "\<exists>ids d' l'. ready now l' \<and> distinct ids \<and> set ids \<subseteq> f ` {n..<n + 4 * length indices} \<and>
    bids d' = bids d \<and> db_wf d' \<and> titles_clean d' \<and>
    list_all2 (\<lambda>i a. \<exists>r. auctions d' a = Some r \<and> seeded_row (clock i) r) indices ids \<and>
    (\<forall>a. a \<notin> set ids \<longrightarrow> auctions d' a = auctions d a) \<and>
    (\<forall>g :: uuid list \<Rightarrow> 'a prog.
      run (prog_bind (http_create_auctions (post_auction time_of isoformat errors unhandled) isoformat clock indices) g)
        (\<lambda>k. Go now (f k)) n d l =
      run (g ids) (\<lambda>k. Go now (f k)) (n + 4 * length indices) d' l')"
  using assms(1,4-8)
proof (induction indices arbitrary: n d l)
  case Nil
  then show ?case by (intro exI [of _ "[]"] exI [of _ d] exI [of _ l]) simp
next
  case (Cons i indices)
  define r where "r = new_auction (http_title i) 10000 100 (clock i - 60 * 1000000)
    (clock i + 30 * 60 * 1000000) now (f n)"
  define d1 where "d1 = d\<lparr>auctions := (auctions d)(f n \<mapsto> r)\<rparr>"
  have n: "n < N" "n + 4 + 4 * length indices \<le> N" and i: "i < 10 ^ 100" using Cons.prems by simp_all
  have apart: "f k \<noteq> f n" if "n < k" "k < N" for k
    using inj_onD [OF assms(2), of k n] that by auto
  have new: "auctions d (f n) = None" and u: "f n < 2 ^ 128" using Cons.prems(3) assms(3) n(1) by simp_all
  note row = benchmark_row [OF http_title(3) [OF i] r_def]
  obtain l1 where l1: "ready now l1"
    "\<And>g :: uuid \<Rightarrow> 'a prog.
      run (prog_bind (http_create_auction (post_auction time_of isoformat errors unhandled) isoformat (clock i) i) g)
        (\<lambda>k. Go now (f k)) n d l = run (g (f n)) (\<lambda>k. Go now (f k)) (n + 4) d1 l1"
    using http_create_runs [where f = f and time_of = time_of, OF Cons.prems(1) new u i assms(9) r_def]
    unfolding d1_def by blast
  have "db_wf d1" "titles_clean d1"
    unfolding d1_def by (rule row(4) [OF Cons.prems(4) new], rule row(5) [OF Cons.prems(5)])
  moreover have "\<forall>k. n + 4 \<le> k \<and> k < N \<longrightarrow> auctions d1 (f k) = None"
    using Cons.prems(3) apart by (simp add: d1_def)
  moreover have "\<forall>j \<in> set indices. j < 10 ^ 100" using Cons.prems(6) by simp
  ultimately obtain ids d' l' where IH: "ready now l'" "distinct ids"
    "set ids \<subseteq> f ` {n + 4..<n + 4 + 4 * length indices}" "bids d' = bids d1" "db_wf d'" "titles_clean d'"
    "list_all2 (\<lambda>i a. \<exists>r. auctions d' a = Some r \<and> seeded_row (clock i) r) indices ids"
    "\<forall>a. a \<notin> set ids \<longrightarrow> auctions d' a = auctions d1 a"
    "\<And>g :: uuid list \<Rightarrow> 'a prog.
      run (prog_bind (http_create_auctions (post_auction time_of isoformat errors unhandled) isoformat clock indices) g)
        (\<lambda>k. Go now (f k)) (n + 4) d1 l1 =
      run (g ids) (\<lambda>k. Go now (f k)) (n + 4 + 4 * length indices) d' l'"
    using Cons.IH [OF l1(1) n(2)] by blast
  have fresh: "f n \<notin> set ids"
  proof
    assume "f n \<in> set ids"
    with IH(3) have "f n \<in> f ` {n + 4..<n + 4 + 4 * length indices}" by blast
    then obtain k where "f n = f k" "n + 4 \<le> k" "k < n + 4 + 4 * length indices" by auto
    with apart [of k] n(2) show False by simp
  qed
  have "set (f n # ids) \<subseteq> f ` {n..<n + 4 * length (i # indices)}" using IH(3) by fastforce
  moreover have "list_all2 (\<lambda>i a. \<exists>r. auctions d' a = Some r \<and> seeded_row (clock i) r) (i # indices) (f n # ids)"
    using IH(7,8) fresh row(1) by (simp add: d1_def)
  moreover have "\<forall>a. a \<notin> set (f n # ids) \<longrightarrow> auctions d' a = auctions d a"
    using IH(8) by (simp add: d1_def)
  moreover have "run (prog_bind (http_create_auctions (post_auction time_of isoformat errors unhandled) isoformat
        clock (i # indices)) g) (\<lambda>k. Go now (f k)) n d l =
      run (g (f n # ids)) (\<lambda>k. Go now (f k)) (n + 4 * length (i # indices)) d' l'" for g :: "uuid list \<Rightarrow> 'a prog"
    using IH(9) [of "\<lambda>us. g (f n # us)"] by (simp add: prog_bind_assoc l1(2) ac_simps)
  ultimately show ?case
    using IH(1,2,4-6) fresh
    by (intro exI [of _ "f n # ids"] exI [of _ d'] exI [of _ l']) (simp add: d1_def)
qed

lemma http_seed_low:
  "http_seed post isoformat clock ''low_contention'' n shuffle =
     prog_bind (http_create_auctions post isoformat clock [0..<nat n])
       (\<lambda>ids. Ret (ids, seed_amounts ''low_contention'' n shuffle))"
  by (simp add: http_seed_def seed_amounts_def)

lemma http_seed_high:
  assumes "workload \<in> {''same_price'', ''unique_prices''}"
  shows "http_seed post isoformat clock workload n shuffle =
     prog_bind (http_create_auctions post isoformat clock [0])
       (\<lambda>ids. Ret (ids, seed_amounts workload n shuffle))"
proof -
  have "map (\<lambda>i. 10000 + 100 * int i) [0..<nat n] = map (\<lambda>i. 10000 + int i * 100) [0..<nat n]" by simp
  with assms show ?thesis
    by (elim insertE emptyE)
      (simp_all only: http_seed_def seed_amounts_def http_create_auctions.simps prog_bind_assoc
        prog_bind.simps list.inject char.inject simp_thms if_True if_False refl)
qed

text \<open>
  The API seeds what the repository seeds. On a reset database that is reachable, with
  identifiers that do not repeat and times that are read as they are written, the client creates
  over HTTP one auction, or one for each bid with low contention, and reads back the identifiers
  the server chose, without an error on the way. The database then holds exactly these auctions,
  with the terms of the repository's workload, each open from a minute before its creation to half
  an hour after, and no bid; the amounts are those of the repository's workload.
\<close>

theorem http_seeded_workload:
  assumes "workload \<in> set WORKLOADS" "0 < n" "n \<le> 10 ^ 20"
    and "inj_on f {..<4 * nat n}" "\<forall>k < 4 * nat n. f k < 2 ^ 128"
    and "\<And>t. time_of (JText (isoformat t)) = Some (Aware t)"
  shows "\<exists>ids d' l'.
    run (http_seed (post_auction time_of isoformat errors unhandled) isoformat clock workload n shuffle)
      (\<lambda>k. Go now (f k)) 0 (reset_experiment_data d) (idle now) =
      (Some (Inr (ids, seed_amounts workload n shuffle)), d', l') \<and>
    distinct ids \<and> length ids = (if workload = ''low_contention'' then nat n else 1) \<and>
    dom (auctions d') = set ids \<and>
    (\<forall>i < length ids. \<exists>r. auctions d' (ids ! i) = Some r \<and> seeded_row (clock i) r) \<and>
    bids d' = [] \<and> db_wf d' \<and> titles_clean d'"
proof -
  let ?d = "reset_experiment_data d" and ?ch = "\<lambda>k. Go now (f k)"
  let ?post = "post_auction time_of isoformat errors unhandled"
  define indices where "indices = (if workload = ''low_contention'' then [0..<nat n] else [0])"
  have start: "ready now (idle now)" "auctions ?d = Map.empty" "bids ?d = []" "db_wf ?d" "titles_clean ?d"
    by (simp_all add: ready_def idle_def reset_experiment_data_def db_wf_def titles_clean_def)
  have size: "0 + 4 * length indices \<le> 4 * nat n" and small: "\<forall>i \<in> set indices. i < 10 ^ 100"
    using assms(2,3) by (auto simp: indices_def)
  have none: "\<forall>k. 0 \<le> k \<and> k < 4 * nat n \<longrightarrow> auctions ?d (f k) = None" by (simp add: start(2))
  obtain ids d' l' where ids: "distinct ids" "bids d' = bids ?d" "db_wf d'" "titles_clean d'"
    "list_all2 (\<lambda>i a. \<exists>r. auctions d' a = Some r \<and> seeded_row (clock i) r) indices ids"
    "\<forall>a. a \<notin> set ids \<longrightarrow> auctions d' a = auctions ?d a"
    "\<And>g :: uuid list \<Rightarrow> (uuid list \<times> cents list) prog.
      run (prog_bind (http_create_auctions ?post isoformat clock indices) g) ?ch 0 ?d (idle now) =
      run (g ids) ?ch (0 + 4 * length indices) d' l'"
    using http_create_auctions_runs [where f = f and time_of = time_of and clock = clock,
      OF start(1) assms(4,5) size none start(4,5) small assms(6)] by blast
  have "workload = ''low_contention'' \<or> workload \<in> {''same_price'', ''unique_prices''}"
    using assms(1) by (auto simp: WORKLOADS_def)
  then have "http_seed ?post isoformat clock workload n shuffle =
      prog_bind (http_create_auctions ?post isoformat clock indices)
        (\<lambda>ids. Ret (ids, seed_amounts workload n shuffle))"
    using http_seed_low http_seed_high unfolding indices_def by fastforce
  then have run: "run (http_seed ?post isoformat clock workload n shuffle) ?ch 0 ?d (idle now) =
      (Some (Inr (ids, seed_amounts workload n shuffle)), d', l')"
    by (simp only: ids(7) run.simps)
  have length: "length ids = length indices" using ids(5) by (simp add: list_all2_lengthD)
  have "indices ! i = i" if "i < length indices" for i
    using that by (auto simp: indices_def split: if_splits)
  then have rows: "\<forall>i < length ids. \<exists>r. auctions d' (ids ! i) = Some r \<and> seeded_row (clock i) r"
    using ids(5) length by (auto simp: list_all2_conv_all_nth)
  then have "set ids \<subseteq> dom (auctions d')" by (metis domI in_set_conv_nth subsetI)
  moreover have "dom (auctions d') \<subseteq> set ids" using ids(6) start(2) by (metis domIff subsetI)
  moreover have "length indices = (if workload = ''low_contention'' then nat n else 1)"
    by (simp add: indices_def)
  ultimately show ?thesis
    using run ids(1-4) rows length start(3) by (intro exI [of _ ids] exI [of _ d'] exI [of _ l']) auto
qed

text \<open>A way to write times as texts, for the witness.\<close>

definition unary_time :: "instant \<Rightarrow> string" where
  "unary_time t = (if t < 0 then CHR ''-'' else CHR ''+'') # replicate (nat \<bar>t\<bar>) CHR ''I''"

definition of_unary_time :: "json \<Rightarrow> py_datetime option" where
  "of_unary_time j =
     (case j of
        JText (c # s) \<Rightarrow> Some (Aware (if c = CHR ''-'' then - int (length s) else int (length s)))
      | _ \<Rightarrow> None)"

theorem http_seeded_workload_witness:
  "\<exists>u d' l'.
    run (http_seed (post_auction of_unary_time unary_time (\<lambda>e. []) (Reply 500 None)) unary_time (\<lambda>i. 50)
        ''unique_prices'' 3 rev) (\<lambda>k. Go 60 k) 0 (reset_experiment_data empty_db) (idle 60) =
      (Some (Inr ([u], [10200, 10100, 10000])), d', l') \<and> dom (auctions d') = {u} \<and> bids d' = []"
proof -
  have w: "''unique_prices'' \<in> set WORKLOADS" "(0 :: int) < 3" "(3 :: int) \<le> 10 ^ 20"
    by (simp_all add: WORKLOADS_def)
  have f: "inj_on (\<lambda>k. k) {..<4 * nat 3}" "\<forall>k < 4 * nat 3. (k :: uuid) < 2 ^ 128" by auto
  have t: "of_unary_time (JText (unary_time t)) = Some (Aware t)" for t
    by (simp add: of_unary_time_def unary_time_def)
  have a: "seed_amounts ''unique_prices'' 3 rev = [10200, 10100, 10000]"
    by (simp add: seed_amounts_def upt_conv_Cons)
  from http_seeded_workload [where f = "\<lambda>k. k" and shuffle = rev and now = 60 and clock = "\<lambda>i. 50"
      and errors = "\<lambda>e. []" and unhandled = "Reply 500 None" and d = empty_db, OF w f t]
  obtain ids d' l' where r: "run (http_seed (post_auction of_unary_time unary_time (\<lambda>e. []) (Reply 500 None))
        unary_time (\<lambda>i. 50) ''unique_prices'' 3 rev) (\<lambda>k. Go 60 k) 0 (reset_experiment_data empty_db) (idle 60) =
      (Some (Inr (ids, [10200, 10100, 10000])), d', l')" "dom (auctions d') = set ids" "bids d' = []"
    and "length ids = 1"
    unfolding a by (elim exE conjE) simp
  from \<open>length ids = 1\<close> obtain u where "ids = [u]" by (auto simp: length_Suc_conv)
  with r show ?thesis by auto
qed

end
