(* ===== verification/Trials.thy ===== *)
theory Trials
  imports Benchmark_Properties Runner
begin

section \<open>A whole trial\<close>

text \<open>
  \<open>run_trial\<close> from the seeded database to the summary: the load is an execution in which the first
  connections place the commands, in any interleaving with any faults, and no others do anything.
  What a pool of threads makes of the commands, at most \<open>concurrency\<close> of them under way at a time, is
  one of these executions.
\<close>

subsection \<open>Counting the bids of an execution\<close>

context read_committed_service
begin

text \<open>Every bid that is added was logged by the call that committed it.\<close>

lemma step_accounts:
  assumes "step s p st c = Some (r, s')" "finite P" "p \<in> P"
  shows "length (bids (store s')) + (\<Sum>q \<in> P. length (log_bids (call s q))) =
    length (bids (store s)) + (\<Sum>q \<in> P. length (log_bids (call s' q)))"
  using own_effect [OF assms(1)]
proof (cases rule: exec1_db)
  case same
  then have "log_bids (call s' q) = log_bids (call s q)" for q
    using no_interference [OF assms(1), of q] by (cases "q = p") (auto simp: log_bids_def)
  with same commits_only [OF assms(1)] show ?thesis by simp
next
  case (commit t)
  have logs: "length (log_bids (call s' q)) = length (log_bids (call s q)) + (if q = p then length (t_bids t) else 0)"
    for q
    using no_interference [OF assms(1), of q] commit(6) by (auto simp: log_bids_def)
  have "bids (store s') = bids (store s) @ t_bids t"
    using commits_only [OF assms(1)] commit(5) by (simp add: apply_txn_def)
  then show ?thesis using assms(2,3) by (simp add: logs sum.distrib)
qed

lemma runs_accounts:
  assumes "runs step x y" "finite P" "\<And>p. p \<notin> P \<Longrightarrow> \<exists>v. snd x p = Ret v"
  shows "length (bids (store (fst y))) + (\<Sum>q \<in> P. length (log_bids (call (fst x) q))) =
    length (bids (store (fst x))) + (\<Sum>q \<in> P. length (log_bids (call (fst y) q)))"
    and "\<And>p. p \<notin> P \<Longrightarrow> snd y p = snd x p"
proof -
  have "length (bids (store (fst y))) + (\<Sum>q \<in> P. length (log_bids (call (fst x) q))) =
    length (bids (store (fst x))) + (\<Sum>q \<in> P. length (log_bids (call (fst y) q))) \<and>
    (\<forall>p. p \<notin> P \<longrightarrow> snd y p = snd x p)"
    using assms(1,3)
  proof (induction rule: runs.induct)
    case (runs_step x s ps p st k c r s')
    note IH = runs_step.IH [OF runs_step.prems]
    have "p \<in> P" using IH runs_step.hyps(2) runs_step.prems [of p] by (metis prog.distinct(3) snd_conv)
    with step_accounts [OF runs_step.hyps(3) assms(2)] IH show ?case by auto
  qed simp
  then show "length (bids (store (fst y))) + (\<Sum>q \<in> P. length (log_bids (call (fst x) q))) =
    length (bids (store (fst x))) + (\<Sum>q \<in> P. length (log_bids (call (fst y) q)))"
    and "\<And>p. p \<notin> P \<Longrightarrow> snd y p = snd x p" by blast+
qed

lemma step_logs:
  assumes "step s p st c = Some (r, s')"
  shows "set (log_bids (call s q)) \<subseteq> set (log_bids (call s' q))"
    and "set (bids (store s')) \<subseteq> set (bids (store s)) \<union> set (log_bids (call s' p))"
proof -
  have "log_bids (call s' q) = log_bids (call s q) \<and> bids (store s') = bids (store s) \<or>
    (\<exists>bs. log_bids (call s' q) = log_bids (call s q) @ (if q = p then bs else []) \<and>
      bids (store s') = bids (store s) @ bs)" for q
    using own_effect [OF assms]
  proof (cases rule: exec1_db)
    case same
    with no_interference [OF assms, of q] commits_only [OF assms] show ?thesis
      by (cases "q = p") (auto simp: log_bids_def)
  next
    case (commit t)
    have "bids (store s') = bids (store s) @ t_bids t"
      using commits_only [OF assms] commit(5) by (simp add: apply_txn_def)
    moreover have "log_bids (call s' q) = log_bids (call s q) @ (if q = p then t_bids t else [])"
      using no_interference [OF assms, of q] commit(6) by (auto simp: log_bids_def)
    ultimately show ?thesis by blast
  qed
  from this [of q] this [of p] show "set (log_bids (call s q)) \<subseteq> set (log_bids (call s' q))"
    and "set (bids (store s')) \<subseteq> set (bids (store s)) \<union> set (log_bids (call s' p))"
    by auto
qed

lemma runs_logs:
  assumes "runs step x y" "finite P" "\<And>p. p \<notin> P \<Longrightarrow> \<exists>v. snd x p = Ret v"
  shows "set (bids (store (fst y))) \<subseteq> set (bids (store (fst x))) \<union> (\<Union>q \<in> P. set (log_bids (call (fst y) q)))"
  using assms(1,3)
proof (induction rule: runs.induct)
  case (runs_step x s ps p st k c r s')
  have "p \<in> P"
    using runs_accounts(2) [OF runs_step.hyps(1) assms(2) runs_step.prems, of p] runs_step.hyps(2)
      runs_step.prems [of p] by (metis prog.distinct(3) snd_conv)
  moreover have "(\<Union>q \<in> P. set (log_bids (call s q))) \<subseteq> (\<Union>q \<in> P. set (log_bids (call s' q)))"
    using step_logs(1) [OF runs_step.hyps(3)] by (rule UN_mono [OF subset_refl])
  ultimately show ?case
    using step_logs(2) [OF runs_step.hyps(3)] runs_step.IH [OF runs_step.prems] unfolding fst_conv by blast
qed simp

lemma load_logs:
  assumes "runs step (s, prog) (s', ps')" "\<And>p. n \<le> p \<Longrightarrow> \<exists>v. prog p = Ret v" "b \<in> set (bids (store s'))"
  shows "b \<in> set (bids (store s)) \<or> (\<exists>i < n. b \<in> set (log_bids (call s' i)))"
proof -
  have "\<exists>v. snd (s, prog) p = Ret v" if "p \<notin> {..<n}" for p using that assms(2) by simp
  from runs_logs [OF assms(1) finite_lessThan this] assms(3) show ?thesis by auto
qed

end

subsection \<open>A summary is always computed\<close>

text \<open>A positive quotient is not rounded to zero, unless it is below the smallest double.\<close>

lemma scaled_mono:
  fixes n d :: int
  assumes "d * 2 ^ nat x \<le> n * 2 ^ nat (- x)" "y \<le> x" "0 < n" "0 < d"
  shows "d * 2 ^ nat y \<le> n * 2 ^ nat (- y)"
proof -
  have "(2 :: int) ^ nat y \<le> 2 ^ nat x" "(2 :: int) ^ nat (- x) \<le> 2 ^ nat (- y)"
    using assms(2) by (intro power_increasing; simp)+
  then have "d * 2 ^ nat y \<le> d * 2 ^ nat x" "n * 2 ^ nat (- x) \<le> n * 2 ^ nat (- y)"
    using assms(3,4) by simp_all
  with assms(1) show ?thesis by linarith
qed

lemma scaled_bits:
  fixes n d :: int
  assumes "0 < n" "0 < d" "x = bit_count n - bit_count d - 1"
  shows "d * 2 ^ nat x \<le> n * 2 ^ nat (- x)"
proof -
  note n = bit_count_bounds [OF assms(1)] and d = bit_count_bounds [OF assms(2)]
  have "d * 2 ^ nat x \<le> 2 ^ (nat (bit_count d) + nat x)"
    using d by (simp add: power_add)
  also have "nat (bit_count d) + nat x = nat (bit_count n - 1) + nat (- x)"
    using n d assms(3) by arith
  also have "(2 :: int) ^ (nat (bit_count n - 1) + nat (- x)) \<le> n * 2 ^ nat (- x)"
    using n by (simp add: power_add)
  finally show ?thesis .
qed

lemma nearest_double_positive:
  assumes "0 < n" "0 < d" "d \<le> 2 ^ 1074" "nearest_double n d = Finite m e"
  shows "0 < m"
proof -
  define a where "a = bit_count n - bit_count d"
  define k where "k = (if n * 2 ^ nat (- a) \<ge> d * 2 ^ nat a then a else a - 1)"
  have e: "e = max (k - 52) (- 1074)" and m: "m = nearest (n * 2 ^ nat (- e)) (d * 2 ^ nat e)"
    using assms(1,4)
    by (auto simp: nearest_double_def Let_def a_def [symmetric] k_def [symmetric] split: if_splits)
  have "d * 2 ^ nat e \<le> n * 2 ^ nat (- e)"
  proof (cases "e = - 1074")
    case True
    have "1 * 2 ^ 1074 \<le> n * 2 ^ 1074" using assms(1) by (intro mult_right_mono) simp_all
    with assms(3) have "d \<le> n * 2 ^ 1074" by (simp only: mult_1)
    then show ?thesis by (simp add: True)
  next
    case False
    then have "e \<le> bit_count n - bit_count d - 1" unfolding e k_def a_def by (simp split: if_splits)
    from scaled_mono [OF scaled_bits [OF assms(1,2) refl] this assms(1,2)] show ?thesis .
  qed
  moreover have "0 < d * 2 ^ nat e" using assms(2) by simp
  ultimately have "1 \<le> m" unfolding m by (intro nearest_ge) simp_all
  then show ?thesis by simp
qed

lemma percentile_returns:
  assumes "p \<in> {50, 95, 99}" "samples \<noteq> []" "int (length samples) < 2 ^ 40"
  shows "\<exists>x. percentile_ns samples p = Inr x"
proof -
  let ?n = "int (length samples)"
  have "p * ?n \<le> 99 * ?n" using assms(1) by (intro mult_right_mono) auto
  then have "(p * ?n + 99) div 100 - 1 < ?n" by linarith
  with percentile_index_exact [OF assms(1) _ assms(3)] assms(1,2) show ?thesis
    by (auto simp: percentile_ns_def Let_def)
qed

lemma summarize_returns:
  assumes "obs \<noteq> []" "int (length obs) < 2 ^ 40" "0 < wall"
  shows "\<exists>tr. summarize strategy workload concurrency repetition wall obs violations = Inr tr \<and>
    tr_outcome_counts tr = sorted_counts (map ob_status obs) \<and> tr_request_count tr = length obs \<and>
    (tr_invariant_valid tr \<longleftrightarrow> violations = [])"
proof -
  have ms: "\<exists>x. latency_ms obs p = Inr x" if "p \<in> {50, 95, 99}" for p
    using percentile_returns [OF that, of "map ob_latency_ns obs"] assms(1,2)
    by (auto simp: latency_ms_def true_divide_def)
  obtain seconds where seconds: "true_divide wall 1000000000 = Inr seconds"
    by (simp add: true_divide_def)
  have "\<exists>y. float_divide x seconds = Inr y" for x
  proof (cases seconds)
    case (Finite m e)
    with seconds assms(3) have eq: "nearest_double wall 1000000000 = Finite m e"
      by (simp add: true_divide_def)
    have le: "(1000000000 :: int) \<le> 2 ^ 1074"
      by (rule order_trans [OF _ power_increasing [of 30 1074]]) simp_all
    have "0 < m" by (rule nearest_double_positive [OF assms(3) _ le eq]) simp
    with Finite show ?thesis by (cases x) simp_all
  qed (cases x; simp)+
  then obtain q where "\<And>x. float_divide x seconds = Inr (q x)" by metis
  moreover obtain a b c where "latency_ms obs 50 = Inr a" "latency_ms obs 95 = Inr b" "latency_ms obs 99 = Inr c"
    using ms [of 50] ms [of 95] ms [of 99] by auto
  ultimately show ?thesis by (simp add: summarize_def seconds)
qed

text \<open>What the dictionary of outcomes says is how often each was observed.\<close>

lemma outcome_count_sorted:
  assumes "tr_outcome_counts tr = sorted_counts statuses"
  shows "outcome_count status tr = int (length (filter (\<lambda>x. x = status) statuses))"
proof -
  have "map_of (map (\<lambda>x. (x, f x)) xs) x = (if x \<in> set xs then Some (f x) else None)" for f :: "string \<Rightarrow> nat" and xs x
    by (induction xs) auto
  then show ?thesis
    by (auto simp: outcome_count_def assms sorted_counts_def filter_empty_conv)
qed

subsection \<open>The load\<close>

text \<open>Every call has ended, and \<open>outcomes\<close> says how.\<close>

definition load_ended :: "(nat \<Rightarrow> bid_outcome option prog) \<Rightarrow> bid_outcome py list \<Rightarrow> bool" where
  "load_ended ps outcomes \<longleftrightarrow>
     (\<forall>i < length outcomes. ps i = (case outcomes ! i of Inr x \<Rightarrow> Ret (Some x) | Inl e \<Rightarrow> Raise e))"

definition load_ok :: "bid_command list \<Rightarrow> nat \<Rightarrow> bid_outcome option \<Rightarrow> lstate \<Rightarrow> bool" where
  "load_ok commands p ans l \<longleftrightarrow> (\<forall>x. ans = Some x \<longrightarrow> p < length commands \<and> returns_ok (commands ! p) x l)"

definition load_failed :: "bid_command list \<Rightarrow> nat \<Rightarrow> py_exn \<Rightarrow> lstate \<Rightarrow> bool" where
  "load_failed commands p e l \<longleftrightarrow> p < length commands \<and> raises_ok (commands ! p) e l"

context bid_strategy
begin

lemma trial_load_triple:
  "triple C unbid (trial_load place_bid commands p) (load_ok commands p) (load_failed commands p)"
proof (cases "p < length commands")
  case True
  have "triple C unbid (place_bid (commands ! p)) (returns_ok (commands ! p)) (load_failed commands p)"
    by (rule triple_conseq [OF place_bid_triple]) (use True in \<open>auto simp: load_failed_def\<close>)
  then have "triple C unbid (prog_bind (place_bid (commands ! p)) (\<lambda>x. Ret (Some x))) (load_ok commands p)
      (load_failed commands p)"
    by (rule triple_bind) (use True in \<open>auto simp: load_ok_def\<close>)
  with True show ?thesis by (simp add: trial_load_def)
next
  case False
  then show ?thesis by (auto simp: trial_load_def load_ok_def)
qed

end

text \<open>The bids in the store, against the ways the calls ended.\<close>

definition accepted :: "bid_outcome py \<Rightarrow> bool" where
  "accepted result = (case result of Inr x \<Rightarrow> out_status x = ACCEPTED | Inl e \<Rightarrow> False)"

lemma length_filter_sum: "length (filter P xs) = (\<Sum>i < length xs. if P (xs ! i) then 1 else 0)"
  by (induction xs rule: rev_induct) (auto simp: nth_append intro!: sum.cong)

text \<open>In an execution in which only the first \<open>n\<close> connections do anything, theirs are the bids added.\<close>

lemma load_accounts:
  assumes "read_committed_service store call step" "at_start store call s"
    and "runs step (s, prog) (s', ps')" "\<And>p. n \<le> p \<Longrightarrow> \<exists>v. prog p = Ret v"
  shows "length (bids (store s')) = length (bids (store s)) + (\<Sum>i < n. length (log_bids (call s' i)))"
proof -
  have idle: "log_bids (call s p) = []" for p
    using assms(2) by (auto simp: at_start_def log_bids_def idle_def dest!: spec [of _ p])
  show ?thesis
    using read_committed_service.runs_accounts(1) [OF assms(1,3), of "{..<n}"] assms(4)
    by (simp add: idle not_less)
qed

text \<open>Bounds for each call add up to bounds for the store.\<close>

lemma counted_load:
  assumes "read_committed_service store call step" "at_start store call s"
    and "runs step (s, prog) (s', ps')" "\<And>p. n \<le> p \<Longrightarrow> \<exists>v. prog p = Ret v"
    and "\<And>i. i < n \<Longrightarrow> (if P (xs ! i) then 1 else 0) \<le> length (log_bids (call s' i)) \<and>
      length (log_bids (call s' i)) \<le> (if P (xs ! i) then 1 else 0) + (if Q (xs ! i) then 1 else 0)"
    and "length xs = n"
  shows "length (bids (store s)) + length (filter P xs) \<le> length (bids (store s'))"
    and "length (bids (store s')) \<le> length (bids (store s)) + length (filter P xs) + length (filter Q xs)"
proof -
  let ?log = "\<lambda>i. length (log_bids (call s' i))"
  have "(\<Sum>i < n. if P (xs ! i) then 1 else 0) \<le> (\<Sum>i < n. ?log i)"
    by (intro sum_mono) (use assms(5) in simp)
  moreover have "(\<Sum>i < n. ?log i) \<le> (\<Sum>i < n. (if P (xs ! i) then 1 else 0) + (if Q (xs ! i) then 1 else 0))"
    by (intro sum_mono) (use assms(5) in simp)
  ultimately show "length (bids (store s)) + length (filter P xs) \<le> length (bids (store s'))"
    and "length (bids (store s')) \<le> length (bids (store s)) + length (filter P xs) + length (filter Q xs)"
    using load_accounts [OF assms(1-4)] unfolding length_filter_sum assms(6) sum.distrib by simp_all
qed

lemma load_adds_up:
  assumes "read_committed_service store call step" "at_start store call s"
    and "bid_strategy strategy C" "runs step (s, trial_load strategy commands) (s', ps')"
    and "length outcomes = length commands" "load_ended ps' outcomes"
  shows "length (bids (store s)) + length (filter accepted outcomes) \<le> length (bids (store s'))"
    and "length (bids (store s')) \<le>
      length (bids (store s)) + length (filter accepted outcomes) + length (filter isl outcomes)"
    and "b \<in> set (bids (store s')) \<Longrightarrow> b \<in> set (bids (store s)) \<or> (\<exists>c \<in> set commands. carries c b)"
proof -
  let ?n = "length commands" and ?log = "\<lambda>i. length (log_bids (call s' i))"
  note ends = read_committed_service.load_triples [OF assms(1,2)
      bid_strategy.trial_load_triple [OF assms(3), of commands] assms(4)]
  have log: "(if accepted (outcomes ! i) then 1 else 0) \<le> ?log i \<and>
    ?log i \<le> (if accepted (outcomes ! i) then 1 else 0) + (if isl (outcomes ! i) then 1 else 0)"
    if i: "i < ?n" for i
  proof -
    have ended: "ps' i = (case outcomes ! i of Inr x \<Rightarrow> Ret (Some x) | Inl e \<Rightarrow> Raise e)"
      using assms(5,6) i by (simp add: load_ended_def)
    show ?thesis
      using ended ends(1) [of i] ends(2) [of i]
      by (cases "outcomes ! i"; auto simp: accepted_def load_ok_def load_failed_def returns_ok_def raises_ok_def
          outcome_ok_def split: bid_outcome_status.splits)
  qed
  have others: "\<exists>v. trial_load strategy commands p = Ret v" if "?n \<le> p" for p
    using that by (simp add: trial_load_def)
  note bounds = counted_load [where P = accepted and Q = isl, OF assms(1,2,4) others log assms(5)]
  show "length (bids (store s)) + length (filter accepted outcomes) \<le> length (bids (store s'))"
    by (rule bounds(1))
  show "length (bids (store s')) \<le>
      length (bids (store s)) + length (filter accepted outcomes) + length (filter isl outcomes)"
    by (rule bounds(2))
  have "carries (commands ! i) b" if "i < ?n" "b \<in> set (log_bids (call s' i))" for i
  proof -
    have "ps' i = (case outcomes ! i of Inr x \<Rightarrow> Ret (Some x) | Inl e \<Rightarrow> Raise e)"
      using assms(5,6) that(1) by (simp add: load_ended_def)
    with that(2) ends(1) [of i] ends(2) [of i] show ?thesis
      by (cases "outcomes ! i"; auto simp: load_ok_def load_failed_def returns_ok_def raises_ok_def
          outcome_ok_def split: bid_outcome_status.splits)
  qed
  then have logs: "\<exists>c \<in> set commands. carries c b" if "i < ?n" "b \<in> set (log_bids (call s' i))" for i
    using that nth_mem by blast
  assume "b \<in> set (bids (store s'))"
  from read_committed_service.load_logs [OF assms(1,4) others this] logs
  show "b \<in> set (bids (store s)) \<or> (\<exists>c \<in> set commands. carries c b)" by blast
qed

lemma observed_statuses:
  assumes "length outcomes = length commands"
  shows "map ob_status (map (\<lambda>i. observe i (commands ! i) (latencies ! i) (outcomes ! i)) [0..<length commands]) =
    map (\<lambda>r. case r of Inr x \<Rightarrow> status_value (out_status x) | Inl e \<Rightarrow> ''system_error'') outcomes"
  using assms by (intro nth_equalityI) (auto simp: observe_def split: sum.split)

lemma counted_statuses:
  "length (filter (\<lambda>x. x = ''accepted'')
      (map (\<lambda>r. case r of Inr x \<Rightarrow> status_value (out_status x) | Inl e \<Rightarrow> ''system_error'') outcomes)) =
    length (filter accepted outcomes)"
  "length (filter (\<lambda>x. x = ''system_error'')
      (map (\<lambda>r. case r of Inr x \<Rightarrow> status_value (out_status x) | Inl e \<Rightarrow> ''system_error'') outcomes)) =
    length (filter isl outcomes)"
proof -
  have "status_value x = ''accepted'' \<longleftrightarrow> x = ACCEPTED" "status_value x \<noteq> ''system_error''" for x
    by (cases x; simp)+
  then show "length (filter (\<lambda>x. x = ''accepted'')
      (map (\<lambda>r. case r of Inr x \<Rightarrow> status_value (out_status x) | Inl e \<Rightarrow> ''system_error'') outcomes)) =
    length (filter accepted outcomes)"
    "length (filter (\<lambda>x. x = ''system_error'')
      (map (\<lambda>r. case r of Inr x \<Rightarrow> status_value (out_status x) | Inl e \<Rightarrow> ''system_error'') outcomes)) =
    length (filter isl outcomes)"
    by (induction outcomes) (auto simp: accepted_def split: sum.splits)
qed

subsection \<open>From the seeded database to the summary\<close>

text \<open>What the audit says of the auctions after a load, and after one whose transactions are legal.\<close>

definition fresh_auctions :: "uuid list \<Rightarrow> db \<Rightarrow> bool" where
  "fresh_auctions ids d \<longleftrightarrow> dom (auctions d) = set ids \<and> bids d = [] \<and> db_wf d \<and> titles_clean d"

lemma seeded_fresh: "seeded_state t ids d \<Longrightarrow> fresh_auctions ids d"
  by (simp add: seeded_state_def fresh_auctions_def)

lemma load_audit:
  assumes "read_committed_service store call step" "at_start store call s" "fresh_auctions ids (store s)"
    and "runs step (s, prog) (s', ps')"
  shows "\<exists>vs. audit ids now u (store s') = Inr vs \<and>
    (vs = [] \<longleftrightarrow> (\<forall>a \<in> set ids. history_fair (store s') a)) \<and>
    ((\<forall>p. \<exists>A F. triple (legal_txn within) unbid (prog p) A F) \<longrightarrow> vs = [])"
proof -
  have start: "dom (auctions (store s)) = set ids" "bids (store s) = []" "db_wf (store s)" "titles_clean (store s)"
    using assms(3) by (auto simp: fresh_auctions_def)
  have wf: "db_wf (store s')" by (rule read_committed_service.load_wf [OF assms(1,2,4)])
  have known: "\<exists>r. auctions (store s') a = Some r \<and> py_strip (ra_title r) = ra_title r" if "a \<in> set ids" for a
    by (rule known_after [OF assms(1,2,4) start(4)]) (use that start(1) in blast)
  obtain vs where vs: "audit ids now u (store s') = Inr vs"
    "vs = [] \<longleftrightarrow> (\<forall>a \<in> set ids. history_fair (store s') a)"
    "vs = [] \<longleftrightarrow> (\<forall>a \<in> set ids. report_valid (report_on (store s') a))"
    using audit_decides [OF wf known] by blast
  have "vs = []" if "\<forall>p. \<exists>A F. triple (legal_txn within) unbid (prog p) A F"
  proof -
    from choice [OF that] obtain A where "\<forall>p. \<exists>F. triple (legal_txn within) unbid (prog p) (A p) F" by blast
    from choice [OF this] obtain F where "\<And>p. triple (legal_txn within) unbid (prog p) (A p) (F p)" by blast
    then have "ledger within (store s') \<and> titles_clean (store s')"
      by (rule read_committed_service.legal_keeps_ledger [OF assms(1,2) _ _ assms(4)
            ledger_no_bids [OF start(3,2)] start(4)])
    then show ?thesis using vs(3) known report_on_within [OF wf] by blast
  qed
  with vs(1,2) show ?thesis by blast
qed

text \<open>
  The figures of a trial add up with the database: after a load of any strategy on a seeded
  database, whatever the interleaving and the faults, once every call has ended the summary is
  computed; its outcomes are those of all commands; the stored bids are at least the accepted
  outcomes and at most those and the system errors; the trial is marked valid exactly when every
  history is legal and inside its window, which after an optimistic load it is.
\<close>

theorem trial_adds_up:
  assumes "read_committed_service store call step" "at_start store call s" "seeded_state t ids (store s)"
    and "strategy \<in> code_strategies" "runs step (s, trial_load strategy commands) (s', ps')"
    and "length outcomes = length commands" "load_ended ps' outcomes"
    and "commands \<noteq> []" "int (length commands) < 2 ^ 40" "0 < wall"
  shows "\<exists>tr. trial_summary name workload concurrency repetition wall commands ids outcomes latencies now u
      (store s') = Inr tr \<and>
    tr_request_count tr = length commands \<and> sum_list (map snd (tr_outcome_counts tr)) = length commands \<and>
    outcome_count ''accepted'' tr \<le> int (length (bids (store s'))) \<and>
    int (length (bids (store s'))) \<le> outcome_count ''accepted'' tr + outcome_count ''system_error'' tr \<and>
    (\<forall>b \<in> set (bids (store s')). \<exists>c \<in> set commands. carries c b) \<and>
    (tr_invariant_valid tr \<longleftrightarrow> (\<forall>a \<in> set ids. \<exists>r. auctions (store s') a = Some r \<and>
       history_legal (snapshot_of r) (map bid_of (select_bids_of a (bids (store s')))) \<and>
       history_in_window (snapshot_of r) (map bid_of (select_bids_of a (bids (store s')))))) \<and>
    (strategy \<in> range optimistic_place_bid \<longrightarrow> tr_invariant_valid tr)"
proof -
  let ?obs = "map (\<lambda>i. observe i (commands ! i) (latencies ! i) (outcomes ! i)) [0..<length commands]"
  have "\<forall>p. \<exists>A F. triple (legal_txn within) unbid (trial_load strategy commands p) A F"
    if "strategy \<in> range optimistic_place_bid"
    using that optimistic.trial_load_triple by blast
  then obtain vs where vs: "audit ids now u (store s') = Inr vs"
    "vs = [] \<longleftrightarrow> (\<forall>a \<in> set ids. history_fair (store s') a)"
    "strategy \<in> range optimistic_place_bid \<longrightarrow> vs = []"
    using load_audit [OF assms(1,2) seeded_fresh [OF assms(3)] assms(5)] by blast
  obtain tr where tr: "summarize name workload concurrency repetition wall ?obs vs = Inr tr"
    "tr_outcome_counts tr = sorted_counts (map ob_status ?obs)" "tr_request_count tr = length ?obs"
    "tr_invariant_valid tr \<longleftrightarrow> vs = []"
    using summarize_returns [of ?obs wall name workload concurrency repetition vs] assms(8-10) by auto
  obtain C where C: "bid_strategy strategy C" using code_strategy [OF assms(4)] by blast
  have empty: "bids (store s) = []" using assms(3) by (simp add: seeded_state_def)
  note bids = load_adds_up [OF assms(1,2) C assms(5-7), unfolded empty]
  have counts: "outcome_count ''accepted'' tr = int (length (filter accepted outcomes))"
    "outcome_count ''system_error'' tr = int (length (filter isl outcomes))"
    unfolding outcome_count_sorted [OF tr(2)] observed_statuses [OF assms(6)] counted_statuses by simp_all
  have "sum_list (map snd (tr_outcome_counts tr)) = length commands"
    by (simp only: tr(2) sorted_counts_total length_map length_upt)
  then show ?thesis
    using vs tr(1,3,4) bids
    by (simp add: trial_summary_def counts empty history_fair_def)
qed

text \<open>
  One seeded auction at the time \<open>10 ^ 9\<close>, and two optimistic commands of which the second reads the
  version before the first commits: one is accepted, the other finds the price risen.
\<close>

definition seeded_service :: service_state where
  "seeded_service =
     \<lparr>sv_store = \<lparr>auctions = [1 \<mapsto> new_auction ''A'' 10000 100 940000000 2800000000 0 1], bids = []\<rparr>,
      sv_calls = [idle 0, idle 0]\<rparr>"

definition two_commands :: "bid_command list" where
  "two_commands =
     [\<lparr>cmd_request_id = 11, cmd_auction_id = 1, cmd_bidder_id = ''b'', cmd_amount_cents = 10100\<rparr>,
      \<lparr>cmd_request_id = 12, cmd_auction_id = 1, cmd_bidder_id = ''c'', cmd_amount_cents = 10000\<rparr>]"

definition trial_turns :: "(nat \<times> choice) list" where
  "trial_turns =
     turns 0 1000000005 4 @ turns 1 1000000005 4 @ turns 0 1000000006 4 @
     turns 1 1000000007 3 @ turns 1 1000000008 6"

lemma seeded_service_start:
  "at_start sv_store service_of seeded_service" "seeded_state 1000000000 [1] (sv_store seeded_service)"
proof -
  let ?r = "new_auction ''A'' 10000 100 940000000 2800000000 0 1"
  have r: "auctions_check ?r" "py_strip (ra_title ?r) = ra_title ?r" by code_simp+
  then show state: "seeded_state 1000000000 [1] (sv_store seeded_service)"
    by (auto simp: seeded_state_def seeded_service_def db_wf_def auctions_winning_bid_fk_def titles_clean_def
        seeded_row_def new_auction_def)
  have "service_of seeded_service p = idle 0" for p
    by (cases p) (auto simp: service_of_def seeded_service_def nth_Cons split: nat.split)
  with state show "at_start sv_store service_of seeded_service"
    by (auto simp: at_start_def seeded_state_def)
qed

definition two_outcomes :: "bid_outcome py list" where
  "two_outcomes =
     [Inr \<lparr>out_status = ACCEPTED,
        out_bid = Some \<lparr>ab_id = 100, ab_request_id = 11, ab_auction_id = 1, ab_bidder_id = ''b'',
          ab_amount_cents = 10100, ab_auction_version = 1, ab_accepted_at = 1000000006\<rparr>,
        out_rejection_reason = None, out_minimum_acceptable_cents = None, out_attempts = 1,
        out_conflicts = 0\<rparr>,
      Inr \<lparr>out_status = REJECTED, out_bid = None, out_rejection_reason = Some BID_TOO_LOW,
        out_minimum_acceptable_cents = Some 10200, out_attempts = 1, out_conflicts = 1\<rparr>]"

lemma trial_ended:
  "map_option (\<lambda>(s, ps). (bids (sv_store s) = [], map (\<lambda>p. answer (ps p)) [0, 1]))
     (play service_step trial_turns (seeded_service, trial_load (optimistic_place_bid 3) two_commands)) =
   Some (False, map (\<lambda>r. Some (map_sum (\<lambda>e. e) Some r)) two_outcomes)"
  by code_simp

theorem trial_adds_up_witness:
  "\<exists>s ps tr. runs service_step (seeded_service, trial_load (optimistic_place_bid 3) two_commands) (s, ps) \<and>
    load_ended ps two_outcomes \<and>
    trial_summary ''optimistic'' ''same_price'' 2 1 500 two_commands [1] two_outcomes [30, 40] 9 9
      (sv_store s) = Inr tr \<and>
    tr_request_count tr = 2 \<and> outcome_count ''accepted'' tr \<le> int (length (bids (sv_store s))) \<and>
    tr_invariant_valid tr"
proof -
  obtain s ps where y: "play service_step trial_turns
      (seeded_service, trial_load (optimistic_place_bid 3) two_commands) = Some (s, ps)"
    and a: "map (\<lambda>p. answer (ps p)) [0, 1] = map (\<lambda>r. Some (map_sum (\<lambda>e. e) Some r)) two_outcomes"
    using trial_ended by (auto simp del: list.map)
  have r: "runs service_step (seeded_service, trial_load (optimistic_place_bid 3) two_commands) (s, ps)"
    by (rule play_runs [OF y runs_refl])
  have e: "load_ended ps two_outcomes"
    using a by (auto simp: load_ended_def two_outcomes_def less_Suc_eq answer_Some)
  have m: "optimistic_place_bid 3 \<in> code_strategies" "length two_outcomes = length two_commands"
    "two_commands \<noteq> []" "length two_commands = 2"
    by (simp_all add: code_strategies_def two_outcomes_def two_commands_def)
  show ?thesis
    using trial_adds_up [OF service_axioms seeded_service_start m(1) r m(2) e m(3), of 500
        "''optimistic''" "''same_price''" 2 1 "[30, 40]" 9 9] m(4) r e
    by auto
qed

end
