(* ===== verification/Runner_Properties.thy ===== *)
theory Runner_Properties
  imports Trials
begin

section \<open>Properties of a trial\<close>

subsection \<open>Loads\<close>

lemma named_strategy:
  assumes "strategy_from_name name attempts = Inr strategy"
  shows "strategy \<in> code_strategies" "name = ''optimistic'' \<Longrightarrow> strategy \<in> range optimistic_place_bid"
  using assms
  by (auto simp: strategy_from_name_def make_optimistic_def code_strategies_def split: if_splits)

lemma connections_start:
  assumes "db_wf d"
  shows "at_start sv_store service_of (connections n t d)" "sv_store (connections n t d) = d"
proof -
  have "service_of (connections n t d) p = idle t \<or> service_of (connections n t d) p = idle 0" for p
    by (simp add: service_of_def connections_def)
  then show "at_start sv_store service_of (connections n t d)"
    using assms by (auto simp: at_start_def connections_def)
qed (simp add: connections_def)

lemma those_eq_Some: "those xs = Some ys \<longleftrightarrow> xs = map Some ys"
  by (induction xs arbitrary: ys) (auto split: option.splits)

lemma load_result_Some:
  "load_result p = Some r \<longleftrightarrow> p = (case r of Inr x \<Rightarrow> Ret (Some x) | Inl e \<Rightarrow> Raise e)"
  by (cases p) (auto simp: load_result_def split: option.splits sum.splits)

text \<open>A load that has ended is an execution of the service in which every call has ended.\<close>

lemma execute_load_runs:
  assumes "execute_load schedule t strategy commands d = Some (outcomes, d')"
  obtains s ps where "sv_store s = d'" "length outcomes = length commands" "load_ended ps outcomes"
    "runs service_step (connections (length commands) t d, trial_load strategy commands) (s, ps)"
proof -
  from assms obtain s ps where y: "play service_step schedule
      (connections (length commands) t d, trial_load strategy commands) = Some (s, ps)"
    and s: "sv_store s = d'" and os: "map (\<lambda>i. load_result (ps i)) [0..<length commands] = map Some outcomes"
    by (auto simp: execute_load_def those_eq_Some split: option.splits)
  from os have len: "length outcomes = length commands" by (metis length_map length_upt minus_nat.diff_0)
  have "load_result (ps i) = Some (outcomes ! i)" if "i < length outcomes" for i
    using arg_cong [OF os, of "\<lambda>xs. xs ! i"] that len by simp
  then have "load_ended ps outcomes" by (simp add: load_ended_def load_result_Some)
  then show ?thesis by (rule that [OF s len _ play_runs [OF y runs_refl]])
qed

text \<open>Some schedule ends every load: the one in which no connection can be had.\<close>

definition no_connection :: "nat \<Rightarrow> (nat \<times> choice) list" where
  "no_connection n = map (\<lambda>p. (p, Fault PoolTimeout)) [0..<n]"

lemma strategy_begins:
  assumes "strategy_from_name name attempts = Inr strategy"
  shows "\<exists>k. strategy command = Exec Begin k \<and> k (R_Error PoolTimeout) = Raise (SqlError PoolTimeout)"
proof -
  have "\<exists>k. optimistic_place_bid m command = Exec Begin k \<and> k (R_Error PoolTimeout) = Raise (SqlError PoolTimeout)"
    if "0 < m" for m
  proof -
    from that obtain left where "nat m = Suc left" by (metis gr0_conv_Suc zero_less_nat_eq)
    then show ?thesis
      by (simp add: optimistic_place_bid_def optimistic_turn_def optimistic_attempt_def in_transaction_def)
  qed
  with assms show ?thesis
    by (auto simp: strategy_from_name_def make_optimistic_def unsafe_place_bid_def pessimistic_place_bid_def
        in_transaction_def not_le split: if_splits)
qed

lemma refused_step:
  assumes "p < n"
  shows "service_step (connections n t d) p Begin (Fault PoolTimeout) =
    Some (R_Error PoolTimeout, connections n t d)"
  using assms
  by (simp add: service_step_def connections_def fault_step_def idle_def db_after_def list_all_iff compatible_def
      list_update_same_conv)

lemma refused_calls:
  assumes "\<And>p. p \<in> set xs \<Longrightarrow> p < n \<and> (\<exists>k. ps p = Exec Begin k \<and> k (R_Error PoolTimeout) = q)" "distinct xs"
  shows "play service_step (map (\<lambda>p. (p, Fault PoolTimeout)) xs) (connections n t d, ps) =
    Some (connections n t d, \<lambda>p. if p \<in> set xs then q else ps p)"
  using assms
proof (induction xs arbitrary: ps)
  case (Cons x xs)
  obtain k where k: "x < n" "ps x = Exec Begin k" "k (R_Error PoolTimeout) = q"
    using Cons.prems(1) [of x] by auto
  have "play service_step (map (\<lambda>p. (p, Fault PoolTimeout)) xs) (connections n t d, ps(x := q)) =
      Some (connections n t d, \<lambda>p. if p \<in> set xs then q else (ps(x := q)) p)"
    by (rule Cons.IH) (use Cons.prems in auto)
  moreover have "(\<lambda>p. if p \<in> set xs then q else (ps(x := q)) p) =
      (\<lambda>p. if p \<in> set (x # xs) then q else ps p)"
    by auto
  ultimately show ?case using k by (simp add: refused_step)
qed simp

lemma load_can_end:
  assumes "strategy_from_name name attempts = Inr strategy"
  shows "execute_load (no_connection (length commands)) t strategy commands d =
    Some (replicate (length commands) (Inl (SqlError PoolTimeout)), d)"
proof -
  let ?n = "length commands"
  have begins: "p < ?n \<and> (\<exists>k. trial_load strategy commands p = Exec Begin k \<and>
      k (R_Error PoolTimeout) = Raise (SqlError PoolTimeout))" if "p \<in> set [0..<?n]" for p
    using that strategy_begins [OF assms, of "commands ! p"] by (auto simp: trial_load_def)
  have "map (\<lambda>i. load_result (if i \<in> set [0..<?n] then Raise (SqlError PoolTimeout) else trial_load strategy commands i))
      [0..<?n] = map Some (replicate ?n (Inl (SqlError PoolTimeout)))"
    by (intro nth_equalityI) (simp_all add: load_result_def)
  then show ?thesis
    using refused_calls [OF begins distinct_upt, where t = t and d = d]
    by (simp add: execute_load_def no_connection_def those_eq_Some) (simp add: connections_def)
qed

subsection \<open>Trials\<close>

text \<open>A machine on which nothing fails before the load, with identifiers that do not repeat.\<close>

definition usable_world :: "trial_world \<Rightarrow> bool" where
  "usable_world w \<longleftrightarrow>
     wo_resetting w = Inr () \<and> 0 < wo_wall_time w \<and>
     (\<exists>f. inj f \<and> wo_seed_choices w = (\<lambda>k. Go (wo_db_clock w) (f k)))"

lemma trial_seeds:
  assumes "\<And>seed xs. mset (shuffle seed xs) = mset xs" "workload \<in> set WORKLOADS" "0 < n"
    and "10000 + 100 * n \<le> MAX_MONEY_CENTS" "usable_world w" "0 < concurrency"
    and "strategy_from_name name attempts = Inr strategy"
  obtains commands ids d1 l where
    "run (seed_commands workload n (shuffle random_seed) (wo_seed_clock w)) (wo_seed_choices w) 0
      (reset_experiment_data d) (idle (wo_db_clock w)) = (Some (Inr (commands, ids)), d1, l)"
    and "seeded workload n commands ids" "length commands = nat n" "seeded_state (wo_seed_clock w) ids d1"
    and "\<And>schedule. run_trial (w\<lparr>wo_schedule := schedule\<rparr>) shuffle name workload concurrency n repetition
          random_seed attempts d =
      map_option (\<lambda>(outcomes, d2).
          (trial_summary name workload concurrency repetition (wo_wall_time w) commands ids outcomes
             (map (wo_latency w) [0..<length commands]) (wo_audit_clock w) (wo_audit_uuid w) d2, d2))
        (execute_load schedule (wo_db_clock w) strategy commands d1)"
proof -
  obtain f where w: "wo_resetting w = Inr ()" "inj f" "wo_seed_choices w = (\<lambda>k. Go (wo_db_clock w) (f k))"
    using assms(5) by (auto simp: usable_world_def)
  obtain commands ids d1 l where run:
    "run (seed_commands workload n (shuffle random_seed) (wo_seed_clock w)) (wo_seed_choices w) 0
      (reset_experiment_data d) (idle (wo_db_clock w)) = (Some (Inr (commands, ids)), d1, l)"
    "seeded workload n commands ids" "seeded_state (wo_seed_clock w) ids d1"
    using seed_runs [where shuffle = "shuffle random_seed", OF assms(1-4) w(2), of "wo_seed_clock w" "wo_db_clock w" d]
    unfolding w(3) by blast
  have "length commands = nat n"
    using run(2) map_eq_imp_length_eq [of cmd_bidder_id commands "\<lambda>i. ''bidder-'' @ py_str_nat i" "[0..<nat n]"]
    by (simp add: seeded_def)
  moreover have "run_trial (w\<lparr>wo_schedule := schedule\<rparr>) shuffle name workload concurrency n repetition
          random_seed attempts d =
      map_option (\<lambda>(outcomes, d2).
          (trial_summary name workload concurrency repetition (wo_wall_time w) commands ids outcomes
             (map (wo_latency w) [0..<length commands]) (wo_audit_clock w) (wo_audit_uuid w) d2, d2))
        (execute_load schedule (wo_db_clock w) strategy commands d1)" for schedule
    using assms(6) run(1) unfolding run_trial_def
    by (cases "execute_load schedule (wo_db_clock w) strategy commands d1") (auto simp: w(1) assms(7))
  ultimately show ?thesis using run that by blast
qed

text \<open>The figures of a trial, and what they say of the database it has left.\<close>

definition sums_up ::
    "string \<Rightarrow> string \<Rightarrow> int \<Rightarrow> int \<Rightarrow> uuid list \<Rightarrow> nat \<Rightarrow> db \<Rightarrow> violation trial_result \<Rightarrow> bool" where
  "sums_up label workload concurrency repetition ids n d tr \<longleftrightarrow>
     tr_strategy tr = label \<and> tr_workload tr = workload \<and> tr_concurrency tr = concurrency \<and>
     tr_repetition tr = repetition \<and>
     tr_request_count tr = n \<and> sum_list (map snd (tr_outcome_counts tr)) = n \<and>
     outcome_count ''accepted'' tr \<le> int (length (bids d)) \<and>
     int (length (bids d)) \<le> outcome_count ''accepted'' tr + outcome_count ''system_error'' tr \<and>
     (tr_invariant_valid tr \<longleftrightarrow> (\<forall>a \<in> set ids. history_fair d a))"

text \<open>What has been shown of executions, for a load that has ended.\<close>

lemma ended_load_sums_up:
  assumes "execute_load schedule t strategy commands d = Some (outcomes, d')" "seeded_state start ids d"
    and "strategy_from_name name attempts = Inr strategy"
    and "commands \<noteq> []" "int (length commands) < 2 ^ 40" "0 < wall"
  shows "\<exists>tr. trial_summary name workload concurrency repetition wall commands ids outcomes latencies now u d' = Inr tr \<and>
    sums_up name workload concurrency repetition ids (length commands) d' tr \<and>
    (\<forall>b \<in> set (bids d'). \<exists>c \<in> set commands. carries c b) \<and> (name = ''optimistic'' \<longrightarrow> tr_invariant_valid tr)"
proof -
  have "db_wf d" using assms(2) by (simp add: seeded_state_def)
  note start = connections_start [OF this, of "length commands" t]
  from assms(1) obtain s ps where s: "sv_store s = d'" "length outcomes = length commands" "load_ended ps outcomes"
    "runs service_step (connections (length commands) t d, trial_load strategy commands) (s, ps)"
    by (rule execute_load_runs)
  have labels: "tr_strategy tr = name \<and> tr_workload tr = workload \<and> tr_concurrency tr = concurrency \<and>
      tr_repetition tr = repetition"
    if "trial_summary name workload concurrency repetition wall commands ids outcomes latencies now u d' = Inr tr" for tr
    using that by (auto simp: trial_summary_def summarize_def)
  have "seeded_state start ids (sv_store (connections (length commands) t d))" using assms(2) start(2) by simp
  from trial_adds_up [OF service_axioms start(1) this named_strategy(1) [OF assms(3)] s(4,2,3) assms(4-6)]
    named_strategy(2) [OF assms(3)] s(1) labels
  show ?thesis unfolding sums_up_def history_fair_def by metis
qed

lemma trial_returns:
  assumes "\<And>seed xs. mset (shuffle seed xs) = mset xs" "workload \<in> set WORKLOADS" "0 < n" "n < 2 ^ 40"
    and "10000 + 100 * n \<le> MAX_MONEY_CENTS" "usable_world w" "0 < concurrency"
    and "strategy_from_name name attempts = Inr strategy"
  obtains commands ids d1 l where
    "run (seed_commands workload n (shuffle random_seed) (wo_seed_clock w)) (wo_seed_choices w) 0
      (reset_experiment_data d) (idle (wo_db_clock w)) = (Some (Inr (commands, ids)), d1, l)"
    and "seeded workload n commands ids" "seeded_state (wo_seed_clock w) ids d1"
    and "run_trial (w\<lparr>wo_schedule := no_connection (nat n)\<rparr>) shuffle name workload concurrency n repetition random_seed
      attempts d \<noteq> None"
    and "\<And>result d'. run_trial w shuffle name workload concurrency n repetition random_seed attempts d =
        Some (result, d') \<Longrightarrow>
      \<exists>tr. result = Inr tr \<and> sums_up name workload concurrency repetition ids (nat n) d' tr \<and>
        (\<forall>b \<in> set (bids d'). \<exists>c \<in> set commands. carries c b) \<and>
        (name = ''optimistic'' \<longrightarrow> tr_invariant_valid tr)"
proof -
  obtain commands ids d1 l where seed:
    "run (seed_commands workload n (shuffle random_seed) (wo_seed_clock w)) (wo_seed_choices w) 0
      (reset_experiment_data d) (idle (wo_db_clock w)) = (Some (Inr (commands, ids)), d1, l)"
    "seeded workload n commands ids" "seeded_state (wo_seed_clock w) ids d1" and size: "length commands = nat n"
    and trial: "\<And>schedule. run_trial (w\<lparr>wo_schedule := schedule\<rparr>) shuffle name workload concurrency n repetition
          random_seed attempts d =
      map_option (\<lambda>(outcomes, d2).
          (trial_summary name workload concurrency repetition (wo_wall_time w) commands ids outcomes
             (map (wo_latency w) [0..<length commands]) (wo_audit_clock w) (wo_audit_uuid w) d2, d2))
        (execute_load schedule (wo_db_clock w) strategy commands d1)"
    by (rule trial_seeds [where shuffle = shuffle and d = d and random_seed = random_seed and
          repetition = repetition, OF assms(1-3,5-8)]) (rule that)
  have "run_trial (w\<lparr>wo_schedule := no_connection (nat n)\<rparr>) shuffle name workload concurrency n repetition random_seed
      attempts d \<noteq> None"
    using load_can_end [OF assms(8), of commands] by (simp add: trial size)
  moreover have "\<exists>tr. result = Inr tr \<and> sums_up name workload concurrency repetition ids (nat n) d' tr \<and>
        (\<forall>b \<in> set (bids d'). \<exists>c \<in> set commands. carries c b) \<and>
      (name = ''optimistic'' \<longrightarrow> tr_invariant_valid tr)"
    if "run_trial w shuffle name workload concurrency n repetition random_seed attempts d = Some (result, d')"
    for result d'
  proof -
    have "run_trial w shuffle name workload concurrency n repetition random_seed attempts d =
        map_option (\<lambda>(outcomes, d2).
          (trial_summary name workload concurrency repetition (wo_wall_time w) commands ids outcomes
             (map (wo_latency w) [0..<length commands]) (wo_audit_clock w) (wo_audit_uuid w) d2, d2))
          (execute_load (wo_schedule w) (wo_db_clock w) strategy commands d1)"
      using trial [of "wo_schedule w"] by simp
    with that obtain outcomes where load:
      "execute_load (wo_schedule w) (wo_db_clock w) strategy commands d1 = Some (outcomes, d')"
      "result = trial_summary name workload concurrency repetition (wo_wall_time w) commands ids outcomes
         (map (wo_latency w) [0..<length commands]) (wo_audit_clock w) (wo_audit_uuid w) d'"
      by auto
    have "commands \<noteq> []" "int (length commands) < 2 ^ 40" "0 < wo_wall_time w"
      using size assms(3,4,6) by (auto simp: usable_world_def)
    from ended_load_sums_up [OF load(1) seed(3) assms(8) this] show ?thesis unfolding load(2) size by blast
  qed
  ultimately show ?thesis by (rule that [OF seed])
qed


definition small_world :: trial_world where
  "small_world =
     \<lparr>wo_resetting = Inr (), wo_seed_clock = 60000000, wo_db_clock = 3, wo_seed_choices = (\<lambda>k. Go 3 k),
      wo_schedule = [], wo_latency = (\<lambda>i. 30 + int i), wo_wall_time = 500, wo_audit_clock = 9,
      wo_audit_uuid = 9\<rparr>"

lemma small_world_usable: "usable_world (small_world\<lparr>wo_schedule := schedule\<rparr>)"
  by (auto simp: usable_world_def small_world_def intro!: exI [of _ "\<lambda>k. k"])


end
