(* ===== verification/Cli_Properties.thy ===== *)
theory Cli_Properties
  imports Benchmark_Cli Deployment_Properties "HOL-Library.Multiset"
begin

section \<open>Properties of the command line\<close>

lemma unknown_names_Nil [simp]: "unknown_names known names = [] \<longleftrightarrow> set names \<subseteq> set known"
proof -
  have "set (unknown_names known names) = set names - set known"
    by (auto simp: unknown_names_def list_ex_iff)
  then show ?thesis by (metis Diff_eq_empty_iff set_empty)
qed

lemma concurrency_levels_shape:
  assumes "concurrency_levels a = Inr levels"
  shows "levels \<noteq> []" "(\<forall>c. ar_concurrency a = Some c \<longrightarrow> 0 < c) \<Longrightarrow> \<forall>n \<in> set levels. 0 < n"
  using assms
  by (auto simp: concurrency_levels_def parse_positive_int_csv_def list_ex_iff not_le
      split: option.splits if_splits)

lemma levels_raise:
  assumes "concurrency_levels a = Inl e"
  shows "\<exists>m. e = ValueError m"
  using assms
  by (auto simp: concurrency_levels_def parse_positive_int_csv_def split: option.splits if_splits)

text \<open>The schedule before it is shuffled.\<close>

lemma full_schedule:
  "set (build_trial_schedule S W L n shuffle False) = set S \<times> set W \<times> set L \<times> {1..n}"
  "length (build_trial_schedule S W L n shuffle False) = length S * (length L * (length W * n))"
  by (auto simp: build_trial_schedule_def length_concat comp_def sum_list_triv image_iff simp del: upt_Suc)

lemma full_schedule_distinct:
  assumes "distinct S" "distinct W" "distinct L"
  shows "distinct (build_trial_schedule S W L n shuffle False)"
  by (rule card_distinct) (simp add: full_schedule assms card_cartesian_product distinct_card)

lemma schedule_shuffled:
  assumes "\<And>xs. mset (shuffle xs) = mset xs"
  shows "mset (build_trial_schedule S W L n shuffle randomized) =
    mset (build_trial_schedule S W L n shuffle False)"
  unfolding build_trial_schedule_def Let_def by (cases randomized) (simp_all only: if_True if_False assms)

lemma same_mset:
  assumes "mset xs = mset ys"
  shows "set xs = set ys" "length xs = length ys" "distinct xs \<longleftrightarrow> distinct ys"
  by (rule mset_eq_setD [OF assms], rule mset_eq_length [OF assms], rule mset_eq_imp_distinct_iff [OF assms])

definition url_ok :: "string \<Rightarrow> bool" where
  "url_ok u \<longleftrightarrow> startswith u ''postgresql://'' \<or> startswith u ''postgres://''"

lemma benchmark_settings_eq_Inr:
  assumes "settings_ok base" "levels \<noteq> []"
  shows "benchmark_settings url levels base = Inr s \<Longrightarrow>
      settings_ok s \<and> (\<forall>c \<in> set levels. c \<le> st_pool_max_size s)"
    and "(\<exists>s. benchmark_settings url levels base = Inr s) \<longleftrightarrow>
      0 < Max (set levels) \<and> (\<forall>u. url = Some u \<and> u \<noteq> [] \<longrightarrow> url_ok u)"
proof -
  have "\<forall>c \<in> set levels. c \<le> Max (set levels)" by simp
  then show "benchmark_settings url levels base = Inr s \<Longrightarrow>
      settings_ok s \<and> (\<forall>c \<in> set levels. c \<le> st_pool_max_size s)"
    by (auto simp: benchmark_settings_def make_settings_eq_Inr max.coboundedI2)
  show "(\<exists>s. benchmark_settings url levels base = Inr s) \<longleftrightarrow>
      0 < Max (set levels) \<and> (\<forall>u. url = Some u \<and> u \<noteq> [] \<longrightarrow> url_ok u)"
    using assms(1) unfolding benchmark_settings_def make_settings_eq_Inr settings_ok_def url_ok_def
    by (cases url) (auto simp: min_less_iff_conj min_le_iff_disj le_max_iff_disj)
qed

text \<open>When \<open>main\<close> gets as far as the settings, and what it has then planned.\<close>

definition arguments_ok :: "cli_arguments \<Rightarrow> bool" where
  "arguments_ok a \<longleftrightarrow>
     set (parse_csv (ar_strategies a)) \<subseteq> set VALID_STRATEGIES \<and>
     set (parse_csv (ar_workloads a)) \<subseteq> set WORKLOADS \<and>
     (\<exists>levels. concurrency_levels a = Inr levels) \<and> 0 < ar_requests a \<and> 3 \<le> ar_repetitions a"

lemma cli_main_refused: "\<not> arguments_ok a \<Longrightarrow> \<exists>e. cli_main a env shuffle = Usage e"
  using levels_raise [of a]
  by (auto simp: cli_main_def arguments_ok_def Let_def split: sum.split)

lemma cli_main_accepted:
  assumes "arguments_ok a" "concurrency_levels a = Inr levels"
  shows "cli_main a env shuffle =
    (case py_bind (settings_from_env env) (benchmark_settings (ar_database_url a) levels) of
       Inl e \<Rightarrow> Failed e
     | Inr s \<Rightarrow>
         Planned s
           (warm_ups (parse_csv (ar_strategies a)) levels (ar_warmup_requests a) @
            map (\<lambda>t. Trial t (ar_requests a))
              (build_trial_schedule (parse_csv (ar_strategies a)) (parse_csv (ar_workloads a)) levels
                 (nat (ar_repetitions a)) shuffle (ar_randomized a))))"
  using assms by (simp add: cli_main_def arguments_ok_def Let_def)

lemma warm_ups_set:
  "set (warm_ups strategies levels n) = {Warm_Up s c n |s c. s \<in> set strategies \<and> c \<in> set levels}"
  by (auto simp: warm_ups_def)

lemma planned_iff:
  assumes "settings_from_env env = Inr base" "arguments_ok a" "concurrency_levels a = Inr L"
  shows "cli_main a env shuffle = Planned s steps \<longleftrightarrow>
    benchmark_settings (ar_database_url a) L base = Inr s \<and>
    steps = warm_ups (parse_csv (ar_strategies a)) L (ar_warmup_requests a) @
      map (\<lambda>t. Trial t (ar_requests a))
        (build_trial_schedule (parse_csv (ar_strategies a)) (parse_csv (ar_workloads a)) L
           (nat (ar_repetitions a)) shuffle (ar_randomized a))"
  unfolding cli_main_accepted [OF assms(2,3)] assms(1) by (auto split: sum.split)

lemma known_strategy:
  assumes "x \<in> set VALID_STRATEGIES" "settings_ok s"
  shows "\<exists>strategy \<in> code_strategies. strategy_from_name x (st_optimistic_max_attempts s) = Inr strategy"
proof -
  have "settings_ok (s\<lparr>st_bid_strategy := x\<rparr>)" using assms by (simp add: settings_ok_def)
  from valid_strategy_resolves [OF this] show ?thesis by (simp add: application_strategy_def)
qed

text \<open>
  C40. The benchmark runs what it was asked for. With settings in the environment, \<open>main\<close> goes on
  exactly when every name is known, the levels are readable, there are requests and at least three
  repetitions, the highest level is positive and the URL is one of PostgreSQL. It then warms up
  every strategy at every level before the first trial and plans, in whatever order, exactly the
  combinations of strategy, workload, level and repetition, each once when no name or level is
  repeated, with a pool that has a connection for every level and strategies that can be built.
\<close>

theorem benchmark_plan_complete:
  assumes "settings_from_env env = Inr base" "\<And>xs. mset (shuffle xs) = mset xs"
    and "S = parse_csv (ar_strategies a)" "W = parse_csv (ar_workloads a)"
  shows "((\<exists>s steps. cli_main a env shuffle = Planned s steps) \<longleftrightarrow>
      set S \<subseteq> set VALID_STRATEGIES \<and> set W \<subseteq> set WORKLOADS \<and> 0 < ar_requests a \<and> 3 \<le> ar_repetitions a \<and>
      (\<exists>L. concurrency_levels a = Inr L \<and> 0 < Max (set L)) \<and>
      (\<forall>u. ar_database_url a = Some u \<and> u \<noteq> [] \<longrightarrow> url_ok u)) \<and>
    (\<forall>s steps. cli_main a env shuffle = Planned s steps \<longrightarrow>
      (\<exists>L before trials. concurrency_levels a = Inr L \<and> steps = before @ map (\<lambda>t. Trial t (ar_requests a)) trials \<and>
        set before = {Warm_Up x c (ar_warmup_requests a) |x c. x \<in> set S \<and> c \<in> set L} \<and>
        set trials = set S \<times> set W \<times> set L \<times> {1..nat (ar_repetitions a)} \<and>
        (distinct S \<and> distinct W \<and> distinct L \<longrightarrow> distinct trials) \<and>
        settings_ok s \<and> (\<forall>c \<in> set L. c \<le> st_pool_max_size s) \<and>
        (\<forall>x \<in> set S. \<exists>strategy \<in> code_strategies.
           strategy_from_name x (st_optimistic_max_attempts s) = Inr strategy)))"
proof (cases "arguments_ok a")
  case False
  then obtain e where "cli_main a env shuffle = Usage e" using cli_main_refused by blast
  with False show ?thesis unfolding assms(3,4) by (auto simp: arguments_ok_def)
next
  case True
  then obtain L where L: "concurrency_levels a = Inr L" by (auto simp: arguments_ok_def)
  have "settings_ok base" using assms(1) by (simp add: settings_from_env_eq_Inr)
  note settings = benchmark_settings_eq_Inr [OF this concurrency_levels_shape(1) [OF L]]
  note plan = planned_iff [OF assms(1) True L, of shuffle]
  let ?trials = "build_trial_schedule S W L (nat (ar_repetitions a)) shuffle (ar_randomized a)"
  note trials = same_mset [OF schedule_shuffled [where shuffle = shuffle, OF assms(2)],
      of S W L "nat (ar_repetitions a)" "ar_randomized a", unfolded full_schedule(1)]
  show ?thesis
  proof (intro conjI allI impI)
    show "(\<exists>s steps. cli_main a env shuffle = Planned s steps) \<longleftrightarrow>
      set S \<subseteq> set VALID_STRATEGIES \<and> set W \<subseteq> set WORKLOADS \<and> 0 < ar_requests a \<and> 3 \<le> ar_repetitions a \<and>
      (\<exists>L. concurrency_levels a = Inr L \<and> 0 < Max (set L)) \<and>
      (\<forall>u. ar_database_url a = Some u \<and> u \<noteq> [] \<longrightarrow> url_ok u)"
      using settings(2) True L unfolding plan assms(3,4) arguments_ok_def by simp
  next
    fix s steps
    assume "cli_main a env shuffle = Planned s steps"
    then have s: "benchmark_settings (ar_database_url a) L base = Inr s"
      and steps: "steps = warm_ups S L (ar_warmup_requests a) @ map (\<lambda>t. Trial t (ar_requests a)) ?trials"
      unfolding plan assms(3,4) by blast+
    have "distinct S \<and> distinct W \<and> distinct L \<longrightarrow> distinct ?trials"
      using trials(3) full_schedule_distinct by blast
    moreover have "\<exists>strategy \<in> code_strategies. strategy_from_name x (st_optimistic_max_attempts s) = Inr strategy"
      if "x \<in> set S" for x
      using that True settings(1) [OF s] by (intro known_strategy) (auto simp: arguments_ok_def assms(3))
    ultimately show "\<exists>L before trials. concurrency_levels a = Inr L \<and>
        steps = before @ map (\<lambda>t. Trial t (ar_requests a)) trials \<and>
        set before = {Warm_Up x c (ar_warmup_requests a) |x c. x \<in> set S \<and> c \<in> set L} \<and>
        set trials = set S \<times> set W \<times> set L \<times> {1..nat (ar_repetitions a)} \<and>
        (distinct S \<and> distinct W \<and> distinct L \<longrightarrow> distinct trials) \<and>
        settings_ok s \<and> (\<forall>c \<in> set L. c \<le> st_pool_max_size s) \<and>
        (\<forall>x \<in> set S. \<exists>strategy \<in> code_strategies.
           strategy_from_name x (st_optimistic_max_attempts s) = Inr strategy)"
      using L steps trials(1) settings(1) [OF s]
      by (intro exI [of _ L] exI [of _ "warm_ups S L (ar_warmup_requests a)"] exI [of _ ?trials] conjI)
        (simp_all only: warm_ups_set, blast+)
  qed
qed

definition smoke_arguments :: cli_arguments where
  "smoke_arguments =
     \<lparr>ar_database_url = None, ar_strategies = ''unsafe, optimistic'', ar_workloads = ''same_price'',
      ar_concurrencies = ''1,8'', ar_concurrency = None, ar_requests = 20, ar_repetitions = 3,
      ar_warmup_requests = 5, ar_random_seed = 20260922, ar_randomized = True,
      ar_summary_only = False, ar_output = None\<rparr>"

lemma smoke_parts:
  "parse_csv (ar_strategies smoke_arguments) = [''unsafe'', ''optimistic'']"
  "parse_csv (ar_workloads smoke_arguments) = [''same_price'']"
  "parse_positive_int_csv (ar_concurrencies smoke_arguments) = Inr [1, 8]"
  by code_simp+

theorem benchmark_plan_complete_witness:
  "\<exists>s before trials. cli_main smoke_arguments Map.empty rev = Planned s (before @ map (\<lambda>t. Trial t 20) trials) \<and>
    set trials = {''unsafe'', ''optimistic''} \<times> {''same_price''} \<times> {1, 8} \<times> {1..3} \<and> distinct trials \<and>
    8 \<le> st_pool_max_size s"
proof -
  have m: "mset (rev xs) = mset xs" for xs :: "trial_spec list" by simp
  have levels: "concurrency_levels smoke_arguments = Inr [1, 8]"
    using smoke_parts(3) by (simp add: concurrency_levels_def smoke_arguments_def)
  have others: "ar_requests smoke_arguments = 20" "ar_repetitions smoke_arguments = 3"
    "ar_database_url smoke_arguments = None"
    by (simp_all add: smoke_arguments_def)
  note plan = benchmark_plan_complete [where a = smoke_arguments, OF default_environment m refl refl,
      unfolded smoke_parts(1,2) levels others]
  have "\<exists>s steps. cli_main smoke_arguments Map.empty rev = Planned s steps"
    by (rule iffD2 [OF conjunct1 [OF plan]]) (simp add: VALID_STRATEGIES_def WORKLOADS_def)
  then obtain s steps where p: "cli_main smoke_arguments Map.empty rev = Planned s steps" by blast
  with conjunct2 [OF plan] show ?thesis by force
qed

text \<open>
  The single-level override skips the check of the list: a level of zero is not a usage error, as
  it is in the list, but an exception of \<open>Settings\<close>; and a plan without warm-up requests is carried
  out as far as the first warm-up, where \<open>seed_commands\<close> raises.
\<close>

theorem zero_concurrency:
  assumes "settings_from_env env = Inr base" "arguments_ok a" "ar_concurrency a = Some c" "c \<le> 0"
    and "ar_database_url a = None"
  shows "cli_main a env shuffle = Failed (ValueError ''pool_min_size must be positive'')"
proof -
  have L: "concurrency_levels a = Inr [c]" using assms(3) by (simp add: concurrency_levels_def)
  have "settings_ok base" using assms(1) by (simp add: settings_from_env_eq_Inr)
  then have "benchmark_settings None [c] base = Inl (ValueError ''pool_min_size must be positive'')"
    using assms(4)
    by (auto simp: benchmark_settings_def make_settings_def settings_ok_def list_ex_iff require_positive_def)
  then show ?thesis unfolding cli_main_accepted [OF assms(2) L] assms(1,5) by simp
qed

theorem zero_warm_up:
  assumes "cli_main a env shuffle = Planned s steps" "parse_csv (ar_strategies a) \<noteq> []"
    and "ar_warmup_requests a \<le> 0"
  shows "\<exists>x c n more. steps = Warm_Up x c n # more \<and>
    seed_commands ''low_contention'' n shuffle' now = Raise (ValueError ''request_count must be positive'')"
proof -
  have "arguments_ok a" using assms(1) cli_main_refused [of a env shuffle] by auto
  then obtain L where L: "concurrency_levels a = Inr L" by (auto simp: arguments_ok_def)
  obtain x xs where x: "parse_csv (ar_strategies a) = x # xs" using assms(2) by (cases "parse_csv (ar_strategies a)") auto
  obtain c cs where c: "L = c # cs" using concurrency_levels_shape(1) [OF L] by (cases L) auto
  have "\<exists>more. steps = Warm_Up x c (ar_warmup_requests a) # more"
    using assms(1) unfolding cli_main_accepted [OF \<open>arguments_ok a\<close> L] x c
    by (auto simp: warm_ups_def split: sum.splits)
  moreover have "seed_commands ''low_contention'' (ar_warmup_requests a) shuffle' now =
      Raise (ValueError ''request_count must be positive'')"
    using assms(3) by (simp add: seed_commands_def WORKLOADS_def)
  ultimately show ?thesis by blast
qed

subsection \<open>The HTTP benchmark\<close>

text \<open>
  Measurements over HTTP carry the right label: when the health probe was answered by an
  application with settings \<open>cfg\<close>, trials are planned only under the name of its strategy.
\<close>

lemma probe_reply:
  assumes "fst (run (serve isoformat unhandled (health_route setting)) ch n d l) = Some (Inr reply)"
  shows "reply = unhandled \<or> running_strategy reply = Inr (JText setting)"
proof -
  let ?Q = "\<lambda>reply. reply = unhandled \<or> running_strategy reply = Inr (JText setting)"
  have "running_strategy (Reply 200 (Some (response_json isoformat (Health_Response setting)))) = Inr (JText setting)"
    by (simp add: running_strategy_def json_get_def field_def)
  then have "results ?Q (\<lambda>e. results ?Q (\<lambda>e. True) (Ret unhandled)) (prog_bind (health_route setting)
      (\<lambda>response. Ret (Reply (response_status response) (Some (response_json isoformat response)))))"
    by (simp add: health_route_def results_bind)
  then have "results ?Q (\<lambda>e. True) (serve isoformat unhandled (health_route setting))"
    unfolding serve_def results_try .
  then show ?thesis using assms run_results by fastforce
qed

theorem http_label_is_true:
  assumes "fst (run (serve isoformat (Reply 500 None) (health_route (st_bid_strategy cfg))) ch n d l) =
      Some (Inr health)"
    and "http_main a env health = Http_Planned s trials"
  shows "ha_strategy_label a = st_bid_strategy cfg"
proof -
  have "running_strategy health = Inr (JText (ha_strategy_label a))"
    using assms(2) by (auto simp: http_main_def Let_def split: if_splits sum.splits)
  with probe_reply [OF assms(1)] show ?thesis by (auto simp: running_strategy_def)
qed

end
