(* ===== verification/Report_Properties.thy ===== *)
theory Report_Properties
  imports Report
begin

section \<open>Properties of the report\<close>

subsection \<open>Statistics that return\<close>

lemma length_insert_float [simp]: "length (insert_float x xs) = Suc (length xs)"
  by (induction xs) auto

lemma length_sorted_floats [simp]: "length (sorted_floats xs) = length xs"
  by (induction xs) (auto simp: sorted_floats_def)

lemma float_divide_number [simp]:
  "\<exists>y. float_divide x (float_of_int 2) = Inr y" "\<exists>y. float_divide x (float_of_int 4) = Inr y"
proof -
  have "\<exists>m e. float_of_int 2 = Finite m e \<and> m \<noteq> 0" "\<exists>m e. float_of_int 4 = Finite m e \<and> m \<noteq> 0"
    by (rule exI, rule exI, rule conjI, code_simp, simp)+
  then show "\<exists>y. float_divide x (float_of_int 2) = Inr y" "\<exists>y. float_divide x (float_of_int 4) = Inr y"
    by (cases x; fastforce)+
qed

lemma sorted_Nil [simp]: "sorted_floats xs = [] \<longleftrightarrow> xs = []" "sort ys = [] \<longleftrightarrow> ys = []"
  by (metis length_0_conv length_sorted_floats, metis length_0_conv length_sort)

lemma median_float_returns: "data \<noteq> [] \<Longrightarrow> \<exists>y. median_float data = Inr y"
  by (simp add: median_float_def Let_def)

lemma median_int_returns: "data \<noteq> [] \<Longrightarrow> \<exists>y. median_int data = Inr y"
  by (simp add: median_int_def Let_def true_divide_def)

lemma quartiles_return:
  "if length data < 2 then quartiles data = Inl (StatisticsError ''must have at least two data points'')
   else \<exists>a b c. quartiles data = Inr [a, b, c]"
proof -
  have "\<exists>y. quantile xs i = Inr y" for xs i by (simp add: quantile_def Let_def)
  then obtain q where "\<And>xs i. quantile xs i = Inr (q xs i)" by metis
  then show ?thesis by (simp add: quartiles_def Let_def)
qed

subsection \<open>Rows and groups\<close>

definition few_points :: py_exn where
  "few_points = StatisticsError ''must have at least two data points''"

text \<open>A row with the parts that are not numbers computed from the group.\<close>

definition row_frame :: "group_key \<Rightarrow> string \<Rightarrow> nat \<Rightarrow> nat \<Rightarrow> string" where
  "row_frame key middle valid n =
     ''| '' @ fst key @ '' | '' @ fst (snd key) @ '' | '' @ py_str_int (snd (snd key)) @ '' | '' @ middle @
     '' | '' @ py_str_nat valid @ ''/'' @ py_str_nat n @ '' |''"

lemma report_row_ends:
  assumes "ts \<noteq> []"
  shows "length ts < 2 \<Longrightarrow> report_row key ts = Inl few_points"
    and "\<not> length ts < 2 \<Longrightarrow>
      \<exists>middle. report_row key ts = Inr (row_frame key middle (length (filter tr_invariant_valid ts)) (length ts))"
proof -
  obtain a b c d where floats: "median_float (map tr_throughput ts) = Inr a"
    "median_float (map tr_p50_latency_ms ts) = Inr b" "median_float (map tr_p95_latency_ms ts) = Inr c"
    "median_float (map tr_p99_latency_ms ts) = Inr d"
    using assms by (metis (no_types) Nil_is_map_conv median_float_returns)
  obtain m n where ints: "median_int (map (outcome_count ''accepted'') ts) = Inr m"
    "median_int (map tr_total_conflicts ts) = Inr n"
    using assms by (metis (no_types) Nil_is_map_conv median_int_returns)
  note quarters = quartiles_return [of "map tr_throughput ts"] quartiles_return [of "map tr_p95_latency_ms ts"]
  show "report_row key ts = Inl few_points" if "length ts < 2"
    using quarters that by (simp add: report_row_def floats Let_def few_points_def)
  assume "\<not> length ts < 2"
  with quarters obtain q r where "quartiles (map tr_throughput ts) = Inr q"
    "quartiles (map tr_p95_latency_ms ts) = Inr r" by auto
  then have "\<exists>middle. report_row key ts = Inr (''| '' @ fst key @ '' | '' @ fst (snd key) @ '' | '' @
      py_str_int (snd (snd key)) @ '' | '' @ middle @ '' | '' @
      py_str_nat (length (filter tr_invariant_valid ts)) @ ''/'' @ py_str_nat (length ts) @ '' |'')"
    unfolding report_row_def Let_def floats ints py_bind_simps sum.inject
    by (simp only: py_bind_simps sum.inject append_assoc [symmetric] append_same_eq)
      (simp only: append_assoc same_append_eq, blast)
  then show "\<exists>middle. report_row key ts =
      Inr (row_frame key middle (length (filter tr_invariant_valid ts)) (length ts))"
    by (simp only: row_frame_def)
qed

text \<open>A loop in which only one exception can be raised.\<close>

lemma py_map_ends:
  assumes "\<And>x. x \<in> set xs \<Longrightarrow> bad x \<Longrightarrow> f x = Inl e" "\<And>x. x \<in> set xs \<Longrightarrow> \<not> bad x \<Longrightarrow> \<exists>y. f x = Inr y"
  shows "if \<exists>x \<in> set xs. bad x then py_map f xs = Inl e else \<exists>ys. py_map f xs = Inr ys"
  using assms
proof (induction xs)
  case (Cons x xs)
  show ?case
  proof (cases "bad x")
    case True
    then show ?thesis using Cons.prems(1) by simp
  next
    case False
    then obtain y where y: "f x = Inr y" using Cons.prems(2) by auto
    have "if \<exists>x \<in> set xs. bad x then py_map f xs = Inl e else \<exists>ys. py_map f xs = Inr ys"
      by (rule Cons.IH) (use Cons.prems in auto)
    with False y show ?thesis by (auto split: if_splits)
  qed
qed simp

abbreviation group_of :: "'v trial_result list \<Rightarrow> group_key \<Rightarrow> 'v trial_result list" where
  "group_of trials key \<equiv> filter (\<lambda>t. group_key t = key) trials"

lemma group_sizes:
  "sum_list (map (\<lambda>k. length (group_of trials k)) (sort (remdups (map group_key trials)))) = length trials"
proof -
  have "sum_list (map (\<lambda>k. length (group_of trials k)) (sort (remdups (map group_key trials)))) =
      (\<Sum>k \<in> group_key ` set trials. length (group_of trials k))"
    by (subst sum_list_distinct_conv_sum_set) simp_all
  also have "\<dots> = length trials"
  proof (induction trials)
    case (Cons t trials)
    have empty: "length (group_of trials k) = 0" if "k \<notin> group_key ` set trials" for k
      using that by (simp add: filter_empty_conv) blast
    have "(\<Sum>k \<in> insert (group_key t) (group_key ` set trials). length (group_of trials k)) =
        (\<Sum>k \<in> group_key ` set trials. length (group_of trials k))"
      by (rule sum.mono_neutral_right) (use empty in auto)
    moreover have "length (group_of (t # trials) k) = length (group_of trials k) + (if k = group_key t then 1 else 0)" for k
      by auto
    ultimately show ?case using Cons by (simp add: sum.distrib)
  qed simp
  finally show ?thesis .
qed

lemma three_repetitions:
  assumes "\<forall>r \<in> {1, 2, 3}. \<exists>u \<in> set trials. group_key u = key \<and> tr_repetition u = r"
  shows "2 \<le> length (group_of trials key)"
proof -
  have "{1, 2, 3} \<subseteq> set (map tr_repetition (group_of trials key))" using assms by auto
  then have "card {1, 2, 3 :: int} \<le> card (set (map tr_repetition (group_of trials key)))"
    by (intro card_mono) simp_all
  also have "\<dots> \<le> length (group_of trials key)" by (metis card_length length_map)
  finally show ?thesis by simp
qed

text \<open>How the loop over the groups ends, and what it has then collected.\<close>

abbreviation row_of :: "group_key \<times> 'v trial_result list \<Rightarrow> string py" where
  "row_of item \<equiv> report_row (fst item) (snd item)"

lemma rows_end:
  "if \<forall>t \<in> set trials. 2 \<le> length (group_of trials (group_key t))
   then \<exists>rows. py_map row_of (grouped trials) = Inr rows
   else py_map row_of (grouped trials) = Inl few_points"
proof -
  define few where "few = (\<lambda>item :: group_key \<times> 'a trial_result list. length (snd item) < 2)"
  have not_empty: "snd item \<noteq> []" if "item \<in> set (grouped trials)" for item
    using that by (auto simp: grouped_def filter_empty_conv)
  have "if \<exists>x \<in> set (grouped trials). few x then py_map row_of (grouped trials) = Inl few_points
      else \<exists>rows. py_map row_of (grouped trials) = Inr rows"
    by (rule py_map_ends)
      (use report_row_ends [OF not_empty] in \<open>unfold few_def, blast+\<close>)
  moreover have "(\<exists>x \<in> set (grouped trials). few x) \<longleftrightarrow>
      \<not> (\<forall>t \<in> set trials. 2 \<le> length (group_of trials (group_key t)))"
    by (auto simp: grouped_def few_def not_le)
  ultimately show ?thesis by (simp split: if_splits)
qed

lemma collected_rows:
  assumes "py_map row_of (grouped trials) = Inr rows"
  shows "list_all2 (\<lambda>key row. \<exists>middle. row = row_frame key middle
      (length (filter tr_invariant_valid (group_of trials key))) (length (group_of trials key)))
    (sort (remdups (map group_key trials))) rows"
proof -
  let ?keys = "sort (remdups (map group_key trials))"
  have "list_all2 (\<lambda>key row. report_row key (group_of trials key) = Inr row) ?keys rows"
    using assms by (simp add: py_map_eq_Inr grouped_def list_all2_map1)
  moreover have "\<exists>middle. row = row_frame key middle (length (filter tr_invariant_valid (group_of trials key)))
      (length (group_of trials key))"
    if "key \<in> set ?keys" "report_row key (group_of trials key) = Inr row" for key row
  proof -
    have "group_of trials key \<noteq> []" using that(1) by (auto simp: filter_empty_conv)
    from report_row_ends [OF this, of key] that(2) show ?thesis by (metis sum.distinct(1) sum.inject(2))
  qed
  ultimately show ?thesis by (rule list.rel_mono_strong) (use in_set_zipE in blast)
qed

lemma render_markdown_eq:
  "render_markdown meta trials name =
    py_bind (py_map row_of (grouped trials)) (\<lambda>rows.
    Inr (py_join [CHR 0x0A] (report_head meta name @ rows @ report_limits meta trials)))"
  by (cases "py_map row_of (grouped trials)") (simp_all add: render_markdown_def report_lines_def)

text \<open>
  The report accounts for every trial. It is written exactly when no combination of strategy,
  workload and level has a single trial, for which Python's quartiles are not defined; so it is
  when each has its three repetitions. It then has one row for each combination that occurs, in
  ascending order, and each row ends with how many trials of the combination were found valid, of
  how many; all the trials together are those of the document.
\<close>

theorem report_accounts_for_trials:
  shows "((\<exists>doc. render_markdown meta trials name = Inr doc) \<longleftrightarrow>
      (\<forall>t \<in> set trials. 2 \<le> length (group_of trials (group_key t)))) \<and>
    (\<forall>e. render_markdown meta trials name = Inl e \<longrightarrow>
      e = StatisticsError ''must have at least two data points'') \<and>
    ((\<forall>t \<in> set trials. \<forall>r \<in> {1, 2, 3}. \<exists>u \<in> set trials. group_key u = group_key t \<and> tr_repetition u = r) \<longrightarrow>
      (\<exists>doc. render_markdown meta trials name = Inr doc)) \<and>
    (\<forall>doc. render_markdown meta trials name = Inr doc \<longrightarrow>
      (\<exists>keys rows. doc = py_join [CHR 0x0A] (report_head meta name @ rows @ report_limits meta trials) \<and>
        sorted_wrt (<) keys \<and> set keys = group_key ` set trials \<and>
        list_all2 (\<lambda>key row. \<exists>middle. row = row_frame key middle
          (length (filter tr_invariant_valid (group_of trials key))) (length (group_of trials key))) keys rows \<and>
        sum_list (map (\<lambda>key. length (group_of trials key)) keys) = length trials))"
proof (intro conjI allI impI)
  show "(\<exists>doc. render_markdown meta trials name = Inr doc) \<longleftrightarrow>
      (\<forall>t \<in> set trials. 2 \<le> length (group_of trials (group_key t)))" (is "?written \<longleftrightarrow> ?sizes")
    using rows_end [of trials] by (auto simp: render_markdown_eq split: if_splits)
  then show ?written
    if "\<forall>t \<in> set trials. \<forall>r \<in> {1, 2, 3}. \<exists>u \<in> set trials. group_key u = group_key t \<and> tr_repetition u = r"
    using that three_repetitions [of trials] by blast
next
  fix e
  assume "render_markdown meta trials name = Inl e"
  then show "e = StatisticsError ''must have at least two data points''"
    using rows_end [of trials] by (auto simp: render_markdown_eq few_points_def split: if_splits)
next
  fix doc
  assume "render_markdown meta trials name = Inr doc"
  then obtain rs where rs: "py_map row_of (grouped trials) = Inr rs"
    "doc = py_join [CHR 0x0A] (report_head meta name @ rs @ report_limits meta trials)"
    by (auto simp: render_markdown_eq)
  have "sorted_wrt (<) (sort (remdups (map group_key trials)))" by (simp add: strict_sorted_iff)
  then show "\<exists>keys rows. doc = py_join [CHR 0x0A] (report_head meta name @ rows @ report_limits meta trials) \<and>
      sorted_wrt (<) keys \<and> set keys = group_key ` set trials \<and>
      list_all2 (\<lambda>key row. \<exists>middle. row = row_frame key middle
        (length (filter tr_invariant_valid (group_of trials key))) (length (group_of trials key))) keys rows \<and>
      sum_list (map (\<lambda>key. length (group_of trials key)) keys) = length trials"
    using rs(2) collected_rows [OF rs(1)] group_sizes [of trials]
    by (intro exI [of _ "sort (remdups (map group_key trials))"] exI [of _ rs]) simp
qed

definition sample_trial :: "nat trial_result" where
  "sample_trial =
     \<lparr>tr_strategy = ''unsafe'', tr_workload = ''same_price'', tr_concurrency = 8, tr_request_count = 10,
      tr_repetition = 1, tr_wall_time_ns = 10000000, tr_throughput = float_of_int 1000,
      tr_p50_latency_ms = float_of_int 2, tr_p95_latency_ms = float_of_int 5,
      tr_p99_latency_ms = float_of_int 7, tr_outcome_counts = [(''accepted'', 1), (''rejected'', 9)],
      tr_total_attempts = 10, tr_total_conflicts = 0, tr_invariant_valid = True,
      tr_invariant_violations = [], tr_requests = []\<rparr>"

definition sample_metadata :: report_metadata where
  "sample_metadata =
     \<lparr>me_recorded_at = ''2026-09-22'', me_platform = ''test'', me_postgresql_version = ''17'', me_mode = None,
      me_request_observations = None, me_git_commit = None, me_git_dirty = None\<rparr>"

theorem report_accounts_for_trials_witness:
  "(\<exists>doc keys. render_markdown sample_metadata
      [sample_trial, sample_trial\<lparr>tr_repetition := 2, tr_invariant_valid := False\<rparr>] ''raw.json'' = Inr doc \<and>
      set keys = {(''unsafe'', ''same_price'', 8 :: int)}) \<and>
   render_markdown sample_metadata [sample_trial] ''raw.json'' =
     Inl (StatisticsError ''must have at least two data points'')"
proof
  let ?two = "[sample_trial, sample_trial\<lparr>tr_repetition := 2, tr_invariant_valid := False\<rparr>]"
  note two = report_accounts_for_trials [of sample_metadata ?two "''raw.json''"]
  have "\<forall>t \<in> set ?two. 2 \<le> length (group_of ?two (group_key t))"
    by (simp add: group_key_def)
  with two obtain doc where doc: "render_markdown sample_metadata ?two ''raw.json'' = Inr doc" by blast
  from two [THEN conjunct2, THEN conjunct2, THEN conjunct2, THEN spec, THEN mp, OF doc]
  obtain keys where "set keys = group_key ` set ?two" by (elim exE conjE)
  then have keys: "set keys = {(''unsafe'', ''same_price'', 8 :: int)}" by (simp add: group_key_def sample_trial_def)
  show "\<exists>doc keys. render_markdown sample_metadata ?two ''raw.json'' = Inr doc \<and>
      set keys = {(''unsafe'', ''same_price'', 8 :: int)}"
    by (rule exI, rule exI, rule conjI [OF doc keys])
next
  note one = report_accounts_for_trials [of sample_metadata "[sample_trial]" "''raw.json''"]
  have "\<not> (\<forall>t \<in> set [sample_trial]. 2 \<le> length (group_of [sample_trial] (group_key t)))" by simp
  with one have "\<nexists>doc. render_markdown sample_metadata [sample_trial] ''raw.json'' = Inr doc" by blast
  then obtain e where e: "render_markdown sample_metadata [sample_trial] ''raw.json'' = Inl e"
    by (cases "render_markdown sample_metadata [sample_trial] ''raw.json''") blast+
  with one have "e = StatisticsError ''must have at least two data points''" by blast
  with e show "render_markdown sample_metadata [sample_trial] ''raw.json'' =
     Inl (StatisticsError ''must have at least two data points'')" by simp
qed

end
