(* ===== verification/Main_Properties.thy ===== *)
theory Main_Properties
  imports Benchmark_Main Runner_Properties Cli_Properties Report_Properties
begin

section \<open>Properties of the benchmark as a whole\<close>

subsection \<open>The loops\<close>

text \<open>The numbers of requests a workload can be seeded with.\<close>

definition requests_ok :: "int \<Rightarrow> bool" where
  "requests_ok n \<longleftrightarrow> 0 < n \<and> n < 2 ^ 40 \<and> 10000 + 100 * n \<le> MAX_MONEY_CENTS"

definition step_ok :: "int \<Rightarrow> benchmark_step \<Rightarrow> bool" where
  "step_ok attempts step \<longleftrightarrow>
     (case step of
        Warm_Up name concurrency n \<Rightarrow>
          (\<exists>strategy. strategy_from_name name attempts = Inr strategy) \<and> 0 < concurrency \<and> requests_ok n
      | Trial (name, workload, concurrency, repetition) n \<Rightarrow>
          (\<exists>strategy. strategy_from_name name attempts = Inr strategy) \<and> workload \<in> set WORKLOADS \<and>
          0 < concurrency \<and> requests_ok n)"

definition step_requests :: "benchmark_step \<Rightarrow> int" where
  "step_requests step = (case step of Warm_Up name concurrency n \<Rightarrow> n | Trial spec n \<Rightarrow> n)"

text \<open>What a trial of the plan is recorded as.\<close>

definition records :: "trial_spec \<Rightarrow> violation trial_result \<Rightarrow> bool" where
  "records spec tr \<longleftrightarrow>
     (case spec of (name, workload, concurrency, repetition) \<Rightarrow>
        group_key tr = (name, workload, concurrency) \<and> tr_repetition tr = int repetition \<and>
        (name = ''optimistic'' \<longrightarrow> tr_invariant_valid tr))"

primrec planned_trials :: "benchmark_step list \<Rightarrow> trial_spec list" where
  "planned_trials [] = []"
| "planned_trials (step # steps) =
     (case step of Warm_Up name concurrency n \<Rightarrow> planned_trials steps | Trial spec n \<Rightarrow> spec # planned_trials steps)"

lemma planned_trials_simps:
  "planned_trials (xs @ ys) = planned_trials xs @ planned_trials ys"
  "planned_trials (warm_ups S L n) = []"
  "planned_trials (map (\<lambda>t. Trial t n) specs) = specs"
proof -
  show app: "planned_trials (xs @ ys) = planned_trials xs @ planned_trials ys" for xs ys
    by (induction xs) (auto split: benchmark_step.split)
  have "planned_trials (map (\<lambda>concurrency. Warm_Up strategy concurrency n) L) = []" for strategy
    by (induction L) simp_all
  then show "planned_trials (warm_ups S L n) = []"
    by (induction S) (simp_all add: warm_ups_def app)
  show "planned_trials (map (\<lambda>t. Trial t n) specs) = specs" by (induction specs) simp_all
qed

lemma step_runs:
  assumes "\<And>seed xs. mset (shuffle seed xs) = mset xs" "step_ok attempts step" "usable_world w"
  shows "run_step (w\<lparr>wo_schedule := no_connection (nat (step_requests step))\<rparr>) shuffle random_seed attempts step d \<noteq> None"
    and "run_step w shuffle random_seed attempts step d = Some (result, d') \<Longrightarrow>
      \<exists>trials. result = Inr trials \<and> list_all2 records (planned_trials [step]) trials"
proof -
  have returns: "run_trial (w\<lparr>wo_schedule := no_connection (nat n)\<rparr>) shuffle name workload concurrency n repetition
      seed attempts d \<noteq> None"
    "run_trial w shuffle name workload concurrency n repetition seed attempts d = Some (result', d1) \<Longrightarrow>
      \<exists>tr. result' = Inr tr \<and> group_key tr = (name, workload, concurrency) \<and> tr_repetition tr = repetition \<and>
        (name = ''optimistic'' \<longrightarrow> tr_invariant_valid tr)"
    if "workload \<in> set WORKLOADS" "0 < n" "n < 2 ^ 40" "10000 + 100 * n \<le> MAX_MONEY_CENTS" "0 < concurrency"
      "strategy_from_name name attempts = Inr strategy"
    for name workload concurrency n repetition seed d result' d1 strategy
    by (rule trial_returns [where shuffle = shuffle and d = d and random_seed = seed and repetition = repetition,
          OF assms(1) that(1-4) assms(3) that(5,6)], unfold sums_up_def group_key_def, blast)+
  have low: "''low_contention'' \<in> set WORKLOADS" by (simp add: WORKLOADS_def)
  let ?w = "w\<lparr>wo_schedule := no_connection (nat (step_requests step))\<rparr>"
  have "run_step ?w shuffle random_seed attempts step d \<noteq> None \<and>
    (run_step w shuffle random_seed attempts step d = Some (result, d') \<longrightarrow>
      (\<exists>trials. result = Inr trials \<and> list_all2 records (planned_trials [step]) trials))"
  proof (cases step)
    case (Warm_Up name concurrency n)
    then obtain strategy where ok: "strategy_from_name name attempts = Inr strategy" "0 < concurrency" "requests_ok n"
      using assms(2) by (auto simp: step_ok_def)
    then have n: "0 < n" "n < 2 ^ 40" "10000 + 100 * n \<le> MAX_MONEY_CENTS" by (simp_all add: requests_ok_def)
    note can_end = returns(1) [OF low n ok(2,1)] and result = returns(2) [OF low n ok(2,1)]
    show ?thesis
      using can_end [of 0 random_seed d] result [of 0 random_seed d]
      by (auto simp: Warm_Up run_step_def run_warmup_def step_requests_def)
  next
    case (Trial spec n)
    obtain name workload concurrency repetition where spec: "spec = (name, workload, concurrency, repetition)"
      by (cases spec) auto
    with Trial obtain strategy where ok: "strategy_from_name name attempts = Inr strategy" "0 < concurrency"
      "requests_ok n" "workload \<in> set WORKLOADS"
      using assms(2) by (auto simp: step_ok_def)
    then have n: "0 < n" "n < 2 ^ 40" "10000 + 100 * n \<le> MAX_MONEY_CENTS" by (simp_all add: requests_ok_def)
    note can_end = returns(1) [OF ok(4) n ok(2,1)] and result = returns(2) [OF ok(4) n ok(2,1)]
    show ?thesis
      using can_end [of "int repetition" "random_seed + int repetition" d]
        result [of "int repetition" "random_seed + int repetition" d]
      by (auto simp: Trial spec run_step_def step_requests_def records_def)
  qed
  then show "run_step ?w shuffle random_seed attempts step d \<noteq> None"
    and "run_step w shuffle random_seed attempts step d = Some (result, d') \<Longrightarrow>
      \<exists>trials. result = Inr trials \<and> list_all2 records (planned_trials [step]) trials"
    by blast+
qed

lemma steps_run:
  assumes "\<And>seed xs. mset (shuffle seed xs) = mset xs" "\<forall>step \<in> set steps. step_ok attempts step"
    and "\<And>k. usable_world (worlds k)"
    and "run_steps worlds shuffle random_seed attempts k steps d = Some (trials, how, d')"
  shows "how = Inr () \<and> list_all2 records (planned_trials steps) trials"
  using assms(2,4)
proof (induction steps arbitrary: k d trials)
  case (Cons step steps)
  have ok: "step_ok attempts step" "\<forall>step \<in> set steps. step_ok attempts step" using Cons.prems(1) by simp_all
  obtain result d1 where r: "run_step (worlds k) shuffle random_seed attempts step d = Some (result, d1)"
    using Cons.prems(2) by (auto split: option.splits)
  obtain here where here: "result = Inr here" "list_all2 records (planned_trials [step]) here"
    using step_runs(2) [where shuffle = shuffle, OF assms(1) ok(1) assms(3) r] by blast
  obtain more where more: "run_steps worlds shuffle random_seed attempts (Suc k) steps d1 = Some (more, how, d')"
    "trials = here @ more"
    using Cons.prems(2) r here(1) by auto
  have "list_all2 records (planned_trials ([step] @ steps)) (here @ more)"
    unfolding planned_trials_simps(1) using Cons.IH [OF ok(2) more(1)] here(2) by (simp add: list_all2_appendI)
  with Cons.IH [OF ok(2) more(1)] more(2) show ?case by simp
qed simp

text \<open>The loops can end, whatever the database: in worlds in which no call gets a connection.\<close>

definition unconnected :: "(nat \<Rightarrow> trial_world) \<Rightarrow> nat \<Rightarrow> benchmark_step list \<Rightarrow> nat \<Rightarrow> trial_world" where
  "unconnected worlds k steps i =
     (worlds i)\<lparr>wo_schedule := no_connection (nat (step_requests (steps ! (i - k))))\<rparr>"

lemma unconnected_Suc: "Suc k \<le> i \<Longrightarrow> unconnected worlds k (step # steps) i = unconnected worlds (Suc k) steps i"
  by (simp add: unconnected_def nth_Cons')

lemma run_steps_cong:
  "(\<And>i. k \<le> i \<Longrightarrow> worlds i = worlds' i) \<Longrightarrow>
   run_steps worlds shuffle random_seed attempts k steps d = run_steps worlds' shuffle random_seed attempts k steps d"
  by (induction steps arbitrary: k d) (auto split: option.split sum.split intro!: arg_cong [where f = "map_option _"])

lemma steps_can_end:
  assumes "\<And>seed xs. mset (shuffle seed xs) = mset xs" "\<forall>step \<in> set steps. step_ok attempts step"
    and "\<And>k. usable_world (worlds k)"
  shows "run_steps (unconnected worlds k steps) shuffle random_seed attempts k steps d \<noteq> None"
  using assms(2)
proof (induction steps arbitrary: k d)
  case (Cons step steps)
  have ok: "step_ok attempts step" "\<forall>step \<in> set steps. step_ok attempts step" using Cons.prems by simp_all
  let ?w = "(worlds k)\<lparr>wo_schedule := no_connection (nat (step_requests step))\<rparr>"
  have w: "unconnected worlds k (step # steps) k = ?w" by (simp add: unconnected_def)
  obtain result d1 where r: "run_step ?w shuffle random_seed attempts step d = Some (result, d1)"
    using step_runs(1) [where shuffle = shuffle, OF assms(1) ok(1) assms(3) [of k], of random_seed d] by fast
  have "usable_world ?w" using assms(3) [of k] by (simp add: usable_world_def)
  then obtain trials where "result = Inr trials"
    using step_runs(2) [where shuffle = shuffle, OF assms(1) ok(1) _ r] by blast
  moreover have "run_steps (unconnected worlds k (step # steps)) shuffle random_seed attempts (Suc k) steps d1 \<noteq> None"
    using Cons.IH [OF ok(2), of "Suc k" d1]
      run_steps_cong [of "Suc k" "unconnected worlds k (step # steps)" "unconnected worlds (Suc k) steps"]
    by (simp add: unconnected_Suc)
  ultimately show ?case by (simp add: w r del: not_None_eq)
qed simp

subsection \<open>Groups\<close>

lemma recorded_groups:
  assumes "list_all2 records specs trials"
  shows "length (group_of trials key) = length (filter (\<lambda>(s, w, c, r). (s, w, c) = key) specs)"
    and "group_key ` set trials = (\<lambda>(s, w, c, r). (s, w, c)) ` set specs"
    and "\<And>tr. tr \<in> set trials \<Longrightarrow> fst (group_key tr) = ''optimistic'' \<Longrightarrow> tr_invariant_valid tr"
  using assms
proof (induction rule: list_all2_induct)
  case (Cons spec specs tr trials)
  obtain s w c r where spec: "spec = (s, w, c, r)" by (cases spec) auto
  with Cons.hyps(1) have tr: "group_key tr = (s, w, c)" "s = ''optimistic'' \<Longrightarrow> tr_invariant_valid tr"
    by (simp_all add: records_def)
  {
    case 1
    show ?case using Cons.IH(1) by (auto simp: spec tr(1))
  next
    case 2
    show ?case using Cons.IH(2) by (simp add: spec tr(1))
  next
    case (3 t)
    with Cons.IH(3) tr show ?case by auto
  }
qed simp_all

lemma group_size:
  assumes "distinct specs" "set specs = S \<times> W \<times> L \<times> {1..n}" "(s, w, c) \<in> S \<times> W \<times> L"
  shows "length (filter (\<lambda>(s', w', c', r). (s', w', c') = (s, w, c)) specs) = n"
proof -
  have "set (filter (\<lambda>(s', w', c', r). (s', w', c') = (s, w, c)) specs) = (\<lambda>r. (s, w, c, r)) ` {1..n}"
    using assms(2,3) by auto
  moreover have "card ((\<lambda>r. (s, w, c, r)) ` {1..n}) = n" by (subst card_image) (auto simp: inj_on_def)
  moreover have "distinct (filter (\<lambda>(s', w', c', r). (s', w', c') = (s, w, c)) specs)" using assms(1) by simp
  ultimately show ?thesis by (metis distinct_card)
qed

subsection \<open>From the arguments to the report\<close>

lemma planned_steps_ok:
  assumes "settings_from_env env = Inr base" "\<And>xs. mset (reorder xs) = mset xs"
    and "cli_main a env reorder = Planned s steps" "concurrency_levels a = Inr L"
    and "requests_ok (ar_requests a)" "requests_ok (ar_warmup_requests a)"
  shows "\<forall>step \<in> set steps. step_ok (st_optimistic_max_attempts s) step"
    and "mset (planned_trials steps) =
      mset (build_trial_schedule (parse_csv (ar_strategies a)) (parse_csv (ar_workloads a)) L
        (nat (ar_repetitions a)) reorder False)"
    and "3 \<le> ar_repetitions a"
proof -
  let ?S = "parse_csv (ar_strategies a)" and ?W = "parse_csv (ar_workloads a)"
  let ?trials = "build_trial_schedule ?S ?W L (nat (ar_repetitions a)) reorder (ar_randomized a)"
  have ok: "arguments_ok a" using assms(3) cli_main_refused [of a env reorder] by auto
  then show "3 \<le> ar_repetitions a" by (simp add: arguments_ok_def)
  have plan: "benchmark_settings (ar_database_url a) L base = Inr s"
    "steps = warm_ups ?S L (ar_warmup_requests a) @ map (\<lambda>t. Trial t (ar_requests a)) ?trials"
    using assms(3) unfolding planned_iff [OF assms(1) ok assms(4)] by blast+
  have "settings_ok base" using assms(1) by (simp add: settings_from_env_eq_Inr)
  note settings = benchmark_settings_eq_Inr [OF this concurrency_levels_shape(1) [OF assms(4)]]
  have "settings_ok s" "0 < Max (set L)" using settings plan(1) by blast+
  have levels: "\<forall>c \<in> set L. 0 < c"
  proof (rule concurrency_levels_shape(2) [OF assms(4)], intro allI impI)
    fix c
    assume "ar_concurrency a = Some c"
    with assms(4) \<open>0 < Max (set L)\<close> show "0 < c" by (auto simp: concurrency_levels_def)
  qed
  have strategies: "\<exists>strategy. strategy_from_name x (st_optimistic_max_attempts s) = Inr strategy" if "x \<in> set ?S" for x
    using that ok \<open>settings_ok s\<close> known_strategy [of x s] by (auto simp: arguments_ok_def)
  have mset: "mset ?trials = mset (build_trial_schedule ?S ?W L (nat (ar_repetitions a)) reorder False)"
    by (rule schedule_shuffled [where shuffle = reorder, OF assms(2)])
  then show "mset (planned_trials steps) = mset (build_trial_schedule ?S ?W L (nat (ar_repetitions a)) reorder False)"
    by (simp add: plan(2) planned_trials_simps)
  have "set ?trials = set ?S \<times> set ?W \<times> set L \<times> {1..nat (ar_repetitions a)}"
    using mset_eq_setD [OF mset] full_schedule(1) by metis
  then show "\<forall>step \<in> set steps. step_ok (st_optimistic_max_attempts s) step"
    using strategies levels ok assms(5,6) by (auto simp: plan(2) warm_ups_set step_ok_def arguments_ok_def)
qed

text \<open>A session in which nothing fails but what may fail in the loads.\<close>

definition smooth_world :: "cli_world \<Rightarrow> bool" where
  "smooth_world w \<longleftrightarrow>
     cw_opening w = Inr () \<and> cw_writing w = Inr () \<and> (\<forall>k. usable_world (cw_trials w k)) \<and>
     (\<exists>versions. cw_migrating w = Inr versions) \<and> (\<exists>row. cw_postgres w = Inr (Some row)) \<and>
     (\<exists>source. git_metadata (cw_rev_parse w) (cw_status w) = Inr source)"

lemma smooth_session:
  assumes "smooth_world w"
  shows "cli_session a L s steps w shuffle d \<noteq> None \<longleftrightarrow>
      run_steps (cw_trials w) shuffle (ar_random_seed a) (st_optimistic_max_attempts s) 0 steps d \<noteq> None"
    and "cli_session a L s steps w shuffle d = Some (effects, how, d') \<Longrightarrow>
      \<exists>trials how'.
        run_steps (cw_trials w) shuffle (ar_random_seed a) (st_optimistic_max_attempts s) 0 steps d =
          Some (trials, how', d') \<and>
        (how' = Inr () \<longrightarrow> how = Inr () \<and>
          (\<exists>versions path doc. effects = Opened # Migrated versions # map (\<lambda>tr. Printed (trial_line tr)) trials @
              [Written path doc, Printed (''Raw benchmark written to '' @ path), Closed] \<and>
            cd_configuration doc = cli_configuration_of a L s \<and>
            cd_trials doc = map (serialize (ar_summary_only a)) trials))"
proof -
  obtain versions row source where w: "cw_opening w = Inr ()" "cw_writing w = Inr ()"
    "cw_migrating w = Inr versions" "cw_postgres w = Inr (Some row)"
    "git_metadata (cw_rev_parse w) (cw_status w) = Inr source"
    using assms by (auto simp: smooth_world_def)
  obtain environment where e: "environment_metadata (cw_machine w) (cw_postgres w) (ar_random_seed a) = Inr environment"
    by (simp add: environment_metadata_def postgres_metadata_def w(4))
  note session = cli_session_def cli_body_def w(1-3,5) e
  show "cli_session a L s steps w shuffle d \<noteq> None \<longleftrightarrow>
      run_steps (cw_trials w) shuffle (ar_random_seed a) (st_optimistic_max_attempts s) 0 steps d \<noteq> None"
    by (simp add: session)
  assume ended: "cli_session a L s steps w shuffle d = Some (effects, how, d')"
  then have "run_steps (cw_trials w) shuffle (ar_random_seed a) (st_optimistic_max_attempts s) 0 steps d \<noteq> None"
    by (auto simp: session)
  then obtain trials how' d1 where run':
    "run_steps (cw_trials w) shuffle (ar_random_seed a) (st_optimistic_max_attempts s) 0 steps d =
      Some (trials, how', d1)"
    by auto
  have "d1 = d'" using ended by (cases how') (auto simp: session run' Let_def)
  note run = run' [unfolded this]
  show "\<exists>trials how'.
        run_steps (cw_trials w) shuffle (ar_random_seed a) (st_optimistic_max_attempts s) 0 steps d =
          Some (trials, how', d') \<and>
        (how' = Inr () \<longrightarrow> how = Inr () \<and>
          (\<exists>versions path doc. effects = Opened # Migrated versions # map (\<lambda>tr. Printed (trial_line tr)) trials @
              [Written path doc, Printed (''Raw benchmark written to '' @ path), Closed] \<and>
            cd_configuration doc = cli_configuration_of a L s \<and>
            cd_trials doc = map (serialize (ar_summary_only a)) trials))"
    by (intro exI [of _ trials] exI [of _ how'] conjI run impI)
      (use ended in \<open>auto simp: session run Let_def\<close>)
qed

text \<open>The report on the trials of a complete plan.\<close>

lemma records_serialize [simp]: "records spec (fst (serialize b tr)) = records spec tr"
  by (simp add: serialize_def records_def group_key_def)

lemma serialized_records:
  "list_all2 records specs trials \<Longrightarrow> list_all2 records specs (map fst (map (serialize b) trials))"
  by (simp add: list_all2_map2)

lemma complete_report:
  assumes "list_all2 records specs trials" "distinct specs" "set specs = S \<times> W \<times> L \<times> {1..n}" "3 \<le> n"
  shows "\<exists>keys rows. render_markdown meta trials name =
      Inr (py_join [CHR 0x0A] (report_head meta name @ rows @ report_limits meta trials)) \<and>
    sorted_wrt (<) keys \<and> set keys = S \<times> W \<times> L \<and>
    list_all2 (\<lambda>key row. \<exists>middle valid. row = row_frame key middle valid n \<and>
      valid = length (filter tr_invariant_valid (group_of trials key)) \<and>
      (fst key = ''optimistic'' \<longrightarrow> valid = n)) keys rows"
proof -
  let ?keys = "sort (remdups (map group_key trials))"
  note groups = recorded_groups [OF assms(1)]
  have keys: "set ?keys = S \<times> W \<times> L"
  proof -
    have "(\<lambda>(s, w, c, r). (s, w, c)) ` (S \<times> W \<times> L \<times> {1..n}) = S \<times> W \<times> L"
      using assms(4) by (auto simp: image_iff intro!: exI [of _ n])
    then show ?thesis using groups(2) assms(3) by simp
  qed
  have size: "length (group_of trials key) = n" if "key \<in> S \<times> W \<times> L" for key
    using group_size [OF assms(2,3)] that unfolding groups(1) by (cases key) auto
  have "2 \<le> length (group_of trials (group_key t))" if "t \<in> set trials" for t
  proof -
    have "group_key t \<in> S \<times> W \<times> L" using that keys by auto
    then show ?thesis using size assms(4) by simp
  qed
  then obtain rows where rows: "py_map row_of (grouped trials) = Inr rows"
    using rows_end [of trials] by auto
  have "list_all2 (\<lambda>key row. \<exists>middle valid. row = row_frame key middle valid n \<and>
      valid = length (filter tr_invariant_valid (group_of trials key)) \<and>
      (fst key = ''optimistic'' \<longrightarrow> valid = n)) ?keys rows"
  proof (rule list.rel_mono_strong [OF collected_rows [OF rows]])
    fix key row
    assume key: "key \<in> set ?keys"
      and row: "\<exists>middle. row = row_frame key middle (length (filter tr_invariant_valid (group_of trials key)))
        (length (group_of trials key))"
    have "filter tr_invariant_valid (group_of trials key) = group_of trials key" if "fst key = ''optimistic''"
      using groups(3) that by (intro filter_True) auto
    with row size [of key] key keys show "\<exists>middle valid. row = row_frame key middle valid n \<and>
        valid = length (filter tr_invariant_valid (group_of trials key)) \<and> (fst key = ''optimistic'' \<longrightarrow> valid = n)"
      by auto
  qed
  moreover have "sorted_wrt (<) ?keys" by (simp add: strict_sorted_iff)
  ultimately show ?thesis
    using keys rows by (intro exI [of _ ?keys] exI [of _ rows]) (simp add: render_markdown_eq)
qed

text \<open>The document of a session that carries out a complete plan, and its report.\<close>

lemma session_publishes:
  assumes "smooth_world w" "\<And>seed xs. mset (shuffle seed xs) = mset xs"
    and "\<forall>step \<in> set steps. step_ok (st_optimistic_max_attempts s) step"
    and "distinct (planned_trials steps)" "set (planned_trials steps) = S \<times> W \<times> K \<times> {1..n}" "3 \<le> n"
    and "cli_session a L s steps w shuffle d = Some (effects, how, d')"
  shows "how = Inr () \<and> hd effects = Opened \<and> last effects = Closed \<and>
    (\<exists>path doc. filter (\<lambda>e. case e of Written p x \<Rightarrow> True | _ \<Rightarrow> False) effects = [Written path doc] \<and>
      cd_configuration doc = cli_configuration_of a L s \<and>
      (\<forall>meta trials name. meta = cli_report_metadata doc \<and> trials = map fst (cd_trials doc) \<longrightarrow>
        (\<exists>keys rows. render_markdown meta trials name =
            Inr (py_join [CHR 0x0A] (report_head meta name @ rows @ report_limits meta trials)) \<and>
          sorted_wrt (<) keys \<and> set keys = S \<times> W \<times> K \<and>
          list_all2 (\<lambda>key row. \<exists>middle valid. row = row_frame key middle valid n \<and>
            valid = length (filter tr_invariant_valid (group_of trials key)) \<and>
            (fst key = ''optimistic'' \<longrightarrow> valid = n)) keys rows)))"
proof -
  have worlds: "usable_world (cw_trials w k)" for k using assms(1) by (simp add: smooth_world_def)
  obtain trials how' where run: "run_steps (cw_trials w) shuffle (ar_random_seed a) (st_optimistic_max_attempts s)
      0 steps d = Some (trials, how', d')"
    and finished: "how' = Inr () \<longrightarrow> how = Inr () \<and>
      (\<exists>versions path doc. effects = Opened # Migrated versions # map (\<lambda>tr. Printed (trial_line tr)) trials @
          [Written path doc, Printed (''Raw benchmark written to '' @ path), Closed] \<and>
        cd_configuration doc = cli_configuration_of a L s \<and>
        cd_trials doc = map (serialize (ar_summary_only a)) trials)"
    using smooth_session(2) [OF assms(1,7)] by blast
  have recorded: "how' = Inr ()" "list_all2 records (planned_trials steps) trials"
    using steps_run [where shuffle = shuffle, OF assms(2,3) worlds run] by blast+
  with finished obtain versions path doc where how: "how = Inr ()"
    and effects: "effects = Opened # Migrated versions # map (\<lambda>tr. Printed (trial_line tr)) trials @
        [Written path doc, Printed (''Raw benchmark written to '' @ path), Closed]"
    and doc: "cd_configuration doc = cli_configuration_of a L s"
      "cd_trials doc = map (serialize (ar_summary_only a)) trials"
    by blast
  note report = complete_report [OF serialized_records [OF recorded(2), of "ar_summary_only a", folded doc(2)]
      assms(4-6)]
  show ?thesis
    using how doc(1) report by (intro conjI exI [of _ path] exI [of _ doc] allI impI) (auto simp: effects)
qed


definition smoke_world :: cli_world where
  "smoke_world =
     \<lparr>cw_opening = Inr (), cw_migrating = Inr [],
      cw_machine = \<lparr>ma_recorded_at = ''2026-09-22'', ma_python = ''3.11'', ma_platform = ''test'',
        ma_processor = [], ma_machine = ''test''\<rparr>,
      cw_postgres = Inr (Some \<lparr>pg_version = ''17'', pg_isolation = ''read committed'', pg_timezone = ''UTC''\<rparr>),
      cw_rev_parse = Completed ''0123abcd'', cw_status = Program_Missing, cw_trials = (\<lambda>k. small_world),
      cw_timestamp = ''20260922T000000Z'', cw_writing = Inr ()\<rparr>"

lemma smoke_world_smooth: "smooth_world smoke_world"
  using small_world_usable [of "[]"]
  by (simp add: smooth_world_def smoke_world_def git_metadata_def usable_world_def small_world_def)

lemma smoke_planned:
  "concurrency_levels smoke_arguments = Inr [1, 8]" "\<exists>s steps. cli_main smoke_arguments Map.empty rev = Planned s steps"
proof -
  show L: "concurrency_levels smoke_arguments = Inr [1, 8]"
    using smoke_parts(3) by (simp add: concurrency_levels_def smoke_arguments_def)
  have others: "ar_requests smoke_arguments = 20" "ar_repetitions smoke_arguments = 3"
    "ar_database_url smoke_arguments = None"
    by (simp_all add: smoke_arguments_def)
  have ok: "arguments_ok smoke_arguments"
    unfolding arguments_ok_def smoke_parts(1,2) L others by (simp add: VALID_STRATEGIES_def WORKLOADS_def)
  obtain base where base: "settings_from_env Map.empty = Inr base" using default_environment by blast
  then have "settings_ok base" by (simp add: settings_from_env_eq_Inr)
  then have "\<exists>s. benchmark_settings None [1, 8] base = Inr s"
    using benchmark_settings_eq_Inr(2) [of base "[1, 8]" None] by simp
  then show "\<exists>s steps. cli_main smoke_arguments Map.empty rev = Planned s steps"
    unfolding planned_iff [OF base ok L] others by blast
qed


end
