(* ===== verification/Http_Runner_Properties.thy ===== *)
theory Http_Runner_Properties
  imports Http_Runner Http_Properties Main_Properties
begin

section \<open>Properties of the benchmark over HTTP as a whole\<close>

subsection \<open>What a request leaves behind\<close>

definition ends_ok :: "bid_command \<Rightarrow> bid_outcome py \<Rightarrow> lstate \<Rightarrow> bool" where
  "ends_ok cmd result l = (case result of Inr x \<Rightarrow> returns_ok cmd x l | Inl e \<Rightarrow> raises_ok cmd e l)"

lemma ends_ok_simps [simp]:
  "ends_ok cmd (Inr x) l \<longleftrightarrow> returns_ok cmd x l" "ends_ok cmd (Inl e) l \<longleftrightarrow> raises_ok cmd e l"
  by (simp_all add: ends_ok_def)

definition server_answer :: "(instant \<Rightarrow> string) \<Rightarrow> reply \<Rightarrow> uuid \<Rightarrow> bid_outcome py \<Rightarrow> reply" where
  "server_answer isoformat unhandled a result =
     (case route_answer a result of Inl e \<Rightarrow> unhandled | Inr ans \<Rightarrow> http_reply isoformat (fst ans))"

context bid_strategy
begin

lemma route_result_triple:
  assumes "make_bid_command (br_request_id b) a (br_bidder_id b) (PyInt (br_amount_cents b)) = Inr c"
  shows "triple C unbid (place_bid_route place_bid a b)
    (\<lambda>ans l. \<exists>x. route_answer a x = Inr ans \<and> ends_ok c x l) (\<lambda>e l. \<exists>x. route_answer a x = Inl e \<and> ends_ok c x l)"
    (is "triple C unbid _ ?A ?F")
proof -
  let ?M = "\<lambda>ans l. case ans of
    Inl r \<Rightarrow> r = busy_response \<and> (\<exists>m. raises_ok c (StrategyBusyError m) l) | Inr x \<Rightarrow> returns_ok c x l"
  have placed: "triple C unbid (prog_bind (service_place_bid place_bid c) (\<lambda>x. Ret (Inr x))) ?M (raises_ok c)"
    unfolding service_place_bid_def by (rule triple_bind [OF place_bid_triple]) auto
  have handler: "triple C (raises_ok c e)
      (case e of StrategyBusyError message \<Rightarrow> Ret (Inl busy_response) | _ \<Rightarrow> Raise e) ?M ?F" for e
    by (cases e) (auto simp: route_answer_def intro!: triple_Raise triple_Ret exI [of _ "Inl e"])
  show ?thesis
    unfolding place_bid_route_def assms of_py_simps prog_bind.simps
  proof (rule triple_bind [OF triple_try [OF placed handler]])
    fix ans :: "http_response + bid_outcome"
    show "triple C (?M ans) (case ans of
          Inl response \<Rightarrow> Ret (response, None)
        | Inr outcome \<Rightarrow> of_py (placement_answer a outcome)) ?A ?F"
    proof (cases ans)
      case (Inl r)
      have "?A (busy_response, None) l" if "raises_ok c (StrategyBusyError m) l" for m l
        using that by (intro exI [of _ "Inl (StrategyBusyError m)"]) (simp add: route_answer_def)
      with Inl show ?thesis by (auto intro!: triple_Ret)
    next
      case (Inr x)
      then show ?thesis
        by (auto simp: route_answer_def intro!: triple_of_py exI [of _ "Inr x"])
    qed
  qed
qed

lemma post_bid_triple:
  assumes "place_bid_body uuid_of body = Inr b"
    and "make_bid_command (br_request_id b) a (br_bidder_id b) (PyInt (br_amount_cents b)) = Inr c"
  shows "triple C unbid (post_bid uuid_of isoformat errors unhandled place_bid a body)
    (\<lambda>reply l. \<exists>x. reply = server_answer isoformat unhandled a x \<and> ends_ok c x l) (\<lambda>e l. False)"
  unfolding post_bid_def assms(1) sum.case serve_def
proof (rule triple_try)
  show "triple C unbid
      (prog_bind (prog_bind (place_bid_route place_bid a b) (\<lambda>ans. Ret (fst ans)))
        (\<lambda>response. Ret (Reply (response_status response) (Some (response_json isoformat response)))))
      (\<lambda>reply l. \<exists>x. reply = server_answer isoformat unhandled a x \<and> ends_ok c x l)
      (\<lambda>e l. \<exists>x. route_answer a x = Inl e \<and> ends_ok c x l)"
    unfolding prog_bind_assoc
    by (rule triple_bind [OF route_result_triple [OF assms(2)]])
      (auto simp: server_answer_def http_reply_def intro!: triple_Ret split: sum.split, force)
next
  fix e
  show "triple C (\<lambda>l. \<exists>x. route_answer a x = Inl e \<and> ends_ok c x l) (Ret unhandled)
      (\<lambda>reply l. \<exists>x. reply = server_answer isoformat unhandled a x \<and> ends_ok c x l) (\<lambda>e l. False)"
    by (rule triple_Ret) (force simp: server_answer_def)
qed

end

subsection \<open>Loads over HTTP\<close>

text \<open>What the client relies on: the server reads the requests' identifiers and the times it has written, and
  its reply to an unhandled exception is not JSON.\<close>

definition usable_server :: "server \<Rightarrow> bool" where
  "usable_server server \<longleftrightarrow>
     (\<forall>t. sr_time_of server (JText (sr_isoformat server t)) = Some (Aware t)) \<and>
     (\<forall>u < 2 ^ 128. sr_uuid_of server (uuid_json u) = Some u) \<and>
     (\<exists>code. sr_unhandled server = Reply code None)"

text \<open>The command a request makes, and the reply to it.\<close>

definition sent_command :: "(nat \<Rightarrow> uuid) \<Rightarrow> string \<Rightarrow> uuid list \<Rightarrow> cents list \<Rightarrow> nat \<Rightarrow> bid_command" where
  "sent_command requests workload ids amounts p =
     seeded_command (requests p) (target workload ids p) p (amounts ! p)"

definition replied ::
    "server \<Rightarrow> (nat \<Rightarrow> uuid) \<Rightarrow> string \<Rightarrow> uuid list \<Rightarrow> cents list \<Rightarrow> nat \<Rightarrow> reply \<Rightarrow> lstate \<Rightarrow> bool" where
  "replied server requests workload ids amounts p reply l \<longleftrightarrow>
     (\<exists>x. reply = server_answer (sr_isoformat server) (sr_unhandled server) (target workload ids p) x \<and>
        ends_ok (sent_command requests workload ids amounts p) x l)"

definition sendable :: "(nat \<Rightarrow> uuid) \<Rightarrow> cents list \<Rightarrow> nat \<Rightarrow> bool" where
  "sendable requests amounts n \<longleftrightarrow>
     length amounts = n \<and> n < 10 ^ 90 \<and> (\<forall>p < n. requests p < 2 ^ 128 \<and> money_ok (amounts ! p))"

lemma sent_accepted:
  assumes "usable_server server" "sendable requests amounts n" "p < n"
  obtains b where "place_bid_body (sr_uuid_of server) (bid_request_json (requests p) p (amounts ! p)) = Inr b"
    "make_bid_command (br_request_id b) a (br_bidder_id b) (PyInt (br_amount_cents b)) =
      Inr (seeded_command (requests p) a p (amounts ! p))"
proof -
  have "sr_uuid_of server (uuid_json (requests p)) = Some (requests p)" "p < 10 ^ 90" "money_ok (amounts ! p)"
    using assms by (simp_all add: usable_server_def sendable_def)
  note accepted = bid_request_accepted [where uuid_of = "sr_uuid_of server", OF this]
  show ?thesis by (rule that [OF accepted(1)]) (use accepted(2) in simp)
qed

context bid_strategy
begin

lemma http_load_triple:
  assumes "usable_server server" "sendable requests amounts n" "sr_strategy server = place_bid"
  shows "triple C unbid (http_load server requests workload ids amounts n p)
    (\<lambda>ans l. \<forall>reply. ans = Some reply \<longrightarrow> p < n \<and> replied server requests workload ids amounts p reply l)
    (\<lambda>e l. False)"
proof (cases "p < n")
  case True
  let ?a = "target workload ids p"
  obtain b where "place_bid_body (sr_uuid_of server) (bid_request_json (requests p) p (amounts ! p)) = Inr b"
    "make_bid_command (br_request_id b) ?a (br_bidder_id b) (PyInt (br_amount_cents b)) =
      Inr (seeded_command (requests p) ?a p (amounts ! p))"
    by (rule sent_accepted [OF assms(1,2) True])
  note posted = post_bid_triple [where isoformat = "sr_isoformat server" and errors = "sr_errors server" and
      unhandled = "sr_unhandled server", OF this]
  have "triple C unbid (prog_bind (post_bid (sr_uuid_of server) (sr_isoformat server) (sr_errors server)
        (sr_unhandled server) place_bid ?a (bid_request_json (requests p) p (amounts ! p))) (\<lambda>r. Ret (Some r)))
    (\<lambda>ans l. \<forall>reply. ans = Some reply \<longrightarrow> p < n \<and> replied server requests workload ids amounts p reply l)
    (\<lambda>e l. False)"
    by (rule triple_bind [OF posted]) (use True in \<open>auto simp: replied_def sent_command_def intro!: triple_Ret\<close>)
  with True show ?thesis by (simp add: http_load_def assms(3))
qed (auto simp: http_load_def)

end

text \<open>What the client observes of a request, and what the request has stored.\<close>

lemma observed_request:
  assumes "usable_server server" "replied server requests workload ids amounts p reply l"
  shows "\<exists>ob. observe_reply p (target workload ids p) (amounts ! p) latency (client_reply lost reply) = Some ob \<and>
    (if ob_status ob = ''accepted'' then 1 else 0) \<le> length (log_bids l) \<and>
    length (log_bids l) \<le>
      (if ob_status ob = ''accepted'' then 1 else 0) + (if ob_status ob = ''system_error'' then 1 else 0)"
proof -
  let ?a = "target workload ids p" and ?c = "sent_command requests workload ids amounts p"
  obtain x where x: "reply = server_answer (sr_isoformat server) (sr_unhandled server) ?a x" "ends_ok ?c x l"
    using assms(2) by (auto simp: replied_def)
  have small: "length (log_bids l) \<le> 1"
    using x(2) by (cases x) (auto simp: returns_ok_def raises_ok_def outcome_ok_def split: bid_outcome_status.splits)
  show ?thesis
  proof (cases lost)
    case (Some name)
    with small show ?thesis by (simp add: client_reply_def reading_simps)
  next
    case None
    obtain code where code: "sr_unhandled server = Reply code None" using assms(1) by (auto simp: usable_server_def)
    have "\<And>y. x = Inr y \<Longrightarrow> valid_outcome y" using x(2) by (simp add: returns_ok_def outcome_ok_def)
    from observe_over_http [where index = p and a = ?a and amount = "amounts ! p" and latency = latency and
        isoformat = "sr_isoformat server" and request = "requests p", OF this code]
    have "observe_reply p ?a (amounts ! p) latency (client_reply lost reply) = Some (over_http x (observe p ?c latency x))"
      by (simp add: None client_reply_def x(1) server_answer_def sent_command_def)
    moreover have "(if ob_status (over_http x (observe p ?c latency x)) = ''accepted'' then 1 else 0) \<le> length (log_bids l) \<and>
      length (log_bids l) \<le> (if ob_status (over_http x (observe p ?c latency x)) = ''accepted'' then 1 else 0) +
        (if ob_status (over_http x (observe p ?c latency x)) = ''system_error'' then 1 else 0)"
    proof (cases x)
      case (Inl e)
      with x(2) small show ?thesis by (cases e) (auto simp: over_http_def observe_def raises_ok_def)
    next
      case (Inr y)
      with x(2) show ?thesis
        by (cases "out_status y") (auto simp: over_http_def observe_def returns_ok_def outcome_ok_def)
    qed
    ultimately show ?thesis by blast
  qed
qed

lemma server_reply_Some: "server_reply p = Some reply \<longleftrightarrow> p = Ret (Some reply)"
  by (cases p) (auto simp: server_reply_def)

lemma execute_http_load_runs:
  assumes "execute_http_load w server workload ids amounts n d = Some (obs, d')"
  obtains s ps replies where "sv_store s = d'" "\<And>i. i < n \<Longrightarrow> ps i = Ret (Some (replies ! i))" "length obs = n"
    "\<And>i. i < n \<Longrightarrow> observe_reply i (target workload ids i) (amounts ! i) (hw_latency w i)
        (client_reply (hw_lost w i) (replies ! i)) = Some (obs ! i)"
    "runs service_step (connections n (hw_db_clock w) d,
      http_load server (hw_requests w) workload ids amounts n) (s, ps)"
proof -
  let ?observe = "\<lambda>replies i. observe_reply i (target workload ids i) (amounts ! i) (hw_latency w i)
      (client_reply (hw_lost w i) (replies ! i))"
  from assms obtain s ps replies where y: "play service_step (hw_schedule w)
      (connections n (hw_db_clock w) d, http_load server (hw_requests w) workload ids amounts n) = Some (s, ps)"
    and s: "sv_store s = d'" and rs: "map (\<lambda>i. server_reply (ps i)) [0..<n] = map Some replies"
    and os: "map (?observe replies) [0..<n] = map Some obs"
    by (auto simp: execute_http_load_def those_eq_Some split: option.splits)
  have len: "length replies = n" "length obs = n"
    using arg_cong [OF rs, of length] arg_cong [OF os, of length] by simp_all
  have "server_reply (ps i) = Some (replies ! i)" "?observe replies i = Some (obs ! i)" if "i < n" for i
    using arg_cong [OF rs, of "\<lambda>xs. xs ! i"] arg_cong [OF os, of "\<lambda>xs. xs ! i"] that len by simp_all
  then show ?thesis
    by (intro that [OF s _ len(2) _ play_runs [OF y runs_refl], of replies]) (simp_all add: server_reply_Some)
qed

text \<open>The bid of request \<open>p\<close>.\<close>

definition bid_of_request :: "(nat \<Rightarrow> uuid) \<Rightarrow> string \<Rightarrow> uuid list \<Rightarrow> cents list \<Rightarrow> nat \<Rightarrow> bid_row \<Rightarrow> bool" where
  "bid_of_request requests workload ids amounts p b \<longleftrightarrow>
     rb_request_id b = requests p \<and> rb_bidder_id b = ''bidder-'' @ py_str_nat p \<and> rb_amount_cents b = amounts ! p \<and>
     rb_auction_id b = ids ! (if workload = ''low_contention'' then p else 0)"

lemma replied_logs:
  assumes "replied server requests workload ids amounts p reply l" "b \<in> set (log_bids l)"
  shows "bid_of_request requests workload ids amounts p b"
proof -
  obtain x where "ends_ok (sent_command requests workload ids amounts p) x l" using assms(1) by (auto simp: replied_def)
  with assms(2) have "carries (sent_command requests workload ids amounts p) b"
    by (cases x) (auto simp: returns_ok_def raises_ok_def outcome_ok_def split: bid_outcome_status.splits)
  then show ?thesis
    using bidder_stripped [of p] by (simp add: carries_def sent_command_def seeded_command_def bid_of_request_def target_def)
qed

lemma http_load_adds_up:
  assumes "usable_server server" "sendable (hw_requests w) amounts n"
    and "strategy_from_name name attempts = Inr (sr_strategy server)" "fresh_auctions ids d"
    and "execute_http_load w server workload ids amounts n d = Some (obs, d')"
  shows "length obs = n"
    and "length (filter (\<lambda>s. s = ''accepted'') (map ob_status obs)) \<le> length (bids d')"
    and "length (bids d') \<le> length (filter (\<lambda>s. s = ''accepted'') (map ob_status obs)) +
      length (filter (\<lambda>s. s = ''system_error'') (map ob_status obs))"
    and "b \<in> set (bids d') \<Longrightarrow> \<exists>p < n. bid_of_request (hw_requests w) workload ids amounts p b"
    and "\<exists>vs. audit ids now u d' = Inr vs \<and> (vs = [] \<longleftrightarrow> (\<forall>a \<in> set ids. history_fair d' a)) \<and>
      (name = ''optimistic'' \<longrightarrow> vs = [])"
proof -
  let ?load = "http_load server (hw_requests w) workload ids amounts n"
  have "db_wf d" "bids d = []" using assms(4) by (simp_all add: fresh_auctions_def)
  note start = connections_start [OF this(1), of n "hw_db_clock w"]
  obtain s ps replies where s: "sv_store s = d'" and ended: "\<And>i. i < n \<Longrightarrow> ps i = Ret (Some (replies ! i))"
    and "length obs = n"
    and obs: "\<And>i. i < n \<Longrightarrow> observe_reply i (target workload ids i) (amounts ! i) (hw_latency w i)
        (client_reply (hw_lost w i) (replies ! i)) = Some (obs ! i)"
    and runs: "runs service_step (connections n (hw_db_clock w) d, ?load) (s, ps)"
    by (rule execute_http_load_runs [OF assms(5)], rule that)
  show "length obs = n" by fact
  note named = named_strategy [OF assms(3)]
  obtain C where C: "bid_strategy (sr_strategy server) C" using code_strategy [OF named(1)] by blast
  have replied: "replied server (hw_requests w) workload ids amounts i (replies ! i) (service_of s i)" if "i < n" for i
    using service.load_triples(1) [OF start(1)
        bid_strategy.http_load_triple [OF C assms(1,2) refl, where workload = workload and ids = ids] runs ended [OF that]]
    by simp
  have log: "(if map ob_status obs ! i = ''accepted'' then 1 else 0) \<le> length (log_bids (service_of s i)) \<and>
      length (log_bids (service_of s i)) \<le> (if map ob_status obs ! i = ''accepted'' then 1 else 0) +
        (if map ob_status obs ! i = ''system_error'' then 1 else 0)" if "i < n" for i
    using observed_request [OF assms(1) replied [OF that], of "hw_latency w i" "hw_lost w i"] obs [OF that]
      that \<open>length obs = n\<close> by simp
  have others: "\<exists>v. ?load p = Ret v" if "n \<le> p" for p using that by (simp add: http_load_def)
  have "length (map ob_status obs) = n" using \<open>length obs = n\<close> by simp
  note bounds = counted_load [where P = "\<lambda>s. s = ''accepted''" and Q = "\<lambda>s. s = ''system_error''",
      OF service_axioms start(1) runs others log this, unfolded start(2) s \<open>bids d = []\<close> list.size add_0]
  show "length (filter (\<lambda>s. s = ''accepted'') (map ob_status obs)) \<le> length (bids d')" by (rule bounds(1))
  show "length (bids d') \<le> length (filter (\<lambda>s. s = ''accepted'') (map ob_status obs)) +
      length (filter (\<lambda>s. s = ''system_error'') (map ob_status obs))" by (rule bounds(2))
  show "\<exists>p < n. bid_of_request (hw_requests w) workload ids amounts p b" if "b \<in> set (bids d')"
    using service.load_logs [OF runs others, of n b] that replied_logs [OF replied] \<open>bids d = []\<close>
    unfolding start(2) s by auto
  have "\<exists>A F. triple (legal_txn within) unbid (?load p) A F" if "name = ''optimistic''" for p
  proof -
    from named(2) [OF that] obtain m where "sr_strategy server = optimistic_place_bid m" by blast
    from optimistic.http_load_triple [OF assms(1,2) this] show ?thesis by blast
  qed
  then show "\<exists>vs. audit ids now u d' = Inr vs \<and> (vs = [] \<longleftrightarrow> (\<forall>a \<in> set ids. history_fair d' a)) \<and>
      (name = ''optimistic'' \<longrightarrow> vs = [])"
    using load_audit [OF service_axioms start(1) _ runs, of ids now u] assms(4) unfolding start(2) s by metis
qed

text \<open>Every load over HTTP can end.\<close>

lemma post_bid_begins:
  assumes "usable_server server" "sendable requests amounts n" "p < n"
    and "strategy_from_name name attempts = Inr (sr_strategy server)"
  shows "\<exists>k. http_load server requests workload ids amounts n p = Exec Begin k \<and>
    k (R_Error PoolTimeout) = Ret (Some (sr_unhandled server))"
proof -
  let ?a = "target workload ids p"
  obtain b where b: "place_bid_body (sr_uuid_of server) (bid_request_json (requests p) p (amounts ! p)) = Inr b"
    "make_bid_command (br_request_id b) ?a (br_bidder_id b) (PyInt (br_amount_cents b)) =
      Inr (seeded_command (requests p) ?a p (amounts ! p))"
    by (rule sent_accepted [OF assms(1-3)])
  obtain k where "sr_strategy server (seeded_command (requests p) ?a p (amounts ! p)) = Exec Begin k"
    "k (R_Error PoolTimeout) = Raise (SqlError PoolTimeout)"
    using strategy_begins [OF assms(4)] by blast
  then show ?thesis
    using assms(3)
    by (simp add: http_load_def post_bid_def b(1) serve_def place_bid_route_def b(2) service_place_bid_def)
qed

lemma http_load_can_end:
  assumes "usable_server server" "sendable (hw_requests w) amounts n"
    and "strategy_from_name name attempts = Inr (sr_strategy server)"
  shows "execute_http_load (w\<lparr>hw_schedule := no_connection n\<rparr>) server workload ids amounts n d \<noteq> None"
proof -
  let ?load = "http_load server (hw_requests w) workload ids amounts n" and ?q = "Ret (Some (sr_unhandled server))"
    and ?w = "w\<lparr>hw_schedule := no_connection n\<rparr>"
  have begins: "p < n \<and> (\<exists>k. ?load p = Exec Begin k \<and> k (R_Error PoolTimeout) = ?q)" if "p \<in> set [0..<n]" for p
    using that post_bid_begins [OF assms(1,2) _ assms(3), of p workload ids] by simp
  have replies: "map (\<lambda>i. server_reply (if i \<in> set [0..<n] then ?q else ?load i)) [0..<n] =
      map Some (replicate n (sr_unhandled server))"
    by (intro nth_equalityI) (simp_all add: server_reply_def)
  obtain code where code: "sr_unhandled server = Reply code None" using assms(1) by (auto simp: usable_server_def)
  have "\<exists>ob. observe_reply i a amount latency (client_reply lost (sr_unhandled server)) = Some ob" for i a amount latency lost
    by (cases lost) (simp_all add: client_reply_def reading_simps code)
  then obtain ob where ob: "\<And>i a amount latency lost.
      observe_reply i a amount latency (client_reply lost (sr_unhandled server)) = Some (ob i a amount latency lost)"
    by metis
  have obs: "map (\<lambda>i. observe_reply i (target workload ids i) (amounts ! i) (hw_latency w i)
        (client_reply (hw_lost w i) (replicate n (sr_unhandled server) ! i))) [0..<n] =
      map Some (map (\<lambda>i. ob i (target workload ids i) (amounts ! i) (hw_latency w i) (hw_lost w i)) [0..<n])"
    by (simp add: ob)
  have "play service_step (no_connection n) (connections n (hw_db_clock w) d, ?load) =
      Some (connections n (hw_db_clock w) d, \<lambda>p. if p \<in> set [0..<n] then ?q else ?load p)"
    unfolding no_connection_def by (rule refused_calls [OF begins distinct_upt])
  moreover have "hw_schedule ?w = no_connection n" "hw_db_clock ?w = hw_db_clock w" "hw_requests ?w = hw_requests w"
    "hw_latency ?w = hw_latency w" "hw_lost ?w = hw_lost w"
    by simp_all
  ultimately show ?thesis
    by (simp only: execute_http_load_def option.case prod.case replies obs
        those_eq_Some [THEN iffD2, OF refl] option.map option.distinct not_False_eq_True)
qed

subsection \<open>Trials over HTTP\<close>

text \<open>A machine and a network on which nothing fails before the load, with identifiers that do not repeat.\<close>

definition usable_http_world :: "int \<Rightarrow> http_world \<Rightarrow> bool" where
  "usable_http_world n w \<longleftrightarrow>
     hw_resetting w = Inr () \<and> 0 < hw_wall_time w \<and> (\<forall>p. hw_requests w p < 2 ^ 128) \<and>
     (\<exists>f. inj_on f {..<4 * nat n} \<and> (\<forall>k < 4 * nat n. f k < 2 ^ 128) \<and>
        hw_seed_choices w = (\<lambda>k. Go (hw_db_clock w) (f k)))"

lemma http_trial_seeds:
  assumes "\<And>seed xs. mset (shuffle seed xs) = mset xs" "workload \<in> set WORKLOADS" "0 < n" "n < 2 ^ 40"
    and "10000 + 100 * n \<le> MAX_MONEY_CENTS" "usable_server server" "usable_http_world n w" "0 < concurrency"
  obtains ids d1 l where
    "run (http_seed
        (post_auction (sr_time_of server) (sr_isoformat server) (sr_errors server) (sr_unhandled server))
        (sr_isoformat server) (hw_clock w) workload n (shuffle random_seed))
        (hw_seed_choices w) 0 (reset_experiment_data d) (idle (hw_db_clock w)) =
      (Some (Inr (ids, seed_amounts workload n (shuffle random_seed))), d1, l)"
    and "length ids = (if workload = ''low_contention'' then nat n else 1)" "distinct ids"
    and "\<forall>i < length ids. \<exists>r. auctions d1 (ids ! i) = Some r \<and> seeded_row (hw_clock w i) r"
    and "fresh_auctions ids d1" "sendable (hw_requests w) (seed_amounts workload n (shuffle random_seed)) (nat n)"
    and "\<And>schedule. run_http_trial (w\<lparr>hw_schedule := schedule\<rparr>) server shuffle label workload concurrency n
          repetition random_seed d =
      map_option (\<lambda>(observations, d2).
          (py_bind (audit ids (hw_audit_clock w) (hw_audit_uuid w) d2) (\<lambda>violations.
            summarize label workload concurrency repetition (hw_wall_time w) observations violations), d2))
        (execute_http_load (w\<lparr>hw_schedule := schedule\<rparr>) server workload ids
          (seed_amounts workload n (shuffle random_seed)) (nat n) d1)"
proof -
  let ?amounts = "seed_amounts workload n (shuffle random_seed)"
  obtain f where w: "hw_resetting w = Inr ()" "inj_on f {..<4 * nat n}" "\<forall>k < 4 * nat n. f k < 2 ^ 128"
    "hw_seed_choices w = (\<lambda>k. Go (hw_db_clock w) (f k))" "\<forall>p. hw_requests w p < 2 ^ 128"
    using assms(7) by (auto simp: usable_http_world_def)
  have t: "sr_time_of server (JText (sr_isoformat server t)) = Some (Aware t)" for t
    using assms(6) by (simp add: usable_server_def)
  have "n \<le> 10 ^ 20" using assms(4) by simp
  from http_seeded_workload [where f = f and time_of = "sr_time_of server" and shuffle = "shuffle random_seed" and
      isoformat = "sr_isoformat server" and errors = "sr_errors server" and unhandled = "sr_unhandled server" and
      clock = "hw_clock w" and now = "hw_db_clock w" and d = d, OF assms(2,3) this w(2,3) t]
  obtain ids d1 l where run: "run (http_seed
        (post_auction (sr_time_of server) (sr_isoformat server) (sr_errors server) (sr_unhandled server))
        (sr_isoformat server) (hw_clock w) workload n (shuffle random_seed))
        (hw_seed_choices w) 0 (reset_experiment_data d) (idle (hw_db_clock w)) = (Some (Inr (ids, ?amounts)), d1, l)"
    and ids: "distinct ids" "length ids = (if workload = ''low_contention'' then nat n else 1)"
      "\<forall>i < length ids. \<exists>r. auctions d1 (ids ! i) = Some r \<and> seeded_row (hw_clock w i) r"
    and fresh: "fresh_auctions ids d1"
    unfolding w(4) fresh_auctions_def by blast
  note money = amounts_money [where shuffle = "shuffle random_seed", OF assms(1,5)]
    seed_amounts(2) [where shuffle = "shuffle random_seed", OF assms(1), of workload n]
  have "nat n < 10 ^ 90" using assms(4) by simp
  then have sendable: "sendable (hw_requests w) ?amounts (nat n)"
    using bspec [OF money(1) nth_mem] money(2) w(5) by (simp add: sendable_def)
  have "run_http_trial (w\<lparr>hw_schedule := schedule\<rparr>) server shuffle label workload concurrency n
          repetition random_seed d =
      map_option (\<lambda>(observations, d2).
          (py_bind (audit ids (hw_audit_clock w) (hw_audit_uuid w) d2) (\<lambda>violations.
            summarize label workload concurrency repetition (hw_wall_time w) observations violations), d2))
        (execute_http_load (w\<lparr>hw_schedule := schedule\<rparr>) server workload ids ?amounts (nat n) d1)" for schedule
    using assms(8) run unfolding run_http_trial_def
    by (cases "execute_http_load (w\<lparr>hw_schedule := schedule\<rparr>) server workload ids ?amounts (nat n) d1")
      (auto simp: w(1))
  then show ?thesis by (rule that [OF run ids(2,1,3) fresh sendable])
qed

text \<open>The summary of a load over HTTP that has ended.\<close>

lemma http_summary:
  assumes "usable_server server" "sendable (hw_requests w) amounts n" "0 < n" "int n < 2 ^ 40"
    and "strategy_from_name name attempts = Inr (sr_strategy server)" "fresh_auctions ids d" "0 < hw_wall_time w"
    and "execute_http_load w server workload ids amounts n d = Some (obs, d')"
  shows "\<exists>tr. py_bind (audit ids now u d') (\<lambda>violations.
      summarize label workload concurrency repetition (hw_wall_time w) obs violations) = Inr tr \<and>
    sums_up label workload concurrency repetition ids n d' tr \<and>
    (\<forall>b \<in> set (bids d'). \<exists>p < n. bid_of_request (hw_requests w) workload ids amounts p b) \<and>
    (name = ''optimistic'' \<longrightarrow> tr_invariant_valid tr)"
proof -
  note load = http_load_adds_up [OF assms(1,2,5,6,8)]
  obtain vs where vs: "audit ids now u d' = Inr vs" "vs = [] \<longleftrightarrow> (\<forall>a \<in> set ids. history_fair d' a)"
    "name = ''optimistic'' \<longrightarrow> vs = []"
    using load(5) by blast
  have "obs \<noteq> []" "int (length obs) < 2 ^ 40" using load(1) assms(3,4) by auto
  from summarize_returns [OF this assms(7), of label workload concurrency repetition vs]
  obtain tr where tr: "summarize label workload concurrency repetition (hw_wall_time w) obs vs = Inr tr"
    "tr_outcome_counts tr = sorted_counts (map ob_status obs)" "tr_request_count tr = length obs"
    "tr_invariant_valid tr \<longleftrightarrow> vs = []"
    by blast
  have labels: "tr_strategy tr = label \<and> tr_workload tr = workload \<and> tr_concurrency tr = concurrency \<and>
      tr_repetition tr = repetition"
    using tr(1) by (auto simp: summarize_def)
  have "sum_list (map snd (tr_outcome_counts tr)) = n"
    by (simp only: tr(2) sorted_counts_total length_map load(1))
  then show ?thesis
    using vs tr(1,3,4) labels load(1-4) by (simp add: sums_up_def outcome_count_sorted [OF tr(2)])
qed

lemma http_trial_returns:
  assumes "\<And>seed xs. mset (shuffle seed xs) = mset xs" "workload \<in> set WORKLOADS" "0 < n" "n < 2 ^ 40"
    and "10000 + 100 * n \<le> MAX_MONEY_CENTS" "usable_server server" "usable_http_world n w" "0 < concurrency"
    and "strategy_from_name name attempts = Inr (sr_strategy server)"
  obtains ids d1 l where
    "run (http_seed
        (post_auction (sr_time_of server) (sr_isoformat server) (sr_errors server) (sr_unhandled server))
        (sr_isoformat server) (hw_clock w) workload n (shuffle random_seed))
        (hw_seed_choices w) 0 (reset_experiment_data d) (idle (hw_db_clock w)) =
      (Some (Inr (ids, seed_amounts workload n (shuffle random_seed))), d1, l)"
    and "length ids = (if workload = ''low_contention'' then nat n else 1)" "distinct ids"
    and "\<forall>i < length ids. \<exists>r. auctions d1 (ids ! i) = Some r \<and> seeded_row (hw_clock w i) r"
    and "fresh_auctions ids d1"
    and "run_http_trial (w\<lparr>hw_schedule := no_connection (nat n)\<rparr>) server shuffle label workload concurrency n
      repetition random_seed d \<noteq> None"
    and "\<And>result d'. run_http_trial w server shuffle label workload concurrency n repetition random_seed d =
        Some (result, d') \<Longrightarrow>
      \<exists>tr. result = Inr tr \<and> sums_up label workload concurrency repetition ids (nat n) d' tr \<and>
        (\<forall>b \<in> set (bids d'). \<exists>p < nat n. bid_of_request (hw_requests w) workload ids
           (seed_amounts workload n (shuffle random_seed)) p b) \<and>
        (name = ''optimistic'' \<longrightarrow> tr_invariant_valid tr)"
proof -
  let ?amounts = "seed_amounts workload n (shuffle random_seed)"
  obtain ids d1 l where seed:
    "run (http_seed
        (post_auction (sr_time_of server) (sr_isoformat server) (sr_errors server) (sr_unhandled server))
        (sr_isoformat server) (hw_clock w) workload n (shuffle random_seed))
        (hw_seed_choices w) 0 (reset_experiment_data d) (idle (hw_db_clock w)) = (Some (Inr (ids, ?amounts)), d1, l)"
    "length ids = (if workload = ''low_contention'' then nat n else 1)" "distinct ids"
    "\<forall>i < length ids. \<exists>r. auctions d1 (ids ! i) = Some r \<and> seeded_row (hw_clock w i) r"
    and fresh: "fresh_auctions ids d1" and sendable: "sendable (hw_requests w) ?amounts (nat n)"
    and trial: "\<And>schedule. run_http_trial (w\<lparr>hw_schedule := schedule\<rparr>) server shuffle label workload concurrency n
          repetition random_seed d =
      map_option (\<lambda>(observations, d2).
          (py_bind (audit ids (hw_audit_clock w) (hw_audit_uuid w) d2) (\<lambda>violations.
            summarize label workload concurrency repetition (hw_wall_time w) observations violations), d2))
        (execute_http_load (w\<lparr>hw_schedule := schedule\<rparr>) server workload ids ?amounts (nat n) d1)"
    by (rule http_trial_seeds [where shuffle = shuffle and d = d and random_seed = random_seed and
          repetition = repetition and label = label, OF assms(1-8)]) (rule that)
  have n: "0 < nat n" "int (nat n) < 2 ^ 40" and wall: "0 < hw_wall_time w"
    using assms(3,4,7) by (simp_all add: usable_http_world_def)
  have "run_http_trial (w\<lparr>hw_schedule := no_connection (nat n)\<rparr>) server shuffle label workload concurrency n
      repetition random_seed d \<noteq> None"
    using http_load_can_end [OF assms(6) sendable assms(9)] by (simp add: trial del: not_None_eq)
  moreover have "\<exists>tr. result = Inr tr \<and> sums_up label workload concurrency repetition ids (nat n) d' tr \<and>
        (\<forall>b \<in> set (bids d'). \<exists>p < nat n. bid_of_request (hw_requests w) workload ids
           (seed_amounts workload n (shuffle random_seed)) p b) \<and>
        (name = ''optimistic'' \<longrightarrow> tr_invariant_valid tr)"
    if "run_http_trial w server shuffle label workload concurrency n repetition random_seed d = Some (result, d')"
    for result d'
  proof -
    have "run_http_trial w server shuffle label workload concurrency n repetition random_seed d =
      map_option (\<lambda>(observations, d2).
          (py_bind (audit ids (hw_audit_clock w) (hw_audit_uuid w) d2) (\<lambda>violations.
            summarize label workload concurrency repetition (hw_wall_time w) observations violations), d2))
        (execute_http_load w server workload ids ?amounts (nat n) d1)"
      using trial [of "hw_schedule w"] by simp
    with that obtain obs where load: "execute_http_load w server workload ids ?amounts (nat n) d1 = Some (obs, d')"
      "result = py_bind (audit ids (hw_audit_clock w) (hw_audit_uuid w) d') (\<lambda>violations.
        summarize label workload concurrency repetition (hw_wall_time w) obs violations)"
      by auto
    show ?thesis
      unfolding load(2) by (rule http_summary [OF assms(6) sendable n assms(9) fresh wall load(1)])
  qed
  ultimately show ?thesis by (rule that [OF seed fresh])
qed


definition small_server :: server where
  "small_server =
     \<lparr>sr_time_of = of_unary_time, sr_uuid_of = as_uuid, sr_isoformat = unary_time, sr_errors = (\<lambda>e. []),
      sr_unhandled = Reply 500 None, sr_strategy = optimistic_place_bid 5\<rparr>"

definition small_http_world :: http_world where
  "small_http_world =
     \<lparr>hw_resetting = Inr (), hw_clock = (\<lambda>i. 50), hw_db_clock = 60, hw_seed_choices = (\<lambda>k. Go 60 k),
      hw_requests = (\<lambda>p. 7), hw_schedule = [], hw_lost = (\<lambda>p. if p = 1 then Some ''ReadTimeout'' else None),
      hw_latency = (\<lambda>i. 30 + int i), hw_wall_time = 500, hw_audit_clock = 99, hw_audit_uuid = 9\<rparr>"

lemma small_server_usable: "usable_server small_server"
  by (simp add: usable_server_def small_server_def of_unary_time_def unary_time_def as_uuid_def uuid_json_def
      py_uuid_str)

lemma small_http_world_usable:
  "n < 2 ^ 40 \<Longrightarrow> usable_http_world n (small_http_world\<lparr>hw_schedule := schedule\<rparr>)"
  by (auto simp: usable_http_world_def small_http_world_def intro!: exI [of _ "\<lambda>k. k"])


end
