(* ===== verification/Http_Main_Properties.thy ===== *)
theory Http_Main_Properties
  imports Http_Runner_Properties
begin

section \<open>What the benchmark over HTTP publishes\<close>

subsection \<open>The plan\<close>

definition http_specs :: "http_arguments \<Rightarrow> (string \<times> int) list \<Rightarrow> trial_spec list" where
  "http_specs a trials =
     map (\<lambda>(workload, repetition). (ha_strategy_label a, workload, ha_concurrency a, nat repetition)) trials"

lemma http_planned:
  assumes "http_main a env health = Http_Planned s trials"
  shows "running_strategy health = Inr (JText (ha_strategy_label a))"
    and "set (parse_csv (ha_workloads a)) \<subseteq> set WORKLOADS" "0 < ha_concurrency a" "3 \<le> ha_repetitions a"
    and "trials = concat (map (\<lambda>workload.
      map (\<lambda>repetition. (workload, int repetition)) [1..<Suc (nat (ha_repetitions a))]) (parse_csv (ha_workloads a)))"
  using assms by (auto simp: http_main_def Let_def split: if_splits sum.splits)

lemma http_specs_planned:
  assumes "http_main a env health = Http_Planned s trials" "distinct (parse_csv (ha_workloads a))"
  shows "set (http_specs a trials) =
      {ha_strategy_label a} \<times> set (parse_csv (ha_workloads a)) \<times> {ha_concurrency a} \<times> {1..nat (ha_repetitions a)}"
    and "distinct (http_specs a trials)"
proof -
  let ?n = "nat (ha_repetitions a)" and ?W = "parse_csv (ha_workloads a)"
  have eq: "http_specs a trials =
      build_trial_schedule [ha_strategy_label a] ?W [ha_concurrency a] ?n (\<lambda>xs. xs) False"
    by (simp add: http_specs_def http_planned(5) [OF assms(1)] build_trial_schedule_def map_concat comp_def
        del: upt_Suc)
  show "set (http_specs a trials) =
      {ha_strategy_label a} \<times> set ?W \<times> {ha_concurrency a} \<times> {1..?n}"
    unfolding eq full_schedule(1) by simp
  show "distinct (http_specs a trials)"
    unfolding eq by (rule full_schedule_distinct) (simp_all add: assms(2))
qed

subsection \<open>The loops\<close>

lemma http_trials_run:
  assumes "\<And>seed xs. mset (shuffle seed xs) = mset xs" "requests_ok (ha_requests a)" "0 < ha_concurrency a"
    and "usable_server server" "\<And>k. usable_http_world (ha_requests a) (worlds k)"
    and "strategy_from_name (ha_strategy_label a) attempts = Inr (sr_strategy server)"
    and "\<forall>trial \<in> set trials. fst trial \<in> set WORKLOADS \<and> 0 \<le> snd trial"
    and "run_http_trials worlds server shuffle a k trials d = Some (logged, how, d')"
  shows "how = Inr () \<and> list_all2 records (http_specs a trials) logged"
  using assms(7,8)
proof (induction trials arbitrary: k d logged)
  case (Cons trial trials)
  obtain workload repetition where t: "trial = (workload, repetition)" by (cases trial)
  have ok: "workload \<in> set WORKLOADS" "0 \<le> repetition" "\<forall>trial \<in> set trials. fst trial \<in> set WORKLOADS \<and> 0 \<le> snd trial"
    using Cons.prems(1) by (simp_all add: t)
  let ?run = "run_http_trial (worlds k) server shuffle (ha_strategy_label a) workload (ha_concurrency a)
    (ha_requests a) repetition (ha_random_seed a + repetition) d"
  have n: "0 < ha_requests a" "ha_requests a < 2 ^ 40" "10000 + 100 * ha_requests a \<le> MAX_MONEY_CENTS"
    using assms(2) by (simp_all add: requests_ok_def)
  obtain result d1 where r: "?run = Some (result, d1)"
    using Cons.prems(2) by (auto simp: t split: option.splits)
  have "\<exists>tr. result = Inr tr \<and> records (ha_strategy_label a, workload, ha_concurrency a, nat repetition) tr"
    by (rule http_trial_returns [where shuffle = shuffle and d = d and random_seed = "ha_random_seed a + repetition" and
          repetition = repetition and label = "ha_strategy_label a",
          OF assms(1) ok(1) n assms(4,5) assms(3,6)])
      (use r ok(2) in \<open>fastforce simp: sums_up_def records_def group_key_def\<close>)
  then obtain tr where tr: "result = Inr tr" "records (ha_strategy_label a, workload, ha_concurrency a, nat repetition) tr"
    by blast
  obtain more where more: "run_http_trials worlds server shuffle a (Suc k) trials d1 = Some (more, how, d')"
    "logged = tr # more"
    using Cons.prems(2) r tr(1) by (auto simp: t)
  with Cons.IH [OF ok(3) more(1)] tr(2) show ?case by (simp add: http_specs_def t)
qed (simp add: http_specs_def)

lemma http_trials_can_end:
  assumes "\<And>seed xs. mset (shuffle seed xs) = mset xs" "requests_ok (ha_requests a)" "0 < ha_concurrency a"
    and "usable_server server" "\<And>k. usable_http_world (ha_requests a) (worlds k)"
    and "strategy_from_name (ha_strategy_label a) attempts = Inr (sr_strategy server)"
    and "\<forall>trial \<in> set trials. fst trial \<in> set WORKLOADS"
  shows "run_http_trials (\<lambda>k. (worlds k)\<lparr>hw_schedule := no_connection (nat (ha_requests a))\<rparr>) server shuffle a k trials d
    \<noteq> None"
  using assms(7)
proof (induction trials arbitrary: k d)
  case (Cons trial trials)
  obtain workload repetition where t: "trial = (workload, repetition)" by (cases trial)
  have ok: "workload \<in> set WORKLOADS" "\<forall>trial \<in> set trials. fst trial \<in> set WORKLOADS"
    using Cons.prems by (simp_all add: t)
  let ?w = "(worlds k)\<lparr>hw_schedule := no_connection (nat (ha_requests a))\<rparr>"
  have n: "0 < ha_requests a" "ha_requests a < 2 ^ 40" "10000 + 100 * ha_requests a \<le> MAX_MONEY_CENTS"
    using assms(2) by (simp_all add: requests_ok_def)
  have usable: "usable_http_world (ha_requests a) ?w" using assms(5) [of k] by (simp add: usable_http_world_def)
  have "\<exists>tr d1. run_http_trial ?w server shuffle (ha_strategy_label a) workload (ha_concurrency a)
      (ha_requests a) repetition (ha_random_seed a + repetition) d = Some (Inr tr, d1)"
    by (rule http_trial_returns [where shuffle = shuffle and d = d and random_seed = "ha_random_seed a + repetition" and
          repetition = repetition and label = "ha_strategy_label a", OF assms(1) ok(1) n assms(4) usable assms(3,6)])
      fastforce
  then obtain tr d1 where "run_http_trial ?w server shuffle (ha_strategy_label a) workload (ha_concurrency a)
      (ha_requests a) repetition (ha_random_seed a + repetition) d = Some (Inr tr, d1)"
    by blast
  with Cons.IH [OF ok(2)] show ?case by (simp add: t del: not_None_eq)
qed simp

text \<open>A session in which nothing fails but what may fail in the loads.\<close>

definition smooth_http_world :: "int \<Rightarrow> http_run_world \<Rightarrow> bool" where
  "smooth_http_world n w \<longleftrightarrow>
     rw_opening w = Inr () \<and> rw_writing w = Inr () \<and> (\<forall>k. usable_http_world n (rw_trials w k)) \<and>
     (\<exists>versions. rw_migrating w = Inr versions) \<and> (\<exists>row. rw_postgres w = Inr (Some row))"

lemma smooth_http_session:
  assumes "smooth_http_world n w"
  shows "http_session a trials w server shuffle d \<noteq> None \<longleftrightarrow>
      run_http_trials (rw_trials w) server shuffle a 0 trials d \<noteq> None"
    and "http_session a trials w server shuffle d = Some (effects, how, d') \<Longrightarrow>
      \<exists>logged how'. run_http_trials (rw_trials w) server shuffle a 0 trials d = Some (logged, how', d') \<and>
        (how' = Inr () \<longrightarrow> how = Inr () \<and>
          (\<exists>versions path doc. effects = Opened # Migrated versions # map (\<lambda>tr. Printed (http_trial_line tr)) logged @
              [Written path doc, Printed (''Raw benchmark written to '' @ path), Closed] \<and>
            hd_configuration doc = http_configuration_of a \<and> hd_trials doc = logged))"
proof -
  obtain versions row where w: "rw_opening w = Inr ()" "rw_writing w = Inr ()"
    "rw_migrating w = Inr versions" "rw_postgres w = Inr (Some row)"
    using assms by (auto simp: smooth_http_world_def)
  obtain environment where e: "environment_metadata (rw_machine w) (rw_postgres w) (ha_random_seed a) = Inr environment"
    by (simp add: environment_metadata_def postgres_metadata_def w(4))
  note session = http_session_def http_body_def w(1-3) e
  show "http_session a trials w server shuffle d \<noteq> None \<longleftrightarrow>
      run_http_trials (rw_trials w) server shuffle a 0 trials d \<noteq> None"
    by (simp add: session)
  assume ended: "http_session a trials w server shuffle d = Some (effects, how, d')"
  then have "run_http_trials (rw_trials w) server shuffle a 0 trials d \<noteq> None" by (auto simp: session)
  then obtain logged how' d1 where run':
    "run_http_trials (rw_trials w) server shuffle a 0 trials d = Some (logged, how', d1)"
    by auto
  have "d1 = d'" using ended by (cases how') (auto simp: session run' Let_def)
  note run = run' [unfolded this]
  show "\<exists>logged how'. run_http_trials (rw_trials w) server shuffle a 0 trials d = Some (logged, how', d') \<and>
        (how' = Inr () \<longrightarrow> how = Inr () \<and>
          (\<exists>versions path doc. effects = Opened # Migrated versions # map (\<lambda>tr. Printed (http_trial_line tr)) logged @
              [Written path doc, Printed (''Raw benchmark written to '' @ path), Closed] \<and>
            hd_configuration doc = http_configuration_of a \<and> hd_trials doc = logged))"
    by (intro exI [of _ logged] exI [of _ how'] conjI run impI)
      (use ended in \<open>auto simp: session run Let_def\<close>)
qed


definition small_http_arguments :: http_arguments where
  "small_http_arguments =
     \<lparr>ha_database_url = None, ha_strategy_label = ''optimistic'', ha_workloads = ''same_price'', ha_concurrency = 4,
      ha_requests = 3, ha_repetitions = 3, ha_base_url = ''http://api:8000'', ha_random_seed = 7,
      ha_output = None\<rparr>"

definition small_run_world :: http_run_world where
  "small_run_world =
     \<lparr>rw_opening = Inr (), rw_migrating = Inr [], rw_trials = (\<lambda>k. small_http_world),
      rw_machine = cw_machine smoke_world, rw_postgres = cw_postgres smoke_world,
      rw_timestamp = ''20260922T000000Z'', rw_writing = Inr ()\<rparr>"

definition optimistic_settings :: settings where
  "optimistic_settings = default_settings\<lparr>st_bid_strategy := ''optimistic''\<rparr>"

definition healthy :: reply where
  "healthy = Reply 200 (Some (response_json unary_time (Health_Response ''optimistic'')))"

lemma small_http_planned:
  "parse_csv (ha_workloads small_http_arguments) = [''same_price'']"
  "\<exists>s trials. http_main small_http_arguments Map.empty healthy = Http_Planned s trials"
proof -
  show w: "parse_csv (ha_workloads small_http_arguments) = [''same_price'']" by code_simp
  have l: "ha_strategy_label small_http_arguments = ''optimistic''" "ha_concurrency small_http_arguments = 4"
    "ha_requests small_http_arguments = 3" "ha_repetitions small_http_arguments = 3"
    "ha_database_url small_http_arguments = None"
    by (simp_all add: small_http_arguments_def)
  have "settings_ok default_settings" using default_environment by (simp add: settings_from_env_eq_Inr)
  then have "\<exists>s. http_settings None 4 default_settings = Inr s"
    by (auto simp: http_settings_def settings_ok_def make_settings_eq_Inr VALID_STRATEGIES_def)
  moreover have "running_strategy healthy = Inr (JText ''optimistic'')"
    by (simp add: healthy_def running_strategy_def json_get_def field_def)
  ultimately show "\<exists>s trials. http_main small_http_arguments Map.empty healthy = Http_Planned s trials"
    unfolding http_main_def w l Let_def default_environment
    by (auto simp: VALID_STRATEGIES_def WORKLOADS_def unknown_names_def)
qed

lemma small_run_world_smooth: "smooth_http_world 3 small_run_world"
  using small_http_world_usable [of 3 "[]"]
  by (simp add: smooth_http_world_def small_run_world_def smoke_world_def usable_http_world_def small_http_world_def)


end
