(* ===== verification/Spec2Isabelle.thy ===== *)
theory Spec2Isabelle
  imports Server_Properties Http_Main_Properties
begin

text \<open>
  A model of the transaction-safe bidding platform (the Python package
  \<^verbatim>\<open>src/src/bidding\<close>) and the theorems that make it correct.

  \<^bold>\<open>The program.\<close> Clients create auctions and bid on them over HTTP; other clients watch an
  auction over a WebSocket. A bid goes from \<^verbatim>\<open>api/routes.py\<close> through \<^verbatim>\<open>application/service.py\<close>
  to one of three strategies in \<^verbatim>\<open>db/strategies.py\<close>, each a sequence of SQL statements in a
  PostgreSQL transaction under READ COMMITTED: \<open>unsafe\<close> overwrites what it has read,
  \<open>pessimistic\<close> locks the auction's row first, \<open>optimistic\<close> updates under a version predicate
  and retries a bounded number of times. The rules of an auction are pure functions in
  \<^verbatim>\<open>domain\<close>; the schema \<^verbatim>\<open>db/sql/001_initial_schema.sql\<close> repeats part of them as
  constraints; \<^verbatim>\<open>verification/invariants.py\<close> audits a stored history. After a commit the
  handler of the bid tells the watchers. Configuration comes from the environment, and the
  schema is installed by \<^verbatim>\<open>db/migrations.py\<close> when the application starts.

  \<^bold>\<open>The theories\<close>, in the order of their imports.

  \<^item> \<open>Bid_Prelude\<close>: scalar types, Python's exceptions as values (\<open>'a py\<close> is an exception or a
    result), \<open>str.strip\<close>, lemmas on lists.
  \<^item> \<open>Domain_Models\<close>, \<open>Domain_Rules\<close>: the dataclasses of \<^verbatim>\<open>domain/models.py\<close> as records with
    their validating constructors, and the four functions of \<^verbatim>\<open>domain/rules.py\<close>.
  \<^item> \<open>Schema\<close>: the rows of the two tables, every constraint, the mappers of \<^verbatim>\<open>db/mappers.py\<close>.
  \<^item> \<open>Db_Programs\<close>: a method that talks to the database is a tree of the statements it
    executes, each with the continuation for every reply; \<open>in_transaction\<close> is the pair of
    \<open>with\<close> blocks around a body. \<open>Read_Committed\<close>: what each statement does. \<open>exec1\<close> is one
    statement of one call, \<open>run\<close> a call on its own.
  \<^item> \<open>Repository\<close>, \<open>Strategies\<close>, \<open>Invariants\<close>, \<open>Service\<close>: \<^verbatim>\<open>db/repositories.py\<close>, the strategies with
    their helpers and exception handlers statement by statement, the checker, the service.
  \<^item> \<open>Program_Logic\<close>, \<open>Weakest_Precondition\<close>, \<open>Strategy_Logic\<close>, \<open>Call_Logic\<close>: what a call relies on
    between two of its statements (\<open>good\<close>), weakest preconditions of trees that are stable
    under the statements of others, and a triple for every method. The locale \<open>bid_strategy\<close>
    of \<open>Service\<close> is the interface \<open>BidStrategy\<close>; the three strategies interpret it.
  \<^item> \<open>Ledger\<close>: the history of an auction and when it is legal. \<open>Interleaving\<close>: executions of many
    calls. The locale \<open>read_committed_service\<close> states what is assumed of PostgreSQL;
    \<open>service_step\<close>, an executable service, is shown to satisfy it.
  \<^item> \<open>Program_Results\<close>: what a method can return or raise, whatever the database replies.
    \<open>Sequential\<close>: what a call does when it runs alone. \<open>Scenarios\<close>: concrete schedules.
  \<^item> \<open>Guarantees\<close>, \<open>Behaviour\<close>, \<open>Data_Properties\<close>: the properties of the strategies under
    concurrency, of single calls, and of the data.
  \<^item> \<open>Api\<close>, \<open>Api_Properties\<close>: \<^verbatim>\<open>api/schemas.py\<close> and the handlers of \<^verbatim>\<open>api/routes.py\<close>. \<open>Wire\<close>,
    \<open>Wire_Properties\<close>: the same schemas over JSON, identifiers as texts.
    \<open>Websockets\<close>, \<open>Server\<close>, \<open>Websocket_Properties\<close>: the connection manager of \<^verbatim>\<open>api/websockets.py\<close>,
    the handler of a watcher, and \<open>served\<close>, the interleaving of the statements of all requests
    and the turns of the event loop. The locale \<open>socket_registry\<close> is the contract of the manager.
  \<^item> \<open>Py_Numbers\<close>, \<open>Config\<close>, \<open>Migrations\<close>, \<open>App\<close>, \<open>Deployment_Properties\<close>: Python's \<open>int\<close> and \<open>float\<close>
    on texts, \<^verbatim>\<open>config.py\<close> and \<^verbatim>\<open>db/pool.py\<close>, \<^verbatim>\<open>db/migrations.py\<close>, the lifespan of \<^verbatim>\<open>api/app.py\<close>.
    \<open>Server_Properties\<close>: settings, strategy, handlers, watchers and database in one statement.
  \<^item> \<open>Measures\<close>, \<open>Benchmark\<close>, \<open>Seeding\<close>, \<open>Benchmark_Properties\<close>: the arithmetic of doubles, percentiles and
    summaries of \<^verbatim>\<open>benchmark/models.py\<close>, seeding, observations and the audit of
    \<^verbatim>\<open>benchmark/runner.py\<close>. \<open>Runner\<close>, \<open>Trials\<close>, \<open>Runner_Properties\<close>: its \<open>run_trial\<close> from the database it finds to
    the summary, with the load as an execution on one connection per command.
  \<^item> \<open>Report\<close>, \<open>Report_Properties\<close>: \<^verbatim>\<open>benchmark/report.py\<close> with the statistics and the format specifications
    of Python. \<open>Benchmark_Cli\<close>, \<open>Cli_Properties\<close>: what the two command lines make of their arguments.
    \<open>Benchmark_Main\<close>, \<open>Main_Properties\<close>: \<open>main\<close> of \<^verbatim>\<open>benchmark/cli.py\<close> from its plan to its document, as \<open>cli_session\<close>.
  \<^item> \<open>Http_Benchmark\<close>, \<open>Http_Properties\<close>: the client of \<^verbatim>\<open>benchmark/http_cli.py\<close> against the handlers of the
    API. \<open>Http_Runner\<close>, \<open>Http_Runner_Properties\<close>, \<open>Http_Main_Properties\<close>: its \<open>run_http_trial\<close>, with the handlers of
    all requests interleaved, and its \<open>main\<close>, as \<open>http_session\<close>.

  \<^bold>\<open>How the model stands for the code.\<close> A Python exception is a value \<open>Inl e\<close>, or \<open>Raise e\<close> in
  a tree. Arguments whose dynamic type the code tests are the datatypes \<open>py_value\<close> and
  \<open>py_datetime\<close>. Times are microseconds, UUIDs numbers; amounts are integers, and
  \<open>bigint_ok\<close> is PostgreSQL's range where a statement stores or adds them. Strings are lists
  of code points up to 255. The database is a map of auctions and a list of bids in the order
  of their commits. An execution chooses at every statement the connection, the clock
  reading, the value of a \<open>uuid4()\<close>, or a fault the statement can have: a time-out of the
  statement or of a lock, a deadlock victim, a broken connection, a COMMIT whose
  confirmation is lost. A clock reading is never before an earlier one of the same call.

  \<^bold>\<open>What is assumed.\<close> Of PostgreSQL, the documented meaning of the statements (\<open>run_stmt\<close>,
  \<open>exec1\<close>) and the four laws of \<open>read_committed_service\<close>: a statement has this effect on its own
  call, touches no other call's transaction, publishes a transaction only by committing it,
  and waits while it would lock or insert what another open transaction has locked or
  inserted. Of the SQL engine of a migration and of SHA-256, nothing: they are arguments. Of
  sockets nothing: every send may fail at any time. Of pydantic, how it reads and writes UUIDs and
  datetimes, which are arguments; of FastAPI, that the reply to an unhandled exception is not JSON. The statements of an auction's history
  start from stored data that satisfy the schema, with legal histories and stripped titles,
  and these conditions are shown to be kept.

  \<^bold>\<open>What the groups of properties show.\<close> \<open>Guarantees\<close>: under every interleaving and every fault,
  optimistic histories pass the checker, pessimistic ones can only fail it by a late
  \<open>accepted_at\<close>, the highest bid wins, an answer tells the truth about what was committed, a
  request is accepted once, locks exclude, and nothing stored is lost; and concrete races in
  which the unsafe strategy loses updates. \<open>Behaviour\<close>: on its own a call of any strategy
  computes the specification \<open>place_bid_spec\<close> on every branch, repeats are replayed, the
  retry loop is bounded and its last statement is never reached, what is created is found,
  and the checker decides legality. \<open>Data_Properties\<close>: constructors, rules, mappers and the
  agreement of the guarded UPDATE with \<open>evaluate_bid\<close>. \<open>Api_Properties\<close>: an event is announced
  exactly when a bid was committed, and every outcome and every busy database is answered.
  \<open>Wire_Properties\<close>: which JSON bodies are accepted, and an auction over JSON, there and back.
  \<open>Websocket_Properties\<close>: no phantom events, a registry without leaks, broadcasts that end,
  and what a watcher can miss. \<open>Deployment_Properties\<close>: the application starts with a usable
  strategy, settings survive the environment, and migrations run once, in order, or not at all.
  \<open>Server_Properties\<close> puts these together: whatever interleaves with whatever fails, the platform
  keeps the promise of the strategy its settings name.
  \<open>Benchmark_Properties\<close>, \<open>Trials\<close>, \<open>Runner_Properties\<close>, \<open>Http_Runner_Properties\<close>: a seeded workload is what its
  name says, the percentiles are exact ranks whatever their arithmetic rounds, and a trial of either kind
  is sound: its counts of outcomes add up with the stored bids, and its verdict tells the truth about
  the histories the load left. \<open>Http_Properties\<close>: the benchmark over HTTP seeds, sends and
  observes what the benchmark of the repository does, but for the differences it states.
  \<open>Cli_Properties\<close>, \<open>Report_Properties\<close>: a plan covers what was asked for, and a report every trial.
  \<open>Main_Properties\<close>, \<open>Http_Main_Properties\<close> join all of this, from the arguments to the table that is
  published: a row for every combination, under the right name, with the verdicts of all its repetitions.

  \<^bold>\<open>Bounds.\<close> There is no fuel: the only loop of the strategies is a recursion on the attempts
  that are left (\<open>optimistic_loop\<close>), a broadcast ends after two turns for each socket and one
  more, and everything else is structural. Schedules of concrete executions are finite lists.
  \<open>MAX_STR_DIGITS\<close> is the limit of Python's \<open>int\<close>. The benchmark is followed for fewer than \<open>2 ^ 40\<close> requests
  a trial, where the percentiles are exact, and for as many as have different prices in the range of money
  (\<open>requests_ok\<close>). A load is \<open>None\<close> while its schedule leaves a call under way; that a schedule ends it is
  proved, in the execution where every call fails to get a connection.

  \<^bold>\<open>What is not modelled.\<close> The two indexes of the schema, the text of JSON, the FastAPI object
  with its routing, connection pooling beyond its configuration, \<open>argparse\<close>, and the file system and
  subprocesses beyond how they end. That a pool of threads starts at most so many calls at a time is not used: it
  only excludes schedules. An audit that runs next to statements of a request its client has given up is left to
  \<open>audit_needs_quiet\<close>. Code points above 255 and the sign of a zero
  \<open>float\<close> are left out. An advisory lock that fails to be granted and a COMMIT of a migration
  that fails are not distinguished from a script that fails.
\<close>

end
